(* ===== verification/Prelude.thy ===== *)
theory Prelude
  imports "HOL-Library.Word" "HOL-Library.Char_ord" "HOL-Library.List_Lexorder"
begin

text \<open>
  The vocabulary every component shares: Rust's strings and fixed-size byte arrays,
  checked machine arithmetic, the \<open>Result\<close> type with its \<open>?\<close> operator, and the
  decimal rendering and parsing of integers the standard library does. A Rust
  \<open>String\<close> is a sequence of UTF-8 bytes and an Isabelle \<open>char\<close> is one byte, so a
  \<open>string\<close> is both a \<open>str\<close> and its \<open>as_bytes\<close>; the order of \<open>string\<close> is
  the bytewise lexicographic order of \<open>str::cmp\<close>.
\<close>

subsection \<open>Named collections\<close>

named_theorems result_simps "characterisations of successful and failing results"
named_theorems encode_simps "lengths and shapes of encodings"

subsection \<open>Types\<close>

type_synonym bytes = "char list"
type_synonym u128 = "128 word"
type_synonym u64 = "64 word"
type_synonym ('e, 'a) result = "'e + 'a"

abbreviation Ok :: "'a \<Rightarrow> 'e + 'a" where "Ok \<equiv> Inr"
abbreviation Err :: "'e \<Rightarrow> 'e + 'a" where "Err \<equiv> Inl"

subsection \<open>Results\<close>

text \<open>\<open>and_then r f\<close> is \<open>let a = r?; f(a)\<close>: the error returns at once.\<close>

definition and_then :: "'e + 'a \<Rightarrow> ('a \<Rightarrow> 'e + 'b) \<Rightarrow> 'e + 'b" where
  "and_then r f = (case r of Inl e \<Rightarrow> Inl e | Inr a \<Rightarrow> f a)"

definition ensure :: "bool \<Rightarrow> 'e \<Rightarrow> 'e + unit" where
  "ensure b e = (if b then Ok () else Err e)"

definition ok_or :: "'a option \<Rightarrow> 'e \<Rightarrow> 'e + 'a" where
  "ok_or x e = (case x of None \<Rightarrow> Err e | Some a \<Rightarrow> Ok a)"

definition map_err :: "('e \<Rightarrow> 'f) \<Rightarrow> 'e + 'a \<Rightarrow> 'f + 'a" where
  "map_err f r = (case r of Inl e \<Rightarrow> Inl (f e) | Inr a \<Rightarrow> Inr a)"

definition is_ok :: "'e + 'a \<Rightarrow> bool" where
  "is_ok r = (case r of Inl _ \<Rightarrow> False | Inr _ \<Rightarrow> True)"

text \<open>\<open>iter().map(f).collect::<Result<Vec<_>>>()\<close>: left to right, first error wins.\<close>

fun collect_ok :: "('a \<Rightarrow> 'e + 'b) \<Rightarrow> 'a list \<Rightarrow> 'e + 'b list" where
  "collect_ok f [] = Ok []"
| "collect_ok f (x # xs) =
     and_then (f x) (\<lambda>y. and_then (collect_ok f xs) (\<lambda>ys. Ok (y # ys)))"

text \<open>A \<open>for\<close> loop whose body may return early with an error.\<close>

fun for_each :: "('a \<Rightarrow> 'e + unit) \<Rightarrow> 'a list \<Rightarrow> 'e + unit" where
  "for_each f [] = Ok ()"
| "for_each f (x # xs) = and_then (f x) (\<lambda>_. for_each f xs)"

lemma and_then_simps [simp]:
  "and_then (Inl e) f = Inl e" "and_then (Inr a) f = f a"
  by (simp_all add: and_then_def)

lemma and_then_cong [fundef_cong]:
  "r = r' \<Longrightarrow> (\<And>a. r' = Inr a \<Longrightarrow> f a = f' a) \<Longrightarrow> and_then r f = and_then r' f'"
  by (cases r') auto

lemma and_then_eq_Ok [simp, result_simps]:
  "and_then r f = Inr b \<longleftrightarrow> (\<exists>a. r = Inr a \<and> f a = Inr b)"
  by (cases r) auto

lemma and_then_eq_Err [result_simps]:
  "and_then r f = Inl e \<longleftrightarrow> r = Inl e \<or> (\<exists>a. r = Inr a \<and> f a = Inl e)"
  by (cases r) auto

lemma ensure_simps [simp, result_simps]:
  "ensure True e = Inr ()" "ensure False e = Inl e"
  "ensure b e = Inr u \<longleftrightarrow> b" "ensure b e = Inl e' \<longleftrightarrow> \<not> b \<and> e' = e"
  by (auto simp: ensure_def)

lemma ok_or_simps [simp, result_simps]:
  "ok_or (Some a) e = Inr a" "ok_or None e = Inl e"
  "ok_or x e = Inr a' \<longleftrightarrow> x = Some a'" "ok_or x e = Inl e' \<longleftrightarrow> x = None \<and> e' = e"
  by (auto simp: ok_or_def split: option.splits)

lemma map_err_simps [simp, result_simps]:
  "map_err f (Inl x) = Inl (f x)" "map_err f (Inr a) = Inr a"
  "map_err f r = Inr a' \<longleftrightarrow> r = Inr a'" "map_err f r = Inl e \<longleftrightarrow> (\<exists>x. r = Inl x \<and> e = f x)"
  by (auto simp: map_err_def split: sum.splits)

lemma is_ok_simps [simp, result_simps]:
  "is_ok (Inr a)" "\<not> is_ok (Inl e)"
  by (auto simp: is_ok_def)

lemma is_ok_iff [result_simps]: "is_ok r \<longleftrightarrow> (\<exists>a. r = Inr a)"
  by (cases r) auto

lemma collect_ok_Ok_iff [result_simps]:
  "collect_ok f xs = Inr ys \<longleftrightarrow> list_all2 (\<lambda>x y. f x = Inr y) xs ys"
proof (induction xs arbitrary: ys)
  case Nil
  then show ?case by auto
next
  case (Cons x xs)
  then show ?case by (cases ys) auto
qed

lemma collect_ok_total [result_simps]:
  "(\<And>x. x \<in> set xs \<Longrightarrow> f x = Inr (g x)) \<Longrightarrow> collect_ok f xs = Inr (map g xs)"
  by (induction xs) auto

lemma collect_ok_Ok [simp]: "collect_ok (\<lambda>x. Inr (g x)) xs = Inr (map g xs)"
  by (rule collect_ok_total) simp

lemma collect_ok_cong [fundef_cong]:
  "xs = ys \<Longrightarrow> (\<And>x. x \<in> set ys \<Longrightarrow> f x = g x) \<Longrightarrow> collect_ok f xs = collect_ok g ys"
  by (induction ys arbitrary: xs) auto

lemma for_each_Ok_iff [simp, result_simps]:
  "for_each f xs = Inr u \<longleftrightarrow> (\<forall>x \<in> set xs. f x = Inr ())"
  by (induction xs) auto

lemma for_each_Err_iff [result_simps]:
  "for_each f xs = Inl e \<longleftrightarrow>
     (\<exists>ys x zs. xs = ys @ x # zs \<and> (\<forall>y \<in> set ys. f y = Inr ()) \<and> f x = Inl e)"
proof (induction xs)
  case Nil
  then show ?case by simp
next
  case (Cons a xs)
  show ?case
  proof
    assume "for_each f (a # xs) = Inl e"
    then consider "f a = Inl e" | "f a = Inr ()" "for_each f xs = Inl e"
      by (auto simp: and_then_eq_Err)
    then show "\<exists>ys x zs. a # xs = ys @ x # zs \<and> (\<forall>y\<in>set ys. f y = Inr ()) \<and> f x = Inl e"
    proof cases
      case 1
      then show ?thesis by (intro exI [of _ "[]"]) auto
    next
      case 2
      then obtain ys x zs where "xs = ys @ x # zs" "\<forall>y\<in>set ys. f y = Inr ()" "f x = Inl e"
        using Cons.IH by blast
      with 2 show ?thesis by (intro exI [of _ "a # ys"]) auto
    qed
  next
    assume "\<exists>ys x zs. a # xs = ys @ x # zs \<and> (\<forall>y\<in>set ys. f y = Inr ()) \<and> f x = Inl e"
    then obtain ys x zs where h: "a # xs = ys @ x # zs" "\<forall>y\<in>set ys. f y = Inr ()" "f x = Inl e"
      by blast
    show "for_each f (a # xs) = Inl e"
    proof (cases ys)
      case Nil
      with h show ?thesis by simp
    next
      case (Cons b ys')
      with h have "for_each f xs = Inl e" using Cons.IH by auto
      with h Cons show ?thesis by simp
    qed
  qed
qed

subsection \<open>Checked machine arithmetic\<close>

definition checked_add :: "'l::len word \<Rightarrow> 'l word \<Rightarrow> 'l word option" where
  "checked_add a b = (if unat a + unat b < 2 ^ LENGTH('l) then Some (a + b) else None)"

definition checked_mul :: "'l::len word \<Rightarrow> 'l word \<Rightarrow> 'l word option" where
  "checked_mul a b = (if unat a * unat b < 2 ^ LENGTH('l) then Some (a * b) else None)"

definition saturating_sub :: "'l::len word \<Rightarrow> 'l word \<Rightarrow> 'l word" where
  "saturating_sub a b = (if b \<le> a then a - b else 0)"

definition saturating_mul :: "'l::len word \<Rightarrow> 'l word \<Rightarrow> 'l word" where
  "saturating_mul a b = (if unat a * unat b < 2 ^ LENGTH('l) then a * b else - 1)"

lemma unat_lt: "unat (w :: 'l::len word) < 2 ^ LENGTH('l)"
  by (rule unsigned_less)

lemma u128_lt: "unat (w :: u128) < 2 ^ 128"
  using unat_lt [of w] by simp

lemma unat_of_nat_u128: "n < 2 ^ 128 \<Longrightarrow> unat (of_nat n :: u128) = n"
  by (simp add: unat_of_nat)

lemma unat_of_nat_u64: "n < 2 ^ 64 \<Longrightarrow> unat (of_nat n :: u64) = n"
  by (simp add: unat_of_nat)

lemma unat_inj [simp]: "unat a = unat b \<longleftrightarrow> a = b"
  by (simp add: word_unat_eq_iff)

lemma checked_add_Some:
  fixes a b :: "'l::len word"
  shows "checked_add a b = Some c \<longleftrightarrow> unat c = unat a + unat b"
proof
  assume "checked_add a b = Some c"
  then show "unat c = unat a + unat b"
    by (auto simp: checked_add_def unat_word_ariths split: if_splits)
next
  assume h: "unat c = unat a + unat b"
  have "unat c < 2 ^ LENGTH('l)" by (rule unsigned_less)
  with h have "unat (a + b) = unat c" by (simp add: unat_word_ariths)
  then have "a + b = c" by (rule word_unat_eq_iff [THEN iffD2])
  with h \<open>unat c < 2 ^ LENGTH('l)\<close> show "checked_add a b = Some c"
    by (simp add: checked_add_def)
qed

lemma checked_add_None:
  "checked_add (a :: 'l::len word) b = None \<longleftrightarrow> 2 ^ LENGTH('l) \<le> unat a + unat b"
  by (auto simp: checked_add_def)

lemma checked_mul_Some:
  fixes a b :: "'l::len word"
  shows "checked_mul a b = Some c \<longleftrightarrow> unat c = unat a * unat b"
proof
  assume "checked_mul a b = Some c"
  then show "unat c = unat a * unat b"
    by (auto simp: checked_mul_def unat_word_ariths split: if_splits)
next
  assume h: "unat c = unat a * unat b"
  have "unat c < 2 ^ LENGTH('l)" by (rule unsigned_less)
  with h have "unat (a * b) = unat c" by (simp add: unat_word_ariths)
  then have "a * b = c" by (rule word_unat_eq_iff [THEN iffD2])
  with h \<open>unat c < 2 ^ LENGTH('l)\<close> show "checked_mul a b = Some c"
    by (simp add: checked_mul_def)
qed

lemma unat_saturating_sub: "unat (saturating_sub a b) = unat a - unat b"
  by (auto simp: saturating_sub_def unat_sub word_le_nat_alt)

lemma unat_saturating_mul:
  fixes a b :: "'l::len word"
  shows "unat (saturating_mul a b) = min (unat a * unat b) (2 ^ LENGTH('l) - 1)"
proof (cases "unat a * unat b < 2 ^ LENGTH('l)")
  case True
  then have "unat (a * b) = unat a * unat b" by (simp add: unat_word_ariths)
  moreover have "min (unat a * unat b) (2 ^ LENGTH('l) - 1) = unat a * unat b"
    using True by (intro min_absorb1) linarith
  ultimately show ?thesis using True by (simp only: saturating_mul_def if_True)
next
  case False
  then have "min (unat a * unat b) (2 ^ LENGTH('l) - 1) = 2 ^ LENGTH('l) - 1"
    by (intro min_absorb2) linarith
  moreover have "unat (- 1 :: 'l word) = 2 ^ LENGTH('l) - 1"
    by (simp add: unsigned_minus_1_eq_mask mask_eq_exp_minus_1)
  ultimately show ?thesis using False by (simp only: saturating_mul_def if_False)
qed

subsection \<open>Fixed-size byte arrays\<close>

typedef b32 = "{bs :: bytes. length bs = 32}"
  morphisms arr32 Abs_b32
  by (rule exI [of _ "replicate 32 CHR 0x00"]) simp

setup_lifting type_definition_b32

text \<open>The array a byte list of the right length converts to; shorter lists never reach it.\<close>

lift_definition mk32 :: "bytes \<Rightarrow> b32" is "\<lambda>bs. take 32 (bs @ replicate 32 CHR 0x00)"
  by simp

definition try32 :: "bytes \<Rightarrow> b32 option" where
  "try32 bs = (if length bs = 32 then Some (mk32 bs) else None)"

typedef b64 = "{bs :: bytes. length bs = 64}"
  morphisms arr64 Abs_b64
  by (rule exI [of _ "replicate 64 CHR 0x00"]) simp

setup_lifting type_definition_b64

lift_definition mk64 :: "bytes \<Rightarrow> b64" is "\<lambda>bs. take 64 (bs @ replicate 64 CHR 0x00)"
  by simp

definition try64 :: "bytes \<Rightarrow> b64 option" where
  "try64 bs = (if length bs = 64 then Some (mk64 bs) else None)"

instantiation b32 :: equal
begin
definition equal_b32 :: "b32 \<Rightarrow> b32 \<Rightarrow> bool" where
  "equal_b32 a b \<longleftrightarrow> arr32 a = arr32 b"
instance
  by standard (simp add: equal_b32_def arr32_inject)
end

instantiation b64 :: equal
begin
definition equal_b64 :: "b64 \<Rightarrow> b64 \<Rightarrow> bool" where
  "equal_b64 a b \<longleftrightarrow> arr64 a = arr64 b"
instance
  by standard (simp add: equal_b64_def arr64_inject)
end

lemma length_arr32 [simp, encode_simps]: "length (arr32 a) = 32"
  using arr32 [of a] by simp

lemma length_arr64 [simp, encode_simps]: "length (arr64 a) = 64"
  using arr64 [of a] by simp

lemma arr32_mk32 [simp]: "arr32 (mk32 bs) = take 32 (bs @ replicate 32 CHR 0x00)"
  by (rule mk32.rep_eq)

lemma arr64_mk64 [simp]: "arr64 (mk64 bs) = take 64 (bs @ replicate 64 CHR 0x00)"
  by (rule mk64.rep_eq)

lemma mk32_arr32 [simp]: "mk32 (arr32 a) = a"
  by (rule arr32_inject [THEN iffD1]) simp

lemma mk64_arr64 [simp]: "mk64 (arr64 a) = a"
  by (rule arr64_inject [THEN iffD1]) simp

lemma try32_arr32 [simp]: "try32 (arr32 a) = Some a"
  by (simp add: try32_def)

lemma try64_arr64 [simp]: "try64 (arr64 a) = Some a"
  by (simp add: try64_def)

lemma try32_Some: "try32 bs = Some a \<longleftrightarrow> bs = arr32 a"
  by (auto simp: try32_def)

lemma try64_Some: "try64 bs = Some a \<longleftrightarrow> bs = arr64 a"
  by (auto simp: try64_def)

subsection \<open>ASCII classes and decimal integers of the standard library\<close>

abbreviation code :: "char \<Rightarrow> nat" where "code \<equiv> of_char"

definition is_ascii_digit :: "char \<Rightarrow> bool" where
  "is_ascii_digit c \<longleftrightarrow> 48 \<le> code c \<and> code c \<le> 57"

definition is_ascii_alphanumeric :: "char \<Rightarrow> bool" where
  "is_ascii_alphanumeric c \<longleftrightarrow>
     is_ascii_digit c \<or> 65 \<le> code c \<and> code c \<le> 90 \<or> 97 \<le> code c \<and> code c \<le> 122"

definition is_ascii_hexdigit :: "char \<Rightarrow> bool" where
  "is_ascii_hexdigit c \<longleftrightarrow>
     is_ascii_digit c \<or> 65 \<le> code c \<and> code c \<le> 70 \<or> 97 \<le> code c \<and> code c \<le> 102"

definition to_ascii_lowercase :: "char \<Rightarrow> char" where
  "to_ascii_lowercase c = (if 65 \<le> code c \<and> code c \<le> 90 then char_of (code c + 32) else c)"

definition eq_ignore_ascii_case :: "string \<Rightarrow> string \<Rightarrow> bool" where
  "eq_ignore_ascii_case s t \<longleftrightarrow> map to_ascii_lowercase s = map to_ascii_lowercase t"

definition digit_char :: "nat \<Rightarrow> char" where
  "digit_char d = char_of (48 + d)"

definition digit_val :: "char \<Rightarrow> nat" where
  "digit_val c = code c - 48"

text \<open>\<open>Display\<close> of an unsigned integer.\<close>

fun show_nat :: "nat \<Rightarrow> string" where
  "show_nat n = (if n < 10 then [digit_char n] else show_nat (n div 10) @ [digit_char (n mod 10)])"

declare show_nat.simps [simp del]

definition digits_val :: "string \<Rightarrow> nat" where
  "digits_val s = foldl (\<lambda>acc c. acc * 10 + digit_val c) 0 s"

text \<open>\<open>FromStr\<close> of an unsigned integer type: an optional plus sign, then digits, in range.\<close>

definition parse_unsigned :: "string \<Rightarrow> 'l::len word option" where
  "parse_unsigned s =
     (let ds = (case s of [] \<Rightarrow> [] | c # cs \<Rightarrow> if c = CHR ''+'' then cs else s)
      in if ds \<noteq> [] \<and> list_all is_ascii_digit ds \<and> digits_val ds < 2 ^ LENGTH('l)
         then Some (of_nat (digits_val ds)) else None)"

text \<open>\<open>{s:0<n}\<close> pads on the right, \<open>{v:0n}\<close> pads a number on the left.\<close>

definition pad_right0 :: "nat \<Rightarrow> string \<Rightarrow> string" where
  "pad_right0 n s = s @ replicate (n - length s) CHR ''0''"

definition pad_left0 :: "nat \<Rightarrow> string \<Rightarrow> string" where
  "pad_left0 n s = replicate (n - length s) CHR ''0'' @ s"

lemma code_digit_char: "d < 10 \<Longrightarrow> code (digit_char d) = 48 + d"
  by (simp add: digit_char_def of_char_of)

lemma digit_val_digit_char [simp]: "d < 10 \<Longrightarrow> digit_val (digit_char d) = d"
  by (simp add: digit_val_def code_digit_char)

lemma is_ascii_digit_digit_char [simp]: "d < 10 \<Longrightarrow> is_ascii_digit (digit_char d)"
  by (simp add: is_ascii_digit_def code_digit_char)

lemma digit_char_0: "digit_char 0 = CHR ''0''"
  by code_simp

lemma is_ascii_digit_0 [simp]: "is_ascii_digit CHR ''0''"
  using is_ascii_digit_digit_char [of 0] by (simp add: digit_char_0)

lemma digit_val_0 [simp]: "digit_val CHR ''0'' = 0"
  using digit_val_digit_char [of 0] by (simp add: digit_char_0)

lemma digit_val_lt: "is_ascii_digit c \<Longrightarrow> digit_val c < 10"
  by (auto simp: is_ascii_digit_def digit_val_def)

lemma digit_char_digit_val: "is_ascii_digit c \<Longrightarrow> digit_char (digit_val c) = c"
  by (auto simp: is_ascii_digit_def digit_val_def digit_char_def)

lemma digits_val_Nil [simp]: "digits_val [] = 0"
  by (simp add: digits_val_def)

lemma digits_val_snoc [simp]: "digits_val (s @ [c]) = digits_val s * 10 + digit_val c"
  by (simp add: digits_val_def)

lemma digits_val_append: "digits_val (s @ t) = digits_val s * 10 ^ length t + digits_val t"
proof (induction t rule: rev_induct)
  case Nil
  then show ?case by simp
next
  case (snoc c t)
  have "digits_val (s @ t @ [c]) = digits_val ((s @ t) @ [c])" by simp
  also have "\<dots> = digits_val (s @ t) * 10 + digit_val c" by (rule digits_val_snoc)
  also have "\<dots> = digits_val s * 10 ^ length (t @ [c]) + digits_val (t @ [c])"
    using snoc.IH by (simp add: algebra_simps)
  finally show ?case .
qed

lemma digits_val_replicate0 [simp]: "digits_val (replicate n CHR ''0'') = 0"
proof (induction n)
  case 0
  then show ?case by simp
next
  case (Suc n)
  have "digits_val (replicate (Suc n) CHR ''0'') = digits_val (replicate n CHR ''0'' @ [CHR ''0''])"
    by (simp add: replicate_append_same)
  also have "\<dots> = digits_val (replicate n CHR ''0'') * 10 + 0"
    by (subst digits_val_snoc) simp
  finally show ?case using Suc by simp
qed

lemma digits_val_lt: "list_all is_ascii_digit s \<Longrightarrow> digits_val s < 10 ^ length s"
proof (induction s rule: rev_induct)
  case Nil
  then show ?case by simp
next
  case (snoc c s)
  then have "digits_val s < 10 ^ length s" "digit_val c < 10"
    by (auto simp: digit_val_lt)
  then show ?case by simp
qed

lemma show_nat_nonempty [simp]: "show_nat n \<noteq> []"
  by (subst show_nat.simps) simp

lemma show_nat_digits [simp]: "list_all is_ascii_digit (show_nat n)"
proof (induction n rule: show_nat.induct)
  case (1 n)
  then show ?case by (subst show_nat.simps) auto
qed

lemma digits_val_show_nat [simp]: "digits_val (show_nat n) = n"
proof (induction n rule: show_nat.induct)
  case (1 n)
  show ?case
  proof (cases "n < 10")
    case True
    then show ?thesis using digits_val_snoc [of "[]" "digit_char n"]
      by (subst show_nat.simps) simp
  next
    case False
    with 1 show ?thesis by (subst show_nat.simps) simp
  qed
qed

lemma length_show_nat: "0 < k \<Longrightarrow> n < 10 ^ k \<Longrightarrow> length (show_nat n) \<le> k"
proof (induction n arbitrary: k rule: show_nat.induct)
  case (1 n)
  show ?case
  proof (cases "n < 10")
    case True
    then show ?thesis using "1.prems" by (subst show_nat.simps) simp
  next
    case False
    have "k \<noteq> 1" using False "1.prems" by auto
    with "1.prems" obtain j where k: "k = Suc j" "0 < j"
      by (cases k) auto
    then have "n div 10 < 10 ^ j" using "1.prems" by (simp add: less_mult_imp_div_less mult.commute)
    with False k "1.IH" [of j] show ?thesis by (subst show_nat.simps) simp
  qed
qed

lemma show_nat_inj [simp]: "show_nat m = show_nat n \<longleftrightarrow> m = n"
  by (metis digits_val_show_nat)

lemma length_pad_left0 [simp, encode_simps]: "length (pad_left0 n s) = max n (length s)"
  by (simp add: pad_left0_def)

lemma digits_val_pad_left0 [simp]: "digits_val (pad_left0 n s) = digits_val s"
  by (simp add: pad_left0_def digits_val_append)

lemma digits_pad_left0 [simp]:
  "list_all is_ascii_digit (pad_left0 n s) \<longleftrightarrow> list_all is_ascii_digit s"
  by (auto simp: pad_left0_def list_all_iff)

lemma length_pad_right0 [simp, encode_simps]: "length (pad_right0 n s) = max n (length s)"
  by (simp add: pad_right0_def)

lemma digits_pad_right0 [simp]:
  "list_all is_ascii_digit (pad_right0 n s) \<longleftrightarrow> list_all is_ascii_digit s"
  by (auto simp: pad_right0_def list_all_iff)

lemma not_digit_head:
  "list_all is_ascii_digit s \<Longrightarrow> \<not> is_ascii_digit c \<Longrightarrow> (case s of [] \<Rightarrow> t | x # xs \<Rightarrow> if x = c then u x xs else v x xs)
     = (case s of [] \<Rightarrow> t | x # xs \<Rightarrow> v x xs)"
  by (cases s) auto

lemma parse_unsigned_digits:
  assumes "s \<noteq> []" "list_all is_ascii_digit s"
  shows "(parse_unsigned s :: 'l::len word option) =
     (if digits_val s < 2 ^ LENGTH('l) then Some (of_nat (digits_val s)) else None)"
proof -
  have "\<not> is_ascii_digit CHR ''+''" by (simp add: is_ascii_digit_def)
  with assms show ?thesis by (cases s) (auto simp: parse_unsigned_def)
qed

subsection \<open>Splitting strings\<close>

text \<open>\<open>str::split_once\<close> at the first occurrence of a character.\<close>

fun split_once :: "char \<Rightarrow> string \<Rightarrow> (string \<times> string) option" where
  "split_once d [] = None"
| "split_once d (c # cs) =
     (if c = d then Some ([], cs)
      else map_option (\<lambda>(a, b). (c # a, b)) (split_once d cs))"

text \<open>\<open>str::split\<close> on a character: always at least one piece.\<close>

fun split_on :: "char \<Rightarrow> string \<Rightarrow> string list" where
  "split_on d [] = [[]]"
| "split_on d (c # cs) =
     (if c = d then [] # split_on d cs
      else (case split_on d cs of [] \<Rightarrow> [[c]] | p # ps \<Rightarrow> (c # p) # ps))"

definition strip_prefix :: "string \<Rightarrow> string \<Rightarrow> string option" where
  "strip_prefix p s = (if take (length p) s = p then Some (drop (length p) s) else None)"

definition starts_with :: "string \<Rightarrow> string \<Rightarrow> bool" where
  "starts_with p s \<longleftrightarrow> take (length p) s = p"

definition ends_with :: "string \<Rightarrow> string \<Rightarrow> bool" where
  "ends_with p s \<longleftrightarrow> length p \<le> length s \<and> drop (length s - length p) s = p"

lemma starts_with_iff: "starts_with p s \<longleftrightarrow> (\<exists>r. s = p @ r)"
  by (metis append_eq_conv_conj starts_with_def)

lemma split_once_Some:
  "split_once d s = Some (a, b) \<longleftrightarrow> s = a @ d # b \<and> d \<notin> set a"
proof (induction s arbitrary: a)
  case Nil
  then show ?case by simp
next
  case (Cons c cs)
  show ?case
  proof (cases "c = d")
    case True
    then show ?thesis by (cases a) auto
  next
    case False
    then show ?thesis by (cases a) (auto simp: Cons.IH)
  qed
qed

lemma split_once_None: "split_once d s = None \<longleftrightarrow> d \<notin> set s"
  by (induction s) auto

lemma split_once_append: "d \<notin> set a \<Longrightarrow> split_once d (a @ d # b) = Some (a, b)"
  by (simp add: split_once_Some)

lemma strip_prefix_Some: "strip_prefix p s = Some r \<longleftrightarrow> s = p @ r"
  by (auto simp: strip_prefix_def) (metis append_take_drop_id)

lemma strip_prefix_None: "strip_prefix p s = None \<longleftrightarrow> (\<forall>r. s \<noteq> p @ r)"
  by (metis not_None_eq strip_prefix_Some)

text \<open>A check of the entries whose key has a prefix.\<close>

lemma strip_prefix_ensure:
  "(case strip_prefix p s of None \<Rightarrow> Ok () | Some r \<Rightarrow> ensure (P r) (e r)) = Ok u \<longleftrightarrow>
     (\<forall>r. s = p @ r \<longrightarrow> P r)"
proof (cases "strip_prefix p s")
  case None
  then show ?thesis using strip_prefix_None [of p s] by simp
next
  case (Some r)
  then show ?thesis using strip_prefix_Some [of p s r] by simp
qed

text \<open>\<open>[String]::join\<close>.\<close>

fun join :: "string \<Rightarrow> string list \<Rightarrow> string" where
  "join sep [] = []"
| "join sep [x] = x"
| "join sep (x # y # zs) = x @ sep @ join sep (y # zs)"

lemma split_on_plain: "d \<notin> set x \<Longrightarrow> split_on d x = [x]"
  by (induction x) auto

lemma split_on_append: "d \<notin> set x \<Longrightarrow> split_on d (x @ d # y) = x # split_on d y"
  by (induction x) auto

text \<open>Splitting undoes joining when no piece contains the separator.\<close>

lemma split_on_join:
  "xs \<noteq> [] \<Longrightarrow> \<forall>x \<in> set xs. d \<notin> set x \<Longrightarrow> split_on d (join [d] xs) = xs"
  by (induction "[d]" xs rule: join.induct) (auto simp: split_on_plain split_on_append)

lemma join_inj:
  assumes "\<forall>x \<in> set xs. x \<noteq> [] \<and> d \<notin> set x" "\<forall>x \<in> set ys. x \<noteq> [] \<and> d \<notin> set x"
    and "join [d] xs = join [d] ys"
  shows "xs = ys"
proof -
  have empty: "join [d] zs = [] \<longleftrightarrow> zs = []" if "\<forall>x \<in> set zs. x \<noteq> []" for zs
    using that by (cases "([d], zs)" rule: join.cases) auto
  show ?thesis
  proof (cases "xs = [] \<or> ys = []")
    case True
    then show ?thesis using assms empty [of xs] empty [of ys] by auto
  next
    case False
    then show ?thesis using assms split_on_join [of xs d] split_on_join [of ys d] by metis
  qed
qed


subsection \<open>Sorting and removing duplicates\<close>

text \<open>\<open>sort\<close> followed by \<open>dedup\<close>.\<close>

definition sort_dedup :: "'a::linorder list \<Rightarrow> 'a list" where
  "sort_dedup xs = remdups_adj (sort xs)"

lemma sorted_remdups_adj_strict: "sorted xs \<Longrightarrow> sorted_wrt (<) (remdups_adj xs)"
  by (induction xs rule: remdups_adj.induct) force+

lemma sort_dedup_sorted: "sorted_wrt (<) (sort_dedup xs)"
  by (simp add: sort_dedup_def sorted_remdups_adj_strict)

lemma set_sort_dedup [simp]: "set (sort_dedup xs) = set xs"
  by (simp add: sort_dedup_def)

lemma distinct_sort_dedup [simp]: "distinct (sort_dedup xs)"
  using sort_dedup_sorted [of xs] strict_sorted_iff by blast

lemma length_sort_dedup: "length (sort_dedup xs) = length xs \<longleftrightarrow> distinct xs"
  using distinct_card [OF distinct_sort_dedup [of xs]] distinct_card [of xs] card_distinct [of xs]
  by auto


subsection \<open>Searching a list\<close>

lemma find_SomeD: "find P xs = Some x \<Longrightarrow> x \<in> set xs \<and> P x"
  by (induction xs) (auto split: if_splits)

lemma find_key:
  "distinct (map f xs) \<Longrightarrow> find (\<lambda>x. f x = k) xs = Some y \<longleftrightarrow> y \<in> set xs \<and> f y = k"
  by (induction xs) force+


lemma set_map_filter_iff: "y \<in> set (List.map_filter f xs) \<longleftrightarrow> (\<exists>x \<in> set xs. f x = Some y)"
  by (force simp: map_filter_def)

subsection \<open>Loops over \<open>iter().enumerate()\<close>\<close>

lemma set_enumerate0: "set (List.enumerate 0 xs) = (\<lambda>i. (i, xs ! i)) ` {..<length xs}"
  by (auto simp: in_set_enumerate_eq image_iff)

lemma for_each_enumerate_Ok:
  "for_each f (List.enumerate 0 xs) = Inr u \<longleftrightarrow> (\<forall>i < length xs. f (i, xs ! i) = Inr ())"
  by (auto simp: set_enumerate0)


subsection \<open>Trimming white space\<close>

text \<open>
  \<open>str::trim\<close>: the characters with Unicode's \<open>White_Space\<close> property, as UTF-8, are
  removed from both ends.
\<close>

definition white_space :: "string list" where
  "white_space =
     map (map char_of)
       ([[9], [10], [11], [12], [13], [32], [0xC2, 0x85], [0xC2, 0xA0], [0xE1, 0x9A, 0x80]] @
        map (\<lambda>b. [0xE2, 0x80, b]) [0x80..<0x8B] @
        [[0xE2, 0x80, 0xA8], [0xE2, 0x80, 0xA9], [0xE2, 0x80, 0xAF], [0xE2, 0x81, 0x9F], [0xE3, 0x80, 0x80 :: nat]])"

function strip_leading :: "string list \<Rightarrow> string \<Rightarrow> string" where
  "strip_leading ws s =
     (case find (\<lambda>w. w \<noteq> [] \<and> starts_with w s) ws of
        None \<Rightarrow> s
      | Some w \<Rightarrow> strip_leading ws (drop (length w) s))"
  by pat_completeness auto
termination
  by (relation "measure (\<lambda>(ws, s). length s)") (auto dest!: find_SomeD simp: starts_with_iff)

declare strip_leading.simps [simp del]

definition trim :: "string \<Rightarrow> string" where
  "trim s = rev (strip_leading (map rev white_space) (rev (strip_leading white_space s)))"

lemma strip_leading_suffix: "\<exists>u. s = u @ strip_leading ws s"
proof (induction ws s rule: strip_leading.induct)
  case (1 ws s)
  show ?case
  proof (cases "find (\<lambda>w. w \<noteq> [] \<and> starts_with w s) ws")
    case None
    then show ?thesis by (subst strip_leading.simps) simp
  next
    case (Some w)
    then obtain r where s: "s = w @ r" by (auto dest!: find_SomeD simp: starts_with_iff)
    from "1.IH" [OF Some] obtain u where "r = u @ strip_leading ws r" by (auto simp: s)
    moreover have "strip_leading ws s = strip_leading ws r"
      by (subst strip_leading.simps) (simp add: Some, simp add: s)
    ultimately show ?thesis using s by (intro exI [of _ "w @ u"]) simp
  qed
qed

text \<open>A string of letters, digits and other printable ASCII is left alone.\<close>

definition plain_char :: "char \<Rightarrow> bool" where
  "plain_char c \<longleftrightarrow> 32 < code c \<and> code c < 127"

lemma strip_leading_id:
  "\<forall>w \<in> set ws. w \<noteq> [] \<longrightarrow> \<not> starts_with w s \<Longrightarrow> strip_leading ws s = s"
  by (subst strip_leading.simps) (auto simp: find_None_iff split: option.splits dest: find_SomeD)

lemma white_space_plain:
  "\<forall>w \<in> set white_space. w \<noteq> [] \<and> \<not> plain_char (hd w) \<and> \<not> plain_char (last w)"
  by (simp add: white_space_def plain_char_def of_char_of list_all_iff upt_rec)

lemma strip_plain:
  assumes "plain_char c"
  shows "strip_leading white_space (c # t) = c # t" "strip_leading (map rev white_space) (c # t) = c # t"
proof -
  have no: "\<not> starts_with w (c # t)" if "w \<noteq> []" "\<not> plain_char (hd w)" for w
    using that assms by (cases w) (auto simp: starts_with_def)
  show "strip_leading white_space (c # t) = c # t"
    using white_space_plain no by (intro strip_leading_id) blast
  show "strip_leading (map rev white_space) (c # t) = c # t"
    using white_space_plain no by (intro strip_leading_id) (simp add: hd_rev)
qed

lemma strip_plain_string:
  assumes "list_all plain_char s"
  shows "strip_leading white_space s = s" "strip_leading (map rev white_space) (rev s) = rev s"
proof -
  have nil: "strip_leading ws [] = []" for ws
    using strip_leading_suffix [of "[]" ws] by simp
  show "strip_leading white_space s = s"
    using assms by (cases s) (simp_all add: nil strip_plain)
  show "strip_leading (map rev white_space) (rev s) = rev s"
    using assms by (cases s rule: rev_cases) (simp_all add: nil strip_plain)
qed

lemma trim_plain: "list_all plain_char s \<Longrightarrow> trim s = s"
  by (simp add: trim_def strip_plain_string)

lemma trim_trailing_space:
  assumes "list_all plain_char s" "s \<noteq> []"
  shows "trim (s @ '' '') = s"
proof -
  have lead: "strip_leading white_space (s @ '' '') = s @ '' ''"
    using assms by (cases s) (simp_all add: strip_plain)
  have space: "CHR '' '' = char_of n \<longleftrightarrow> n mod 256 = 32" for n :: nat
    by (subst eq_commute) (simp add: char_of_eq_iff take_bit_eq_mod)
  have "find (\<lambda>w. w \<noteq> [] \<and> starts_with w (CHR '' '' # rev s)) (map rev white_space) = Some '' ''"
    by (simp add: white_space_def starts_with_def upt_rec space) (rule sym, simp add: space)
  then have "strip_leading (map rev white_space) (CHR '' '' # rev s) = strip_leading (map rev white_space) (rev s)"
    by (subst strip_leading.simps) simp
  then show ?thesis by (simp add: trim_def lead strip_plain_string(2) [OF assms(1)])
qed

text \<open>Trimming gives a substring.\<close>

lemma trim_substring: "\<exists>u v. s = u @ trim s @ v"
proof -
  obtain u where u: "s = u @ strip_leading white_space s" using strip_leading_suffix by blast
  obtain v where v: "rev (strip_leading white_space s) =
      v @ strip_leading (map rev white_space) (rev (strip_leading white_space s))"
    using strip_leading_suffix by blast
  then have "strip_leading white_space s = trim s @ rev v"
    unfolding trim_def by (metis rev_append rev_rev_ident)
  with u show ?thesis by metis
qed

subsection \<open>UTF-8\<close>

text \<open>
  \<open>std::str::from_utf8\<close>: what \<open>read_to_string\<close> accepts. The length of the character a
  sequence of bytes starts with, by the table of well-formed sequences.
\<close>

definition utf8_tail :: "char \<Rightarrow> bool" where
  "utf8_tail c \<longleftrightarrow> 0x80 \<le> code c \<and> code c \<le> 0xBF"

definition utf8_char :: "bytes \<Rightarrow> nat option" where
  "utf8_char s = (case s of
     [] \<Rightarrow> None
   | b # t \<Rightarrow>
      (let n = code b in
       if n < 0x80 then Some 1
       else if 0xC2 \<le> n \<and> n \<le> 0xDF then
         (case t of c # _ \<Rightarrow> if utf8_tail c then Some 2 else None | _ \<Rightarrow> None)
       else if 0xE0 \<le> n \<and> n \<le> 0xEF then
         (case t of
            c # d # _ \<Rightarrow>
              if utf8_tail c \<and> utf8_tail d \<and> (n = 0xE0 \<longrightarrow> 0xA0 \<le> code c) \<and> (n = 0xED \<longrightarrow> code c \<le> 0x9F)
              then Some 3 else None
          | _ \<Rightarrow> None)
       else if 0xF0 \<le> n \<and> n \<le> 0xF4 then
         (case t of
            c # d # e # _ \<Rightarrow>
              if utf8_tail c \<and> utf8_tail d \<and> utf8_tail e \<and>
                 (n = 0xF0 \<longrightarrow> 0x90 \<le> code c) \<and> (n = 0xF4 \<longrightarrow> code c \<le> 0x8F)
              then Some 4 else None
          | _ \<Rightarrow> None)
       else None))"

lemma utf8_char_pos: "utf8_char s = Some k \<Longrightarrow> 0 < k"
  by (auto simp: utf8_char_def Let_def split: list.splits if_splits)

function valid_utf8 :: "bytes \<Rightarrow> bool" where
  "valid_utf8 s = (if s = [] then True else
     (case utf8_char s of None \<Rightarrow> False | Some k \<Rightarrow> valid_utf8 (drop k s)))"
  by pat_completeness auto

termination
  by (relation "measure length") (auto dest: utf8_char_pos)

declare valid_utf8.simps [simp del]

lemma valid_utf8_Nil [simp]: "valid_utf8 []"
  by (simp add: valid_utf8.simps)

text \<open>The characters of a string, for \<open>chars()\<close>; every string of the program is UTF-8.\<close>

function utf8_chars :: "bytes \<Rightarrow> bytes list" where
  "utf8_chars s = (if s = [] then [] else
     (case utf8_char s of
        None \<Rightarrow> [s]
      | Some k \<Rightarrow> take k s # utf8_chars (drop k s)))"
  by pat_completeness auto

termination
  by (relation "measure length") (auto dest: utf8_char_pos)

declare utf8_chars.simps [simp del]

text \<open>ASCII text is UTF-8.\<close>

lemma valid_utf8_ascii: "\<forall>c \<in> set s. code c < 0x80 \<Longrightarrow> valid_utf8 s"
proof (induction s)
  case (Cons c s)
  then have "utf8_char (c # s) = Some 1" by (simp add: utf8_char_def)
  with Cons show ?case by (subst valid_utf8.simps) simp
qed simp

subsection \<open>Paths\<close>

text \<open>\<open>dir.join(name)\<close> for a plain name.\<close>

definition join_path :: "string \<Rightarrow> string \<Rightarrow> string" where
  "join_path dir name = (if dir = [] \<or> last dir = CHR ''/'' then dir @ name else dir @ ''/'' @ name)"

lemma join_path_inject [simp]: "join_path dir a = join_path dir b \<longleftrightarrow> a = b"
  by (simp add: join_path_def)

subsection \<open>Text\<close>

text \<open>\<open>str::find\<close> and \<open>str::contains\<close>.\<close>

fun find_text :: "string \<Rightarrow> string \<Rightarrow> nat option" where
  "find_text t [] = (if t = [] then Some 0 else None)"
| "find_text t (c # cs) = (if starts_with t (c # cs) then Some 0 else map_option Suc (find_text t cs))"

definition contains_text :: "string \<Rightarrow> string \<Rightarrow> bool" where
  "contains_text s t \<longleftrightarrow> find_text t s \<noteq> None"

lemma find_text_Some: "find_text t s = Some i \<Longrightarrow> \<exists>u v. s = u @ t @ v \<and> length u = i"
proof (induction t s arbitrary: i rule: find_text.induct)
  case (2 t c cs)
  show ?case
  proof (cases "starts_with t (c # cs)")
    case True
    with 2 show ?thesis by (auto simp: starts_with_iff)
  next
    case False
    with "2.prems" obtain j where "find_text t cs = Some j" "i = Suc j" by auto
    with "2.IH" [OF False] obtain u v where "cs = u @ t @ v" "length u = j" by blast
    then show ?thesis using \<open>i = Suc j\<close> by (intro exI [of _ "c # u"] exI [of _ v]) simp
  qed
qed (auto split: if_splits)

lemma contains_text_iff: "contains_text s t \<longleftrightarrow> (\<exists>u v. s = u @ t @ v)"
proof
  assume "\<exists>u v. s = u @ t @ v"
  then obtain u v where "s = u @ t @ v" by blast
  moreover have "find_text t (u @ t @ v) \<noteq> None"
  proof (induction u)
    case Nil
    show ?case
    proof (cases "t @ v")
      case (Cons c cs)
      then have "starts_with t (c # cs)" unfolding starts_with_iff by metis
      then show ?thesis by (simp add: Cons)
    qed simp
  qed simp
  ultimately show "contains_text s t" by (simp add: contains_text_def)
next
  assume "contains_text s t"
  then obtain i where "find_text t s = Some i" by (auto simp: contains_text_def)
  from find_text_Some [OF this] show "\<exists>u v. s = u @ t @ v" by blast
qed

lemma contains_text_part: "contains_text s t \<Longrightarrow> contains_text (u @ s @ v) t"
  unfolding contains_text_iff by (metis append.assoc)

definition nl :: string where "nl = [CHR 0x0A]"
definition em_dash :: string where "em_dash = [CHR 0xE2, CHR 0x80, CHR 0x94]"

text \<open>\<open>{s:<n}\<close> fills up to a number of characters.\<close>

definition pad_to :: "nat \<Rightarrow> string \<Rightarrow> string" where
  "pad_to n s = s @ replicate (n - length (utf8_chars s)) CHR '' ''"

end
