(* ===== verification/Ordered_Map.thy ===== *)
theory Ordered_Map
  imports Prelude
begin

text \<open>
  Rust's \<open>BTreeMap<String, V>\<close>: a finite map whose iteration order is the bytewise
  order of its keys. The order matters to this program, because maps are hashed by
  iterating over them, so the type carries its entries as a strictly sorted association
  list. The locale \<open>keyed_map\<close> is the interface the components use; what they need of
  a map is proved once inside it, and \<open>bmap\<close> is its interpretation.
\<close>

subsection \<open>The interface\<close>

locale keyed_map =
  fixes empty :: "'m"
    and insert :: "string \<Rightarrow> 'v \<Rightarrow> 'm \<Rightarrow> 'm"
    and get :: "'m \<Rightarrow> string \<Rightarrow> 'v option"
    and listing :: "'m \<Rightarrow> (string \<times> 'v) list"
  assumes get_empty: "get empty k = None"
    and get_insert: "get (insert k v m) = (get m)(k \<mapsto> v)"
    and get_listing: "get m = map_of (listing m)"
    and listing_sorted: "sorted_wrt (<) (map fst (listing m))"
    and ext: "get m = get m' \<Longrightarrow> m = m'"
begin

lemma listing_distinct: "distinct (map fst (listing m))"
  using listing_sorted by (simp add: strict_sorted_iff)

lemma get_Some_iff: "get m k = Some v \<longleftrightarrow> (k, v) \<in> set (listing m)"
  using listing_distinct by (simp add: get_listing)

lemma insert_overwrites: "insert k v (insert k w m) = insert k v m"
  by (rule ext) (simp add: get_insert)

lemma insert_commute: "k \<noteq> k' \<Longrightarrow> insert k v (insert k' v' m) = insert k' v' (insert k v m)"
  by (rule ext) (simp add: get_insert fun_upd_twist)

lemma listing_inject: "listing m = listing m' \<longleftrightarrow> m = m'"
  by (metis ext get_listing)

text \<open>Collecting an iterator of pairs: a later pair replaces an earlier one of its key.\<close>

lemma get_fold_insert:
  "get (fold (\<lambda>(k, v). insert k v) kvs m) = get m ++ map_of (rev kvs)"
  by (induction kvs arbitrary: m) (auto simp: get_insert map_add_def fun_eq_iff split: option.splits)

lemma fold_insert_distinct:
  assumes "distinct (map fst kvs)"
  shows "get (fold (\<lambda>(k, v). insert k v) kvs empty) = map_of kvs"
proof -
  have "get empty = Map.empty" by (rule HOL.ext) (rule get_empty)
  moreover have "map_of (rev kvs) = map_of kvs"
    using assms by (intro map_of_inject_set [THEN iffD2]) (simp_all add: rev_map [symmetric])
  ultimately show ?thesis by (simp add: get_fold_insert)
qed

text \<open>The order in which entries arrive does not show in the map.\<close>

lemma fold_insert_order:
  assumes "distinct (map fst kvs)" "distinct (map fst kvs')" "set kvs = set kvs'"
  shows "fold (\<lambda>(k, v). insert k v) kvs empty = fold (\<lambda>(k, v). insert k v) kvs' empty"
proof (rule ext)
  have "map_of kvs = map_of kvs'" by (rule map_of_inject_set [THEN iffD2]) (use assms in auto)
  then show "get (fold (\<lambda>(k, v). insert k v) kvs empty) = get (fold (\<lambda>(k, v). insert k v) kvs' empty)"
    using assms by (simp add: fold_insert_distinct)
qed

end

subsection \<open>Sorted association lists\<close>

fun put_sorted :: "string \<Rightarrow> 'v \<Rightarrow> (string \<times> 'v) list \<Rightarrow> (string \<times> 'v) list" where
  "put_sorted k v [] = [(k, v)]"
| "put_sorted k v ((j, w) # xs) =
     (if k < j then (k, v) # (j, w) # xs
      else if k = j then (k, v) # xs else (j, w) # put_sorted k v xs)"

lemma set_put_sorted: "fst ` set (put_sorted k v xs) = insert k (fst ` set xs)"
  by (induction k v xs rule: put_sorted.induct) auto

lemma sorted_put_sorted:
  "sorted_wrt (<) (map fst xs) \<Longrightarrow> sorted_wrt (<) (map fst (put_sorted k v xs))"
proof (induction k v xs rule: put_sorted.induct)
  case (1 k v)
  then show ?case by simp
next
  case (2 k v j w xs)
  have "\<forall>x \<in> fst ` set (put_sorted k v xs). j < x" if "j < k"
    using 2 that by (auto simp: set_put_sorted)
  with 2 show ?case by (auto simp: not_less_iff_gr_or_eq)
qed

lemma map_of_put_sorted: "map_of (put_sorted k v xs) = (map_of xs)(k \<mapsto> v)"
  by (induction k v xs rule: put_sorted.induct) (auto simp: fun_eq_iff)

subsection \<open>The type\<close>

typedef 'v bmap = "{xs :: (string \<times> 'v) list. sorted_wrt (<) (map fst xs)}"
  morphisms entries Abs_bmap
  by (rule exI [of _ "[]"]) simp

setup_lifting type_definition_bmap

lift_definition bempty :: "'v bmap" is "[]" by simp

lift_definition binsert :: "string \<Rightarrow> 'v \<Rightarrow> 'v bmap \<Rightarrow> 'v bmap" is put_sorted
  by (rule sorted_put_sorted)

lift_definition bmap_values :: "('v \<Rightarrow> 'w) \<Rightarrow> 'v bmap \<Rightarrow> 'w bmap" is "\<lambda>f. map (\<lambda>(k, v). (k, f v))"
  by (auto simp: comp_def split_beta)

definition bget :: "'v bmap \<Rightarrow> string \<Rightarrow> 'v option" where
  "bget m k = map_of (entries m) k"

definition bkeys :: "'v bmap \<Rightarrow> string list" where
  "bkeys m = map fst (entries m)"

definition bis_empty :: "'v bmap \<Rightarrow> bool" where
  "bis_empty m = (entries m = [])"

definition blen :: "'v bmap \<Rightarrow> nat" where
  "blen m = length (entries m)"

definition bcontains :: "'v bmap \<Rightarrow> string \<Rightarrow> bool" where
  "bcontains m k = (bget m k \<noteq> None)"

text \<open>\<open>into_iter().collect::<BTreeMap<_, _>>()\<close>.\<close>

definition bof_list :: "(string \<times> 'v) list \<Rightarrow> 'v bmap" where
  "bof_list kvs = fold (\<lambda>(k, v). binsert k v) kvs bempty"

instantiation bmap :: (equal) equal
begin
definition equal_bmap :: "'a bmap \<Rightarrow> 'a bmap \<Rightarrow> bool" where
  "equal_bmap m n \<longleftrightarrow> entries m = entries n"
instance
  by standard (simp add: equal_bmap_def entries_inject)
end

instantiation bmap :: (type) size
begin
definition size_bmap :: "'a bmap \<Rightarrow> nat" where
  "size_bmap m = length (entries m)"
instance ..
end

lemma entries_bempty [simp]: "entries bempty = []"
  by (rule bempty.rep_eq)

lemma entries_binsert [simp]: "entries (binsert k v m) = put_sorted k v (entries m)"
  by (rule binsert.rep_eq)

lemma entries_bmap_values [simp]:
  "entries (bmap_values f m) = map (\<lambda>(k, v). (k, f v)) (entries m)"
  by (rule bmap_values.rep_eq)

lemma entries_sorted: "sorted_wrt (<) (map fst (entries m))"
  using entries [of m] by simp

lemma map_of_sorted_inject:
  fixes xs ys :: "(string \<times> 'v) list"
  assumes "sorted_wrt (<) (map fst xs)" "sorted_wrt (<) (map fst ys)" "map_of xs = map_of ys"
  shows "xs = ys"
proof -
  have d: "distinct (map fst xs)" "distinct (map fst ys)"
    using assms by (simp_all add: strict_sorted_iff)
  have "set xs = set ys" using map_of_inject_set [OF d] assms(3) by simp
  then have keys: "map fst xs = map fst ys"
    using assms by (intro strict_sorted_equal) auto
  have rebuild: "map (\<lambda>k. (k, the (map_of zs k))) (map fst zs) = zs"
    if "distinct (map fst zs)" for zs :: "(string \<times> 'v) list"
    unfolding map_map comp_def by (rule map_idI) (use that in auto)
  show ?thesis
    using rebuild [OF d(1)] rebuild [OF d(2)] unfolding keys assms(3) by simp
qed

interpretation bm: keyed_map bempty binsert bget entries
proof unfold_locales
  show "bget m = bget m' \<Longrightarrow> m = m'" for m m' :: "'v bmap"
    by (metis bget_def entries_inject entries_sorted HOL.ext map_of_sorted_inject)
qed (auto simp: bget_def fun_eq_iff map_of_put_sorted entries_sorted)

lemma bget_bempty [simp]: "bget bempty k = None"
  by (rule bm.get_empty)

lemma bget_binsert: "bget (binsert k v m) k' = (if k' = k then Some v else bget m k')"
  by (simp add: bm.get_insert)

lemma bkeys_bget: "k \<in> set (bkeys m) \<longleftrightarrow> (\<exists>v. bget m k = Some v)"
  by (force simp: bkeys_def bm.get_Some_iff)

lemma bkeys_binsert: "set (bkeys (binsert k v m)) = insert k (set (bkeys m))"
  by (auto simp: bkeys_bget bget_binsert split: if_splits)

lemma bget_None_iff: "bget m k = None \<longleftrightarrow> k \<notin> set (bkeys m)"
  using bkeys_bget [of k m] by (cases "bget m k") auto

lemma bis_empty_iff: "bis_empty m \<longleftrightarrow> set (bkeys m) = {}"
  by (simp add: bis_empty_def bkeys_def)

lemma distinct_bkeys [simp]: "distinct (bkeys m)"
  unfolding bkeys_def by (rule bm.listing_distinct)

lemma bget_bmap_values: "bget (bmap_values f m) k = map_option f (bget m k)"
proof -
  have "map_of (map (\<lambda>(k, v). (k, f v)) xs) k = map_option f (map_of xs k)" for xs
    by (induction xs) auto
  then show ?thesis by (simp add: bget_def)
qed

lemma bof_list_entries [simp]: "bof_list (entries m) = m"
proof (rule bm.ext)
  show "bget (bof_list (entries m)) = bget m"
    unfolding bof_list_def by (subst bm.fold_insert_distinct) (simp_all add: bm.listing_distinct bm.get_listing)
qed

lemma bget_bof_list: "distinct (map fst kvs) \<Longrightarrow> bget (bof_list kvs) = map_of kvs"
  unfolding bof_list_def by (rule bm.fold_insert_distinct)

lemma bkeys_bof_list: "set (bkeys (bof_list kvs)) = fst ` set kvs"
proof -
  have "bget (bof_list kvs) = Map.empty ++ map_of (rev kvs)"
    unfolding bof_list_def bm.get_fold_insert by (rule arg_cong [of _ _ "\<lambda>m. m ++ _"]) (simp add: fun_eq_iff)
  then have "k \<in> set (bkeys (bof_list kvs)) \<longleftrightarrow> k \<in> dom (map_of (rev kvs))" for k
    by (auto simp: bkeys_bget)
  then show ?thesis by (auto simp: dom_map_of_conv_image_fst)
qed

lemma bmap_eq_iff: "m = m' \<longleftrightarrow> entries m = entries m'"
  by (simp add: bm.listing_inject)

subsection \<open>Amount maps\<close>

text \<open>\<open>get(asset).copied().unwrap_or(0)\<close>, and the value it denotes.\<close>

definition get0 :: "u128 bmap \<Rightarrow> string \<Rightarrow> u128" where
  "get0 m a = (case bget m a of None \<Rightarrow> 0 | Some v \<Rightarrow> v)"

definition amount_of :: "u128 bmap \<Rightarrow> string \<Rightarrow> nat" where
  "amount_of m a = unat (get0 m a)"

lemma get0_bempty [simp]: "get0 bempty a = 0"
  by (simp add: get0_def)

lemma get0_binsert: "get0 (binsert k v m) a = (if a = k then v else get0 m a)"
  by (simp add: get0_def bget_binsert)

lemma amount_of_bempty [simp]: "amount_of bempty a = 0"
  by (simp add: amount_of_def)

lemma amount_of_binsert: "amount_of (binsert k v m) a = (if a = k then unat v else amount_of m a)"
  by (simp add: amount_of_def get0_binsert)

lemma amount_of_lt: "amount_of m a < 2 ^ 128"
  using unsigned_less [of "get0 m a"] by (simp add: amount_of_def)


text \<open>A bound on every entry is a bound on every amount, absent ones included.\<close>

lemma entries_le_iff: "(\<forall>(a, v) \<in> set (entries m). v \<le> f a) \<longleftrightarrow> (\<forall>a. get0 m a \<le> (f a :: u128))"
proof -
  have "(\<forall>(a, v) \<in> set (entries m). v \<le> f a) \<longleftrightarrow> (\<forall>a v. bget m a = Some v \<longrightarrow> v \<le> f a)"
    by (auto simp: bm.get_Some_iff)
  then show ?thesis by (auto simp: get0_def split: option.splits)
qed

text \<open>Maps of one entry.\<close>

lemma entries_single [simp]: "entries (bof_list [(k, v)]) = [(k, v)]"
  by (simp add: bof_list_def)

lemma bkeys_single [simp]: "bkeys (bof_list [(k, v)]) = [k]"
  by (simp add: bkeys_def)

lemma amount_of_single: "amount_of (bof_list [(k, v)]) a = (if a = k then unat v else 0)"
  by (simp add: amount_of_def get0_def bget_bof_list)

end
