(* ===== verification/Amount.thy ===== *)
theory Amount
  imports Ordered_Map
begin

text \<open>
  The amounts of \<open>solvency-merkle/src/lib.rs\<close>: non-negative fixed point with 18
  fractional digits in a \<open>u128\<close>, parsed by \<open>parse_amount_18dp\<close> and rendered by
  \<open>format_amount_18dp\<close>. The abstract specification is \<open>decimal_value\<close>, the
  rational a decimal string denotes, scaled by \<open>10 ^ 18\<close>.
\<close>

subsection \<open>Errors of the crate\<close>

text \<open>
  The crate reports its errors as formatted \<open>anyhow\<close> messages; each message template
  is a constructor here, with the values it interpolates.
\<close>

datatype merkle_error =
    MissingIntegerPart string
  | BareDecimalPoint string
  | TooManyDecimals string
  | NotADecimal string
  | ParseIntError
  | AmountOverflows string
  | DuplicateAsset string
  | UnsafeMapName string
  | UnsafeAssetName string
  | SumOverflow string
  | NoLeaves
  | LeafIndexOutOfRange nat

subsection \<open>Parsing and rendering\<close>

definition SCALE_DIGITS :: nat where "SCALE_DIGITS = 18"

definition SCALE :: u128 where "SCALE = 1000000000000000000"

definition parse_amount_18dp :: "string \<Rightarrow> merkle_error + u128" where
  "parse_amount_18dp s =
     (let (int_part, frac_part) =
            (case split_once CHR ''.'' s of Some (i, f) \<Rightarrow> (i, f) | None \<Rightarrow> (s, []))
      in and_then (ensure (int_part \<noteq> []) (MissingIntegerPart s)) (\<lambda>_.
         and_then (ensure (split_once CHR ''.'' s = None \<or> frac_part \<noteq> []) (BareDecimalPoint s)) (\<lambda>_.
         and_then (ensure (length frac_part \<le> SCALE_DIGITS) (TooManyDecimals s)) (\<lambda>_.
         and_then (ensure (list_all is_ascii_digit int_part \<and> list_all is_ascii_digit frac_part)
                     (NotADecimal s)) (\<lambda>_.
         and_then (ok_or (parse_unsigned int_part) ParseIntError) (\<lambda>int :: u128.
         and_then (if frac_part = [] then Ok 0
                   else ok_or (parse_unsigned (pad_right0 18 frac_part)) ParseIntError) (\<lambda>frac :: u128.
         ok_or (Option.bind (checked_mul int SCALE) (\<lambda>v. checked_add v frac))
           (AmountOverflows s))))))))"

definition format_amount_18dp :: "u128 \<Rightarrow> string" where
  "format_amount_18dp v =
     show_nat (unat (v div SCALE)) @ ''.'' @ pad_left0 18 (show_nat (unat (v mod SCALE)))"

subsection \<open>What a decimal string denotes\<close>

text \<open>
  \<open>decimal_value s\<close> is the number of units of \<open>10 ^ - 18\<close> the string \<open>s\<close> denotes:
  digits, or digits, a point and one to eighteen digits; anything else denotes nothing.
\<close>

definition decimal_value :: "string \<Rightarrow> nat option" where
  "decimal_value s =
     (case split_once CHR ''.'' s of
        None \<Rightarrow>
          if s \<noteq> [] \<and> list_all is_ascii_digit s then Some (digits_val s * 10 ^ 18) else None
      | Some (i, f) \<Rightarrow>
          if i \<noteq> [] \<and> f \<noteq> [] \<and> length f \<le> 18 \<and> list_all is_ascii_digit i \<and> list_all is_ascii_digit f
          then Some (digits_val i * 10 ^ 18 + digits_val f * 10 ^ (18 - length f)) else None)"

lemma unat_SCALE [simp]: "unat SCALE = 10 ^ 18"
  by (simp add: SCALE_def)

lemma unat_div_SCALE: "unat (v div SCALE) = unat v div 10 ^ 18"
  by (simp add: unat_div)

lemma unat_mod_SCALE: "unat (v mod SCALE) = unat v mod 10 ^ 18"
  by (simp add: unat_mod)

lemma point_not_digit [simp]: "\<not> is_ascii_digit CHR ''.''"
  by (simp add: is_ascii_digit_def)

lemma point_notin_digits: "list_all is_ascii_digit s \<Longrightarrow> CHR ''.'' \<notin> set s"
  using point_not_digit by (auto simp: list_all_iff)

lemma digits_val_pad18:
  "length f \<le> 18 \<Longrightarrow> digits_val (pad_right0 18 f) = digits_val f * 10 ^ (18 - length f)"
  by (simp add: pad_right0_def digits_val_append)

lemma pad18_lt: "list_all is_ascii_digit f \<Longrightarrow> length f \<le> 18 \<Longrightarrow> digits_val (pad_right0 18 f) < 10 ^ 18"
  using digits_val_lt [of "pad_right0 18 f"] by simp

text \<open>The fixed-point value assembled from its two parts, and when it fits.\<close>

lemma scale_and_add:
  fixes n f v :: u128
  shows "Option.bind (checked_mul n SCALE) (\<lambda>w. checked_add w f) = Some v
     \<longleftrightarrow> unat v = unat n * 10 ^ 18 + unat f"
proof
  assume "Option.bind (checked_mul n SCALE) (\<lambda>w. checked_add w f) = Some v"
  then show "unat v = unat n * 10 ^ 18 + unat f"
    by (auto simp: bind_eq_Some_conv checked_mul_Some checked_add_Some)
next
  assume h: "unat v = unat n * 10 ^ 18 + unat f"
  define w :: u128 where "w = of_nat (unat n * 10 ^ 18)"
  have "unat n * 10 ^ 18 < 2 ^ 128"
    using h u128_lt [of v] by linarith
  then have "unat w = unat n * unat SCALE"
    unfolding w_def unat_SCALE by (rule unat_of_nat_u128)
  then have "checked_mul n SCALE = Some w" "checked_add w f = Some v"
    using h by (simp_all add: checked_mul_Some checked_add_Some)
  then show "Option.bind (checked_mul n SCALE) (\<lambda>w. checked_add w f) = Some v"
    by simp
qed

lemma parse_unsigned_u128:
  assumes "s \<noteq> []" "list_all is_ascii_digit s"
  shows "parse_unsigned s = Some (n :: u128) \<longleftrightarrow> unat n = digits_val s"
proof -
  have "unat n < 2 ^ 128" by (rule u128_lt)
  then show ?thesis
    unfolding parse_unsigned_digits [OF assms]
    by (auto simp: unat_of_nat_u128 simp flip: unat_inj)
qed

lemma parse_amount_integer:
  assumes "split_once CHR ''.'' s = None"
  shows "parse_amount_18dp s = Ok v \<longleftrightarrow> decimal_value s = Some (unat v)"
proof (cases "s \<noteq> [] \<and> list_all is_ascii_digit s")
  case True
  have "(\<exists>n :: u128. unat n = digits_val s \<and> unat v = unat n * 10 ^ 18)
      \<longleftrightarrow> unat v = digits_val s * 10 ^ 18"
  proof
    assume h: "unat v = digits_val s * 10 ^ 18"
    moreover have "digits_val s \<le> digits_val s * 10 ^ 18" by simp
    ultimately have "digits_val s < 2 ^ 128"
      using u128_lt [of v] by linarith
    then have "unat (of_nat (digits_val s) :: u128) = digits_val s"
      by (rule unat_of_nat_u128)
    with h show "\<exists>n :: u128. unat n = digits_val s \<and> unat v = unat n * 10 ^ 18"
      by (intro exI [of _ "of_nat (digits_val s)"]) simp
  qed auto
  with True assms show ?thesis
    by (auto simp: parse_amount_18dp_def decimal_value_def scale_and_add parse_unsigned_u128)
next
  case False
  with assms show ?thesis
    by (auto simp: parse_amount_18dp_def decimal_value_def)
qed

lemma parse_amount_fraction:
  assumes sp: "split_once CHR ''.'' s = Some (i, f)"
  shows "parse_amount_18dp s = Ok v \<longleftrightarrow> decimal_value s = Some (unat v)"
proof (cases "i \<noteq> [] \<and> f \<noteq> [] \<and> length f \<le> 18 \<and> list_all is_ascii_digit i \<and> list_all is_ascii_digit f")
  case True
  let ?F = "digits_val (pad_right0 18 f)"
  have lt: "?F < 2 ^ 128"
    using True pad18_lt [of f] by auto
  then have uF: "unat (of_nat ?F :: u128) = ?F" by (rule unat_of_nat_u128)
  have "pad_right0 18 f \<noteq> []" "list_all is_ascii_digit (pad_right0 18 f)"
    using True by (auto simp: pad_right0_def list_all_iff)
  then have pf: "(parse_unsigned (pad_right0 18 f) :: u128 option) = Some (of_nat ?F)"
    using lt by (simp add: parse_unsigned_digits)
  have "(\<exists>n :: u128. unat n = digits_val i \<and> unat v = unat n * 10 ^ 18 + ?F)
      \<longleftrightarrow> unat v = digits_val i * 10 ^ 18 + ?F"
  proof
    assume h: "unat v = digits_val i * 10 ^ 18 + ?F"
    moreover have "digits_val i \<le> digits_val i * 10 ^ 18" by simp
    ultimately have "digits_val i < 2 ^ 128"
      using u128_lt [of v] by linarith
    then have "unat (of_nat (digits_val i) :: u128) = digits_val i"
      by (rule unat_of_nat_u128)
    with h show "\<exists>n :: u128. unat n = digits_val i \<and> unat v = unat n * 10 ^ 18 + ?F"
      by (intro exI [of _ "of_nat (digits_val i)"]) simp
  qed auto
  moreover have "parse_amount_18dp s = Ok v
      \<longleftrightarrow> (\<exists>n :: u128. unat n = digits_val i \<and> unat v = unat n * 10 ^ 18 + ?F)"
    using True sp pf uF
    by (auto simp: parse_amount_18dp_def SCALE_DIGITS_def scale_and_add parse_unsigned_u128)
  moreover have "decimal_value s = Some (unat v) \<longleftrightarrow> unat v = digits_val i * 10 ^ 18 + ?F"
    using True sp by (auto simp: decimal_value_def digits_val_pad18)
  ultimately show ?thesis by simp
next
  case False
  with sp show ?thesis
    by (auto simp: parse_amount_18dp_def decimal_value_def SCALE_DIGITS_def)
qed

text \<open>The parser accepts exactly the strings that denote an amount a \<open>u128\<close> can hold.\<close>

lemma parse_amount_iff: "parse_amount_18dp s = Ok v \<longleftrightarrow> decimal_value s = Some (unat v)"
  by (cases "split_once CHR ''.'' s") (auto simp: parse_amount_integer parse_amount_fraction)

lemma parse_amount_Err_iff:
  "(\<exists>e. parse_amount_18dp s = Err e) \<longleftrightarrow> (\<forall>n. decimal_value s = Some n \<longrightarrow> 2 ^ 128 \<le> n)"
proof
  assume "\<exists>e. parse_amount_18dp s = Err e"
  then have no: "parse_amount_18dp s \<noteq> Ok v" for v by auto
  show "\<forall>n. decimal_value s = Some n \<longrightarrow> 2 ^ 128 \<le> n"
  proof (intro allI impI)
    fix n assume d: "decimal_value s = Some n"
    show "2 ^ 128 \<le> n"
    proof (rule ccontr)
      assume "\<not> 2 ^ 128 \<le> n"
      then have "unat (of_nat n :: u128) = n" by (intro unat_of_nat_u128) simp
      then have "parse_amount_18dp s = Ok (of_nat n)" by (simp add: parse_amount_iff d)
      with no show False by blast
    qed
  qed
next
  assume h: "\<forall>n. decimal_value s = Some n \<longrightarrow> 2 ^ 128 \<le> n"
  have "parse_amount_18dp s \<noteq> Ok v" for v
  proof
    assume "parse_amount_18dp s = Ok v"
    then have "decimal_value s = Some (unat v)" by (simp add: parse_amount_iff)
    with h have "2 ^ 128 \<le> unat v" by blast
    with u128_lt [of v] show False by linarith
  qed
  then show "\<exists>e. parse_amount_18dp s = Err e" by (cases "parse_amount_18dp s") auto
qed

subsection \<open>The canonical rendering\<close>

lemma format_fraction_length: "length (pad_left0 18 (show_nat (unat (v mod SCALE)))) = 18"
proof -
  have "length (show_nat (unat (v mod SCALE))) \<le> 18"
    by (rule length_show_nat) (simp_all add: unat_mod_SCALE)
  then show ?thesis by simp
qed

lemma decimal_value_format: "decimal_value (format_amount_18dp v) = Some (unat v)"
proof -
  let ?i = "show_nat (unat (v div SCALE))" and ?f = "pad_left0 18 (show_nat (unat (v mod SCALE)))"
  have "split_once CHR ''.'' (format_amount_18dp v) = Some (?i, ?f)"
    unfolding format_amount_18dp_def
    using split_once_append [OF point_notin_digits [OF show_nat_digits]] by simp
  moreover have "?f \<noteq> []" using format_fraction_length [of v] by (intro notI) (simp only: list.size)
  ultimately show ?thesis
    using format_fraction_length [of v]
    by (simp add: decimal_value_def unat_div_SCALE unat_mod_SCALE)
qed

lemma parse_format: "parse_amount_18dp (format_amount_18dp v) = Ok v"
  by (simp add: parse_amount_iff decimal_value_format)

lemma format_inj [simp]: "format_amount_18dp v = format_amount_18dp w \<longleftrightarrow> v = w"
  by (metis parse_format sum.inject(2))

text \<open>
  Rendering after parsing picks the one canonical spelling: any two accepted spellings of
  the same value render alike.
\<close>

lemma canonical_spelling:
  assumes "parse_amount_18dp s = Ok v" "parse_amount_18dp t = Ok w"
  shows "format_amount_18dp v = format_amount_18dp w \<longleftrightarrow> decimal_value s = decimal_value t"
  using assms by (simp add: parse_amount_iff)

lemma format_chars: "\<forall>c \<in> set (format_amount_18dp v). is_ascii_digit c \<or> c = CHR ''.''"
proof -
  have "list_all is_ascii_digit (pad_left0 18 (show_nat (unat (v mod SCALE))))" by simp
  then show ?thesis
    using show_nat_digits [of "unat (v div SCALE)"]
    by (auto simp: format_amount_18dp_def list_all_iff)
qed

lemma length_format: "length (format_amount_18dp v) \<le> 58"
proof -
  have "unat v < 2 ^ 128" by (rule u128_lt)
  then have "unat (v div SCALE) < 10 ^ 39"
    by (simp add: unat_div_SCALE less_mult_imp_div_less)
  then have "length (show_nat (unat (v div SCALE))) \<le> 39"
    by (intro length_show_nat) simp_all
  then show ?thesis using format_fraction_length [of v] by (simp add: format_amount_18dp_def)
qed

end
