(* ===== verification/Failure.thy ===== *)
theory Failure
  imports Amount
begin

text \<open>
  The enumerations that failures mention, and \<open>VerificationFailure\<close> of
  \<open>solvency-report/src/verify.rs\<close>. The formatted texts inside a failure are modelled by the
  datatype \<open>detail\<close>: one constructor per format string, with the values it interpolates
  as arguments.
\<close>

subsection \<open>Enumerations\<close>

text \<open>\<open>manifest.rs\<close>\<close>

datatype disclosure = Published | Committed | Withheld

definition disclosure_as_str :: "disclosure \<Rightarrow> string" where
  "disclosure_as_str d = (case d of
     Published \<Rightarrow> ''published''
   | Committed \<Rightarrow> ''committed''
   | Withheld \<Rightarrow> ''withheld'')"

lemma disclosure_as_str_inj [simp]: "disclosure_as_str d = disclosure_as_str e \<longleftrightarrow> d = e"
  by (cases d; cases e) (simp_all add: disclosure_as_str_def)

text \<open>\<open>profile.rs\<close>\<close>

datatype leaf_kind =
    Customer | Entity | RepoLeg | Shareholder | SettledTrade | AttestedHolder | CustodyPosition

definition uses_leaf_v2 :: "leaf_kind \<Rightarrow> bool" where
  "uses_leaf_v2 k \<longleftrightarrow> k \<in> {RepoLeg, Shareholder, SettledTrade, AttestedHolder, CustodyPosition}"

text \<open>\<open>assurance.rs\<close>. The derived order of the enumeration is its declaration order.\<close>

datatype assurance_level =
    NotDisclosed | ClaimedOnly | IssuerAttested | ThirdPartyAttested | LedgerDerived
  | CryptographicallyVerified

definition strength :: "assurance_level \<Rightarrow> nat" where
  "strength l = (case l of
     NotDisclosed \<Rightarrow> 0
   | ClaimedOnly \<Rightarrow> 1
   | IssuerAttested \<Rightarrow> 2
   | ThirdPartyAttested \<Rightarrow> 3
   | LedgerDerived \<Rightarrow> 4
   | CryptographicallyVerified \<Rightarrow> 5)"

definition level_as_str :: "assurance_level \<Rightarrow> string" where
  "level_as_str l = (case l of
     NotDisclosed \<Rightarrow> ''not-disclosed''
   | ClaimedOnly \<Rightarrow> ''claimed-only''
   | IssuerAttested \<Rightarrow> ''issuer-attested''
   | ThirdPartyAttested \<Rightarrow> ''third-party-attested''
   | LedgerDerived \<Rightarrow> ''ledger-derived''
   | CryptographicallyVerified \<Rightarrow> ''cryptographically-verified'')"

lemma strength_inj: "strength k = strength l \<Longrightarrow> k = l"
  by (cases k; cases l) (simp_all add: strength_def)

text \<open>The order \<open>BTreeSet<AssuranceLevel>\<close> iterates in.\<close>

instantiation assurance_level :: linorder
begin
definition less_eq_assurance_level :: "assurance_level \<Rightarrow> assurance_level \<Rightarrow> bool" where
  "less_eq_assurance_level k l \<longleftrightarrow> strength k \<le> strength l"
definition less_assurance_level :: "assurance_level \<Rightarrow> assurance_level \<Rightarrow> bool" where
  "less_assurance_level k l \<longleftrightarrow> strength k < strength l"
instance
  by standard (auto simp: less_eq_assurance_level_def less_assurance_level_def intro: strength_inj)
end

text \<open>\<open>sign.rs\<close>\<close>

datatype signature_error = MalformedPublicKey | MalformedSignature | BadSignatureUnderKey

subsection \<open>The texts of failures\<close>

text \<open>\<open>profile::validate\<close>: what a profile finds missing or wrong.\<close>

datatype violation =
    UncheckableAggregate string
  | MissingAggregate string
  | NotCovering string u128 string u128 string
  | NotUnanimous string u128 u64 string u128

datatype detail =
    NotHex32 string
  | MerkleText merkle_error
  | SignatureText signature_error
  | SumOverflowOn string
  | UnsubstantiableField string
  | NotTimestamps string string
  | NotInRegistry string
  | ProfileViolated string violation
  | WrongLeafKind string leaf_kind leaf_kind
  | NotAV2Leaf string leaf_kind
  | LeafLacksMap string string string
  | ExpectedProfile string string
  | V1CarriesManifest
  | V2WithoutManifest
  | NotAFieldOfTheFormat
  | PublishedWithoutData
  | PublishesAnyway disclosure
  | DuplicateSourceId string
  | OffLedgerWithoutBasis string
  | DerivedTwice
  | NamesNoSources
  | UndeclaredSource string
  | NoDerivation
  | OnlyOffLedger
  | Apart string string nat u64

text \<open>\<open>verify.rs\<close>\<close>

datatype verification_failure =
    UnsupportedVersion string string
  | DigestMismatch
  | UnknownSigner
  | BadSignature
  | RootHashMismatch
  | RootSumsMismatch string
  | EntityRootMismatch
  | EntitySumsMismatch string
  | Profile detail
  | ManifestPresence detail
  | ManifestInconsistent string detail
  | OverClaimed string assurance_level "assurance_level list"
  | ProvenanceInconsistent string detail
  | TemporalMismatch detail
  | Malformed detail

end
