(* ===== verification/Crates.thy ===== *)
theory Crates
  imports Ordered_Map
begin

text \<open>
  The third-party crates the program calls. Their code is not part of the repository, so
  each function used is a field of the record \<open>crates\<close>, an argument of every
  definition that calls it: \<open>sha2\<close> (a hash is fed piecewise, which is documented to
  hash the concatenation of the pieces), \<open>hmac\<close>, \<open>hex\<close> and \<open>ed25519_dalek\<close>.
  What the program relies on is stated by the predicates \<open>hex_spec\<close> and
  \<open>ed25519_spec\<close>. Collision resistance is never assumed: no function into 32 bytes is
  injective. Theorems that need it conclude with an explicit pair of preimages instead.
\<close>

record crates =
  sha256 :: "bytes \<Rightarrow> b32"
  hmac_sha256 :: "bytes \<Rightarrow> bytes \<Rightarrow> b32"
  hex_encode :: "bytes \<Rightarrow> string"
  hex_decode :: "string \<Rightarrow> bytes option"
  ed_verifying_key :: "b32 \<Rightarrow> b32"
  ed_sign :: "b32 \<Rightarrow> bytes \<Rightarrow> b64"
  ed_key_valid :: "b32 \<Rightarrow> bool"
  ed_verify :: "b32 \<Rightarrow> bytes \<Rightarrow> b64 \<Rightarrow> bool"

text \<open>Decoding returns what was encoded.\<close>

definition hex_spec :: "crates \<Rightarrow> bool" where
  "hex_spec C \<longleftrightarrow> (\<forall>bs. hex_decode C (hex_encode C bs) = Some bs)"

text \<open>Encoding writes lower-case digits.\<close>

definition hex_lower :: "crates \<Rightarrow> bool" where
  "hex_lower C \<longleftrightarrow> (\<forall>bs. set (hex_encode C bs) \<subseteq> set ''0123456789abcdef'')"

text \<open>The public key of a signing key is a valid point and verifies what the key signed.\<close>

definition ed25519_spec :: "crates \<Rightarrow> bool" where
  "ed25519_spec C \<longleftrightarrow>
     (\<forall>seed. ed_key_valid C (ed_verifying_key C seed)) \<and>
     (\<forall>seed msg. ed_verify C (ed_verifying_key C seed) msg (ed_sign C seed msg))"

text \<open>Two different preimages with one hash.\<close>

definition collides :: "crates \<Rightarrow> bytes \<Rightarrow> bytes \<Rightarrow> bool" where
  "collides C x y \<longleftrightarrow> x \<noteq> y \<and> sha256 C x = sha256 C y"

lemma hex_inj: "hex_spec C \<Longrightarrow> hex_encode C a = hex_encode C b \<longleftrightarrow> a = b"
  by (metis hex_spec_def option.inject)

lemma sha256_eqD: "sha256 C x = sha256 C y \<Longrightarrow> x = y \<or> collides C x y"
  by (auto simp: collides_def)

end
