(* ===== verification/Document.thy ===== *)
theory Document
  imports Failure Crates
begin

text \<open>
  The wire documents of \<open>solvency-report/src/document.rs\<close> and \<open>manifest.rs\<close>, after JSON
  decoding. What serde adds beyond JSON is the codec of amount maps: \<open>serialize_amount_map\<close>
  renders every amount canonically, \<open>deserialize_amount_map\<close> parses every spelling. Field
  names carry a prefix where two documents share one.
\<close>

subsection \<open>Versions\<close>

definition REPORT_FORMAT_VERSION :: string where
  "REPORT_FORMAT_VERSION = ''canton-solvency-report-v1''"
definition REPORT_FORMAT_VERSION_V2 :: string where
  "REPORT_FORMAT_VERSION_V2 = ''canton-solvency-report-v2''"
definition PROOF_FORMAT_VERSION :: string where
  "PROOF_FORMAT_VERSION = ''canton-solvency-proof-v1''"
definition PROOF_FORMAT_VERSION_V2 :: string where
  "PROOF_FORMAT_VERSION_V2 = ''canton-solvency-proof-v2''"
definition SIGNATURE_ALGORITHM :: string where
  "SIGNATURE_ALGORITHM = ''ed25519''"

lemma report_versions_differ [simp]:
  "REPORT_FORMAT_VERSION \<noteq> REPORT_FORMAT_VERSION_V2" "REPORT_FORMAT_VERSION_V2 \<noteq> REPORT_FORMAT_VERSION"
  by (simp_all add: REPORT_FORMAT_VERSION_def REPORT_FORMAT_VERSION_V2_def)

subsection \<open>The codec of amount maps\<close>

definition serialize_amount_map :: "u128 bmap \<Rightarrow> string bmap" where
  "serialize_amount_map m = bmap_values format_amount_18dp m"

definition deserialize_amount_map :: "string bmap \<Rightarrow> (string \<times> merkle_error) + u128 bmap" where
  "deserialize_amount_map raw =
     and_then
       (collect_ok (\<lambda>(asset, v).
          map_err (\<lambda>e. (asset, e)) (and_then (parse_amount_18dp v) (\<lambda>parsed. Ok (asset, parsed))))
         (entries raw))
       (\<lambda>kvs. Ok (bof_list kvs))"

definition serialize_amount_map_of_maps :: "u128 bmap bmap \<Rightarrow> string bmap bmap" where
  "serialize_amount_map_of_maps m = bmap_values serialize_amount_map m"

definition deserialize_amount_map_of_maps :: "string bmap bmap \<Rightarrow> (string \<times> merkle_error) + u128 bmap bmap" where
  "deserialize_amount_map_of_maps raw =
     and_then (collect_ok (\<lambda>(k, inner). and_then (deserialize_amount_map inner) (\<lambda>v. Ok (k, v))) (entries raw))
       (\<lambda>kvs. Ok (bof_list kvs))"

subsection \<open>Reports\<close>

record Manifest =
  audience :: string
  manifest_fields :: "disclosure bmap"

record Disclosures =
  bad_debt :: "u128 bmap"
  excluded_house_accounts :: u64
  excluded_house_totals :: "u128 bmap"

record Report =
  format_version :: string
  profile :: string
  publisher :: string
  snapshot_time :: string
  ledger_offset :: string
  root_hash :: string
  leaf_count :: u64
  root_sums :: "u128 bmap"
  mark_prices :: "u128 bmap"
  disclosures :: Disclosures
  manifest :: "Manifest option"

record SignatureBlock =
  algorithm :: string
  public_key :: string
  sig_value :: string

record SignedReport =
  report :: Report
  signature :: SignatureBlock

subsection \<open>Proofs\<close>

record LeafPreimage =
  salt :: string
  user_id :: string
  balances :: "u128 bmap"

record ProofStepDocument =
  sibling_hash :: string
  sibling_sums :: "u128 bmap"
  step_on_left :: bool

record LeafPreimageV2 =
  v2_salt :: string
  subject_id :: string
  maps :: "u128 bmap bmap"

record ProofDocumentV2 =
  v2_format_version :: string
  v2_report_digest :: string
  v2_leaf :: LeafPreimageV2
  v2_steps :: "ProofStepDocument list"

record ProofDocument =
  proof_format_version :: string
  proof_report_digest :: string
  proof_leaf :: LeafPreimage
  proof_steps :: "ProofStepDocument list"

subsection \<open>The codec loses nothing\<close>

lemma deserialize_serialize: "deserialize_amount_map (serialize_amount_map m) = Ok m"
proof -
  have "collect_ok (\<lambda>(asset, v).
          map_err (\<lambda>e. (asset, e)) (and_then (parse_amount_18dp v) (\<lambda>parsed. Ok (asset, parsed))))
         (map (\<lambda>(k, v). (k, format_amount_18dp v)) xs) = Ok xs" for xs
    by (induction xs) (auto simp: parse_format)
  from this [of "entries m"] show ?thesis
    by (simp add: deserialize_amount_map_def serialize_amount_map_def entries_bmap_values)
qed

lemma deserialize_serialize_maps:
  "deserialize_amount_map_of_maps (serialize_amount_map_of_maps m) = Ok m"
proof -
  have "collect_ok (\<lambda>(k, inner). and_then (deserialize_amount_map inner) (\<lambda>v. Ok (k, v)))
         (map (\<lambda>(k, v). (k, serialize_amount_map v)) xs) = Ok xs" for xs
    by (induction xs) (auto simp: deserialize_serialize)
  from this [of "entries m"] show ?thesis
    by (simp add: deserialize_amount_map_of_maps_def serialize_amount_map_of_maps_def entries_bmap_values)
qed


end
