(* ===== verification/Encoding.thy ===== *)
theory Encoding
  imports Crates Amount
begin

text \<open>
  Length-prefixed encodings, the way every digest of the program lays out its preimage:
  \<open>lp\<close> and \<open>lpmap\<close> of \<open>solvency-merkle/src/lib.rs\<close>. The interface
  \<open>prefix_code\<close> is what makes a preimage unambiguous: an encoded value can be cut off
  the front of any longer preimage in one way only.
\<close>

subsection \<open>The interface\<close>

text \<open>A list preceded by its number of elements.\<close>

fun le_bytes :: "nat \<Rightarrow> nat \<Rightarrow> bytes" where
  "le_bytes 0 n = []"
| "le_bytes (Suc k) n = char_of (n mod 256) # le_bytes k (n div 256)"

definition u64_le :: "u64 \<Rightarrow> bytes" where
  "u64_le w = le_bytes 8 (unat w)"

definition counted :: "('a \<Rightarrow> bytes) \<Rightarrow> 'a list \<Rightarrow> bytes" where
  "counted enc xs = u64_le (of_nat (length xs)) @ concat (map enc xs)"

lemma length_le_bytes [simp, encode_simps]: "length (le_bytes k n) = k"
  by (induction k arbitrary: n) auto

lemma le_bytes_inj: "m < 256 ^ k \<Longrightarrow> n < 256 ^ k \<Longrightarrow> le_bytes k m = le_bytes k n \<Longrightarrow> m = n"
proof (induction k arbitrary: m n)
  case 0
  then show ?case by simp
next
  case (Suc k)
  from Suc.prems(3) have "code (char_of (m mod 256)) = code (char_of (n mod 256))"
    by simp
  then have "m mod 256 = n mod 256" by (simp add: of_char_of)
  moreover have "m div 256 = n div 256"
    using Suc by (intro Suc.IH) (auto simp: less_mult_imp_div_less mult.commute)
  ultimately show ?case by (metis div_mult_mod_eq)
qed

lemma length_u64_le [simp, encode_simps]: "length (u64_le w) = 8"
  by (simp add: u64_le_def)

lemma u64_le_inj [simp]: "u64_le v = u64_le w \<longleftrightarrow> v = w"
proof
  assume "u64_le v = u64_le w"
  moreover have "unat v < 256 ^ 8" "unat w < 256 ^ 8"
    using unat_lt [of v] unat_lt [of w] by simp_all
  ultimately have "unat v = unat w"
    unfolding u64_le_def by (intro le_bytes_inj)
  then show "v = w" by simp
qed simp

lemma u64_le_append [simp]: "u64_le v @ r = u64_le w @ s \<longleftrightarrow> v = w \<and> r = s"
  by (simp add: append_eq_append_conv)

lemma arr32_append [simp]: "arr32 a @ r = arr32 b @ s \<longleftrightarrow> a = b \<and> r = s"
  by (simp add: append_eq_append_conv arr32_inject)

lemma of_nat_u64_inj: "m < 2 ^ 64 \<Longrightarrow> n < 2 ^ 64 \<Longrightarrow> (of_nat m :: u64) = of_nat n \<longleftrightarrow> m = n"
  by (metis unat_of_nat_u64)

locale prefix_code =
  fixes enc :: "'a \<Rightarrow> bytes" and ok :: "'a \<Rightarrow> bool"
  assumes cut: "ok x \<Longrightarrow> ok y \<Longrightarrow> enc x @ r = enc y @ s \<Longrightarrow> x = y \<and> r = s"
begin

lemma cut_iff: "ok x \<Longrightarrow> ok y \<Longrightarrow> enc x @ r = enc y @ s \<longleftrightarrow> x = y \<and> r = s"
  using cut by blast

lemma injective: "ok x \<Longrightarrow> ok y \<Longrightarrow> enc x = enc y \<longleftrightarrow> x = y"
  using cut [of x y "[]" "[]"] by auto

lemma concat_cut:
  "length xs = length ys \<Longrightarrow> list_all ok xs \<Longrightarrow> list_all ok ys \<Longrightarrow>
     concat (map enc xs) @ r = concat (map enc ys) @ s \<Longrightarrow> xs = ys \<and> r = s"
  by (induction xs ys rule: list_induct2) (auto dest: cut)

lemma counted_cut:
  assumes "length xs < 2 ^ 64" "list_all ok xs" "length ys < 2 ^ 64" "list_all ok ys"
    and "counted enc xs @ r = counted enc ys @ s"
  shows "xs = ys \<and> r = s"
proof -
  have "length xs = length ys" "concat (map enc xs) @ r = concat (map enc ys) @ s"
    using assms by (simp_all add: counted_def of_nat_u64_inj)
  then show ?thesis using assms by (intro concat_cut) auto
qed

end

subsection \<open>Strings and amount maps\<close>

definition lp :: "string \<Rightarrow> bytes" where
  "lp s = u64_le (of_nat (length s)) @ s"

definition lpmap :: "u128 bmap \<Rightarrow> bytes" where
  "lpmap m = u64_le (of_nat (blen m)) @
     concat (map (\<lambda>(asset, amount). lp asset @ lp (format_amount_18dp amount)) (entries m))"

text \<open>Lengths a machine can hold: a Rust allocation never exceeds \<open>isize::MAX\<close> bytes.\<close>

definition fits :: "string \<Rightarrow> bool" where
  "fits s \<longleftrightarrow> length s < 2 ^ 63"

definition fits_map :: "u128 bmap \<Rightarrow> bool" where
  "fits_map m \<longleftrightarrow> blen m < 2 ^ 63 \<and> list_all fits (bkeys m)"

lemma lp_cut:
  assumes "fits s" "fits t" "lp s @ r = lp t @ r'"
  shows "s = t \<and> r = r'"
proof -
  have "length s = length t"
    using assms by (simp add: lp_def fits_def of_nat_u64_inj)
  then show ?thesis using assms by (simp add: lp_def append_eq_append_conv)
qed

interpretation lp_code: prefix_code lp fits
  by unfold_locales (rule lp_cut)

lemma fits_format [simp]: "fits (format_amount_18dp v)"
  using length_format [of v] by (simp add: fits_def)

interpretation entry_code: prefix_code
  "\<lambda>(asset, amount). lp asset @ lp (format_amount_18dp amount)" "\<lambda>(asset, amount). fits asset"
  by unfold_locales (clarsimp simp: lp_code.cut_iff)

lemma lpmap_counted:
  "lpmap m = counted (\<lambda>(asset, amount). lp asset @ lp (format_amount_18dp amount)) (entries m)"
  by (simp add: lpmap_def counted_def blen_def)

lemma fits_map_entries:
  "fits_map m \<Longrightarrow> length (entries m) < 2 ^ 64 \<and> list_all (\<lambda>(asset, amount). fits asset) (entries m)"
  by (auto simp: fits_map_def blen_def bkeys_def list_all_iff)

lemma lpmap_cut:
  assumes "fits_map m" "fits_map n" "lpmap m @ r = lpmap n @ s"
  shows "m = n \<and> r = s"
  unfolding bmap_eq_iff
  using assms(3) fits_map_entries [OF assms(1)] fits_map_entries [OF assms(2)]
  unfolding lpmap_counted by (intro entry_code.counted_cut) blast+

interpretation lpmap_code: prefix_code lpmap fits_map
  by unfold_locales (rule lpmap_cut)

end
