(* ===== verification/Digest.thy ===== *)
theory Digest
  imports Document Encoding
begin

text \<open>
  The report digest of \<open>solvency-report/src/digest.rs\<close>. A digest is a hash of a preimage, and
  the locale \<open>digest_of\<close> is what the documents of the program share: a preimage that
  determines everything the digest covers. Two documents with one digest then agree on what is
  covered, or their two preimages are a collision of SHA-256.
\<close>

subsection \<open>The interface\<close>

locale digest_of =
  fixes pre :: "'d \<Rightarrow> bytes" and ok :: "'d \<Rightarrow> bool" and covered :: "'d \<Rightarrow> 'd"
  assumes pre_covers: "ok x \<Longrightarrow> ok y \<Longrightarrow> pre x = pre y \<Longrightarrow> covered x = covered y"
begin

lemma digest_binds:
  "ok x \<Longrightarrow> ok y \<Longrightarrow> sha256 C (pre x) = sha256 C (pre y) \<Longrightarrow>
     covered x = covered y \<or> collides C (pre x) (pre y)"
  using pre_covers sha256_eqD by blast

lemma digest_hex_binds:
  "hex_spec C \<Longrightarrow> ok x \<Longrightarrow> ok y \<Longrightarrow>
     hex_encode C (arr32 (sha256 C (pre x))) = hex_encode C (arr32 (sha256 C (pre y))) \<Longrightarrow>
     covered x = covered y \<or> collides C (pre x) (pre y)"
  using digest_binds by (simp add: hex_inj arr32_inject)

end

subsection \<open>The report digest\<close>

definition REPORT_DIGEST_DOMAIN :: bytes where
  "REPORT_DIGEST_DOMAIN = ''rocky-solvency-report-v1''"
definition REPORT_DIGEST_DOMAIN_V2 :: bytes where
  "REPORT_DIGEST_DOMAIN_V2 = ''rocky-solvency-report-v2''"

definition is_v2_report :: "Report \<Rightarrow> bool" where
  "is_v2_report r \<longleftrightarrow> format_version r = REPORT_FORMAT_VERSION_V2"

definition manifest_entry :: "string \<times> disclosure \<Rightarrow> bytes" where
  "manifest_entry = (\<lambda>(path, state). lp path @ lp (disclosure_as_str state))"

definition manifest_preimage :: "Manifest \<Rightarrow> bytes" where
  "manifest_preimage m =
     lp (audience m) @ u64_le (of_nat (blen (manifest_fields m))) @
     concat (map manifest_entry (entries (manifest_fields m)))"

definition report_preimage :: "Report \<Rightarrow> bytes" where
  "report_preimage r =
     (if is_v2_report r then REPORT_DIGEST_DOMAIN_V2 else REPORT_DIGEST_DOMAIN) @
     lp (format_version r) @
     lp (profile r) @
     lp (publisher r) @
     lp (snapshot_time r) @
     lp (ledger_offset r) @
     lp (root_hash r) @
     u64_le (leaf_count r) @
     lpmap (root_sums r) @
     lpmap (mark_prices r) @
     lpmap (bad_debt (disclosures r)) @
     u64_le (excluded_house_accounts (disclosures r)) @
     lpmap (excluded_house_totals (disclosures r)) @
     (if is_v2_report r then
        (case manifest r of None \<Rightarrow> [] | Some m \<Rightarrow> manifest_preimage m)
      else [])"

definition report_digest :: "crates \<Rightarrow> Report \<Rightarrow> b32" where
  "report_digest C r = sha256 C (report_preimage r)"

definition report_digest_hex :: "crates \<Rightarrow> Report \<Rightarrow> string" where
  "report_digest_hex C r = hex_encode C (arr32 (report_digest C r))"

subsection \<open>What the report digest covers\<close>

text \<open>Everything, but the manifest of a report that is not v2.\<close>

definition covered_report :: "Report \<Rightarrow> Report" where
  "covered_report r = (if is_v2_report r then r else r\<lparr>manifest := None\<rparr>)"

definition fits_manifest :: "Manifest \<Rightarrow> bool" where
  "fits_manifest m \<longleftrightarrow>
     fits (audience m) \<and> blen (manifest_fields m) < 2 ^ 63 \<and> list_all fits (bkeys (manifest_fields m))"

definition fits_report :: "Report \<Rightarrow> bool" where
  "fits_report r \<longleftrightarrow>
     fits (format_version r) \<and> fits (profile r) \<and> fits (publisher r) \<and> fits (snapshot_time r) \<and>
     fits (ledger_offset r) \<and> fits (root_hash r) \<and> fits_map (root_sums r) \<and> fits_map (mark_prices r) \<and>
     fits_map (bad_debt (disclosures r)) \<and> fits_map (excluded_house_totals (disclosures r)) \<and>
     (case manifest r of None \<Rightarrow> True | Some m \<Rightarrow> fits_manifest m)"

lemma fits_disclosure [simp]: "fits (disclosure_as_str d)"
  by (cases d) (simp_all add: disclosure_as_str_def fits_def)

interpretation manifest_entry_code: prefix_code manifest_entry "\<lambda>(path, state). fits path"
  by unfold_locales (clarsimp simp: manifest_entry_def lp_code.cut_iff)

lemma manifest_preimage_inj:
  assumes "fits_manifest m" "fits_manifest n" "manifest_preimage m = manifest_preimage n"
  shows "m = n"
proof -
  have fit: "length (entries (manifest_fields k)) < 2 ^ 64 \<and>
      list_all (\<lambda>(path, state). fits path) (entries (manifest_fields k))"
    if "fits_manifest k" for k
    using that by (auto simp: fits_manifest_def blen_def bkeys_def list_all_iff)
  have "audience m = audience n"
    and tails: "counted manifest_entry (entries (manifest_fields m)) @ [] =
      counted manifest_entry (entries (manifest_fields n)) @ []"
    using assms by (simp_all add: manifest_preimage_def counted_def blen_def lp_code.cut_iff fits_manifest_def)
  moreover have "entries (manifest_fields m) = entries (manifest_fields n)"
    using fit [OF assms(1)] fit [OF assms(2)] manifest_entry_code.counted_cut [OF _ _ _ _ tails] by blast
  ultimately show ?thesis by (simp add: bmap_eq_iff)
qed

lemma manifest_preimage_nonempty: "manifest_preimage m \<noteq> []"
  by (simp add: manifest_preimage_def flip: length_0_conv)

lemma manifest_tail_inj:
  assumes "case m of None \<Rightarrow> True | Some k \<Rightarrow> fits_manifest k"
    and "case n of None \<Rightarrow> True | Some k \<Rightarrow> fits_manifest k"
    and "(case m of None \<Rightarrow> [] | Some k \<Rightarrow> manifest_preimage k) =
      (case n of None \<Rightarrow> [] | Some k \<Rightarrow> manifest_preimage k)"
  shows "m = n"
proof (cases m; cases n)
  fix a b assume "m = Some a" "n = Some b"
  with assms show "m = n" by (simp add: manifest_preimage_inj)
next
  fix a assume "m = None" "n = Some a"
  with assms(3) manifest_preimage_nonempty [of a] show "m = n" by simp
qed (use assms manifest_preimage_nonempty in simp_all)

lemma domain_apart: "REPORT_DIGEST_DOMAIN @ r \<noteq> REPORT_DIGEST_DOMAIN_V2 @ s"
  by (simp add: REPORT_DIGEST_DOMAIN_def REPORT_DIGEST_DOMAIN_V2_def)

lemma report_preimage_covers:
  assumes "fits_report x" "fits_report y" "report_preimage x = report_preimage y"
  shows "covered_report x = covered_report y"
proof -
  have v2: "is_v2_report x \<longleftrightarrow> is_v2_report y"
    using assms(3) domain_apart domain_apart [symmetric] by (auto simp: report_preimage_def split: if_splits)
  have body: "lp (format_version x) @ lp (profile x) @ lp (publisher x) @ lp (snapshot_time x) @
       lp (ledger_offset x) @ lp (root_hash x) @ u64_le (leaf_count x) @ lpmap (root_sums x) @
       lpmap (mark_prices x) @ lpmap (bad_debt (disclosures x)) @
       u64_le (excluded_house_accounts (disclosures x)) @ lpmap (excluded_house_totals (disclosures x)) @
       (if is_v2_report x then case manifest x of None \<Rightarrow> [] | Some m \<Rightarrow> manifest_preimage m else []) =
     lp (format_version y) @ lp (profile y) @ lp (publisher y) @ lp (snapshot_time y) @
       lp (ledger_offset y) @ lp (root_hash y) @ u64_le (leaf_count y) @ lpmap (root_sums y) @
       lpmap (mark_prices y) @ lpmap (bad_debt (disclosures y)) @
       u64_le (excluded_house_accounts (disclosures y)) @ lpmap (excluded_house_totals (disclosures y)) @
       (if is_v2_report y then case manifest y of None \<Rightarrow> [] | Some m \<Rightarrow> manifest_preimage m else [])"
    using assms(3) v2 by (simp add: report_preimage_def)
  have same: "format_version x = format_version y" "profile x = profile y" "publisher x = publisher y"
    "snapshot_time x = snapshot_time y" "ledger_offset x = ledger_offset y" "root_hash x = root_hash y"
    "leaf_count x = leaf_count y" "root_sums x = root_sums y" "mark_prices x = mark_prices y"
    "bad_debt (disclosures x) = bad_debt (disclosures y)"
    "excluded_house_accounts (disclosures x) = excluded_house_accounts (disclosures y)"
    "excluded_house_totals (disclosures x) = excluded_house_totals (disclosures y)"
    and rest: "(if is_v2_report x then case manifest x of None \<Rightarrow> [] | Some m \<Rightarrow> manifest_preimage m else []) =
      (if is_v2_report y then case manifest y of None \<Rightarrow> [] | Some m \<Rightarrow> manifest_preimage m else [])"
    using body assms(1,2) by (simp_all add: fits_report_def lp_code.cut_iff lpmap_code.cut_iff)
  have "is_v2_report x \<Longrightarrow> manifest x = manifest y"
    using rest v2 assms(1,2) by (intro manifest_tail_inj) (simp_all add: fits_report_def)
  then show ?thesis using same v2 by (simp add: covered_report_def)
qed

interpretation report_code: digest_of report_preimage fits_report covered_report
  by unfold_locales (rule report_preimage_covers)

end
