(* ===== verification/Manifest_Diff.thy ===== *)
theory Manifest_Diff
  imports Digest
begin

text \<open>
  The disclosure manifest (\<open>solvency-report/src/manifest.rs\<close>): which fields a manifest may
  speak about, whether a report carries data for one, and the comparison of two manifests. A
  comparison is shown to be a patch: applied to the previous manifest it gives the current one.
\<close>

subsection \<open>Fields\<close>

definition KNOWN_FIELDS :: "string list" where
  "KNOWN_FIELDS =
     [''root_sums'',
      ''mark_prices'',
      ''disclosures.bad_debt'',
      ''disclosures.excluded_house_accounts'',
      ''disclosures.excluded_house_totals'',
      ''customer_balances'',
      ''customer_identities'']"

definition REPORT_RESIDENT_FIELDS :: "string list" where
  "REPORT_RESIDENT_FIELDS =
     [''root_sums'',
      ''mark_prices'',
      ''disclosures.bad_debt'',
      ''disclosures.excluded_house_accounts'',
      ''disclosures.excluded_house_totals'']"

definition carries_data :: "Report \<Rightarrow> string \<Rightarrow> bool" where
  "carries_data r path =
     (if path = ''root_sums'' then \<not> bis_empty (root_sums r)
      else if path = ''mark_prices'' then \<not> bis_empty (mark_prices r)
      else if path = ''disclosures.bad_debt'' then \<not> bis_empty (bad_debt (disclosures r))
      else if path = ''disclosures.excluded_house_accounts'' then 0 < excluded_house_accounts (disclosures r)
      else if path = ''disclosures.excluded_house_totals''
        then \<not> bis_empty (excluded_house_totals (disclosures r))
      else False)"

lemma carries_data_resident: "carries_data r path \<Longrightarrow> path \<in> set REPORT_RESIDENT_FIELDS"
  by (auto simp: carries_data_def REPORT_RESIDENT_FIELDS_def split: if_splits)

subsection \<open>Comparing manifests\<close>

datatype ManifestChange =
    Added string disclosure
  | Removed string disclosure
  | Changed string disclosure disclosure

definition change_path :: "ManifestChange \<Rightarrow> string" where
  "change_path ch = (case ch of
     Added path _ \<Rightarrow> path
   | Removed path _ \<Rightarrow> path
   | Changed path _ _ \<Rightarrow> path)"

definition is_reduction :: "ManifestChange \<Rightarrow> bool" where
  "is_reduction ch = (case ch of
     Added _ _ \<Rightarrow> False
   | Removed _ was \<Rightarrow> was = Published
   | Changed _ from to \<Rightarrow> from = Published \<and> to \<noteq> Published)"

text \<open>The arm \<open>(None, None)\<close> is \<open>unreachable!\<close> in the code; lemma \<open>change_at_reached\<close>.\<close>

definition change_at :: "Manifest \<Rightarrow> Manifest \<Rightarrow> string \<Rightarrow> ManifestChange option" where
  "change_at previous current path =
     (case (bget (manifest_fields previous) path, bget (manifest_fields current) path) of
        (Some from, Some to) \<Rightarrow> if from \<noteq> to then Some (Changed path from to) else None
      | (None, Some state) \<Rightarrow> Some (Added path state)
      | (Some was, None) \<Rightarrow> Some (Removed path was)
      | (None, None) \<Rightarrow> None)"

definition manifest_paths :: "Manifest \<Rightarrow> Manifest \<Rightarrow> string list" where
  "manifest_paths previous current =
     sort_dedup (bkeys (manifest_fields previous) @ bkeys (manifest_fields current))"

definition diff :: "Manifest \<Rightarrow> Manifest \<Rightarrow> ManifestChange list" where
  "diff previous current = List.map_filter (change_at previous current) (manifest_paths previous current)"

subsection \<open>What a comparison says\<close>

lemma manifest_paths_sorted: "sorted_wrt (<) (manifest_paths p c)"
  by (simp add: manifest_paths_def sort_dedup_sorted)

lemma set_manifest_paths:
  "set (manifest_paths p c) = set (bkeys (manifest_fields p)) \<union> set (bkeys (manifest_fields c))"
  by (simp add: manifest_paths_def)

lemma change_at_reached:
  "path \<in> set (manifest_paths p c) \<Longrightarrow>
     bget (manifest_fields p) path \<noteq> None \<or> bget (manifest_fields c) path \<noteq> None"
  by (auto simp: set_manifest_paths bkeys_bget)

lemma change_path_at: "change_at p c path = Some ch \<Longrightarrow> change_path ch = path"
  by (auto simp: change_at_def change_path_def split: option.splits if_splits)

lemma set_diff_iff: "ch \<in> set (diff p c) \<longleftrightarrow> change_at p c (change_path ch) = Some ch"
proof -
  have "ch \<in> set (diff p c) \<longleftrightarrow> (\<exists>path \<in> set (manifest_paths p c). change_at p c path = Some ch)"
    by (auto simp: diff_def map_filter_def) force
  also have "\<dots> \<longleftrightarrow> change_at p c (change_path ch) = Some ch"
  proof
    assume "change_at p c (change_path ch) = Some ch"
    moreover from this have "change_path ch \<in> set (manifest_paths p c)"
      by (auto simp: change_at_def set_manifest_paths bkeys_bget split: option.splits)
    ultimately show "\<exists>path \<in> set (manifest_paths p c). change_at p c path = Some ch" by blast
  qed (auto dest: change_path_at)
  finally show ?thesis .
qed

text \<open>One change a path, in path order.\<close>

lemma diff_paths_sorted: "sorted_wrt (<) (map change_path (diff p c))"
proof -
  have "map change_path (List.map_filter (change_at p c) xs) = filter (\<lambda>x. change_at p c x \<noteq> None) xs" for xs
    by (induction xs) (auto simp: map_filter_simps dest: change_path_at split: option.splits)
  then show ?thesis
    using manifest_paths_sorted by (simp add: diff_def sorted_wrt_filter)
qed

text \<open>A reduction is reported exactly where a published field stopped being published.\<close>

lemma diff_reduction_iff:
  "(\<exists>ch \<in> set (diff p c). change_path ch = path \<and> is_reduction ch) \<longleftrightarrow>
     bget (manifest_fields p) path = Some Published \<and> bget (manifest_fields c) path \<noteq> Some Published"
proof
  assume "\<exists>ch \<in> set (diff p c). change_path ch = path \<and> is_reduction ch"
  then obtain ch where ch: "change_at p c path = Some ch" "is_reduction ch"
    by (auto simp: set_diff_iff)
  then show "bget (manifest_fields p) path = Some Published \<and> bget (manifest_fields c) path \<noteq> Some Published"
    by (cases ch) (auto simp: change_at_def is_reduction_def split: option.splits if_splits)
next
  assume h: "bget (manifest_fields p) path = Some Published \<and> bget (manifest_fields c) path \<noteq> Some Published"
  then obtain ch where ch: "change_at p c path = Some ch" "is_reduction ch"
    by (cases "bget (manifest_fields c) path") (auto simp: change_at_def is_reduction_def)
  with change_path_at [OF ch(1)] show "\<exists>ch \<in> set (diff p c). change_path ch = path \<and> is_reduction ch"
    by (auto simp: set_diff_iff)
qed

text \<open>The specification of a comparison: what it says about each path, read as a patch.\<close>

definition patched :: "ManifestChange list \<Rightarrow> (string \<Rightarrow> disclosure option) \<Rightarrow> string \<Rightarrow> disclosure option" where
  "patched changes before path =
     (case find (\<lambda>ch. change_path ch = path) changes of
        None \<Rightarrow> before path
      | Some (Added _ s) \<Rightarrow> Some s
      | Some (Removed _ _) \<Rightarrow> None
      | Some (Changed _ _ to) \<Rightarrow> Some to)"

lemma find_diff: "find (\<lambda>ch. change_path ch = path) (diff p c) = change_at p c path"
proof -
  have "distinct (map change_path (diff p c))"
    using diff_paths_sorted strict_sorted_iff by blast
  then have "find (\<lambda>ch. change_path ch = path) (diff p c) = Some ch \<longleftrightarrow> change_at p c path = Some ch" for ch
    using change_path_at [of p c path ch] by (auto simp: find_key set_diff_iff)
  then show ?thesis by (metis not_None_eq)
qed

lemma diff_patches: "patched (diff p c) (bget (manifest_fields p)) = bget (manifest_fields c)"
  by (rule ext) (auto simp: patched_def find_diff change_at_def split: option.splits)

end
