(* ===== verification/Leaf.thy ===== *)
theory Leaf
  imports Encoding
begin

text \<open>
  Leaves of the tree (\<open>solvency-merkle/src/lib.rs\<close>): the canonical balance string, the
  derived salts, and the two leaf formats. A v1 leaf commits to one balance set through a
  delimiter join, a v2 leaf to several named amount maps through length prefixes.
\<close>

subsection \<open>Nodes\<close>

record node =
  hash :: b32
  sums :: "u128 bmap"

subsection \<open>Canonical balances\<close>

definition render_entry :: "string \<times> u128 \<Rightarrow> string" where
  "render_entry = (\<lambda>(asset, v). asset @ '':'' @ format_amount_18dp v)"

text \<open>The check over \<open>windows(2)\<close> of the sorted list.\<close>

fun adjacent_duplicate :: "(string \<times> 'v) list \<Rightarrow> string option" where
  "adjacent_duplicate (p # q # rest) =
     (if fst p = fst q then Some (fst p) else adjacent_duplicate (q # rest))"
| "adjacent_duplicate _ = None"

definition canonical_balances :: "(string \<times> u128) list \<Rightarrow> merkle_error + string" where
  "canonical_balances balances =
     (let sorted = sort_key fst balances
      in case adjacent_duplicate sorted of
           Some asset \<Rightarrow> Err (DuplicateAsset asset)
         | None \<Rightarrow> Ok (join ''|'' (map render_entry sorted)))"

definition sums_canonical :: "u128 bmap \<Rightarrow> string" where
  "sums_canonical m = join ''|'' (map render_entry (entries m))"

subsection \<open>Salts and v1 leaves\<close>

definition LEAF_DOMAIN :: bytes where "LEAF_DOMAIN = ''rocky-solvency-leaf-v1''"

definition LEAF_DOMAIN_V2 :: bytes where "LEAF_DOMAIN_V2 = ''rocky-solvency-leaf-v2''"

definition leaf_salt :: "crates \<Rightarrow> bytes \<Rightarrow> string \<Rightarrow> b32" where
  "leaf_salt C master_salt user_id = hmac_sha256 C master_salt user_id"

definition leaf_hash :: "crates \<Rightarrow> b32 \<Rightarrow> string \<Rightarrow> (string \<times> u128) list \<Rightarrow> merkle_error + b32" where
  "leaf_hash C salt user_id balances =
     and_then (canonical_balances balances) (\<lambda>canonical.
       Ok (sha256 C (LEAF_DOMAIN @ arr32 salt @ arr32 (sha256 C user_id) @ canonical)))"

text \<open>The loop that fills the leaf's sums and refuses a second amount for one asset.\<close>

fun insert_balances :: "(string \<times> u128) list \<Rightarrow> u128 bmap \<Rightarrow> merkle_error + u128 bmap" where
  "insert_balances [] m = Ok m"
| "insert_balances ((asset, v) # rest) m =
     (if bcontains m asset then Err (DuplicateAsset asset)
      else insert_balances rest (binsert asset v m))"

definition leaf_node :: "crates \<Rightarrow> b32 \<Rightarrow> string \<Rightarrow> (string \<times> u128) list \<Rightarrow> merkle_error + node" where
  "leaf_node C salt user_id balances =
     and_then (leaf_hash C salt user_id balances) (\<lambda>h.
     and_then (insert_balances balances bempty) (\<lambda>m.
       Ok \<lparr>hash = h, sums = m\<rparr>))"

subsection \<open>v2 leaves\<close>

definition is_safe_name :: "string \<Rightarrow> bool" where
  "is_safe_name name \<longleftrightarrow>
     name \<noteq> [] \<and>
     list_all (\<lambda>c. is_ascii_alphanumeric c \<or> c = CHR ''.'' \<or> c = CHR ''_'' \<or> c = CHR ''-'') name"

definition qualified_key :: "string \<Rightarrow> string \<Rightarrow> string" where
  "qualified_key map_name asset = map_name @ ''/'' @ asset"

definition check_names :: "u128 bmap bmap \<Rightarrow> merkle_error + unit" where
  "check_names maps =
     for_each (\<lambda>(map_name, amounts).
       and_then (ensure (is_safe_name map_name) (UnsafeMapName map_name)) (\<lambda>_.
         for_each (\<lambda>asset. ensure (is_safe_name asset) (UnsafeAssetName asset)) (bkeys amounts)))
       (entries maps)"

definition leaf_preimage_v2 :: "crates \<Rightarrow> b32 \<Rightarrow> string \<Rightarrow> u128 bmap bmap \<Rightarrow> bytes" where
  "leaf_preimage_v2 C salt subject_id maps =
     LEAF_DOMAIN_V2 @ arr32 salt @ arr32 (sha256 C subject_id) @
     u64_le (of_nat (blen maps)) @
     concat (map (\<lambda>(map_name, amounts). lp map_name @ lpmap amounts) (entries maps))"

definition leaf_hash_v2 :: "crates \<Rightarrow> b32 \<Rightarrow> string \<Rightarrow> u128 bmap bmap \<Rightarrow> merkle_error + b32" where
  "leaf_hash_v2 C salt subject_id maps =
     and_then (check_names maps) (\<lambda>_. Ok (sha256 C (leaf_preimage_v2 C salt subject_id maps)))"

definition flatten_maps :: "u128 bmap bmap \<Rightarrow> u128 bmap" where
  "flatten_maps maps =
     fold (\<lambda>(map_name, amounts) acc.
             fold (\<lambda>(asset, amount). binsert (qualified_key map_name asset) amount) (entries amounts) acc)
       (entries maps) bempty"

definition leaf_node_v2 :: "crates \<Rightarrow> b32 \<Rightarrow> string \<Rightarrow> u128 bmap bmap \<Rightarrow> merkle_error + node" where
  "leaf_node_v2 C salt subject_id maps =
     and_then (leaf_hash_v2 C salt subject_id maps) (\<lambda>h.
       Ok \<lparr>hash = h, sums = flatten_maps maps\<rparr>)"

subsection \<open>The canonical string\<close>

lemma adjacent_duplicate_None:
  "sorted (map fst xs) \<Longrightarrow> adjacent_duplicate xs = None \<longleftrightarrow> distinct (map fst xs)"
proof (induction xs rule: adjacent_duplicate.induct)
  case (1 p q rest)
  have "fst p \<notin> fst ` set (q # rest)" if "fst p \<noteq> fst q"
    using that 1(2) by (auto dest: order.antisym)
  with 1 show ?case by auto
qed auto

lemma sort_key_distinct_entries:
  assumes "distinct (map fst balances)"
  shows "sort_key fst balances = entries (bof_list balances)"
proof (rule map_of_sorted_inject)
  show "sorted_wrt (<) (map fst (sort_key fst balances))"
    using assms by (simp add: strict_sorted_iff distinct_map)
  have "map_of (sort_key fst balances) = map_of balances"
    using assms by (intro map_of_inject_set [THEN iffD2]) (simp_all add: distinct_map)
  then show "map_of (sort_key fst balances) = map_of (entries (bof_list balances))"
    using assms by (simp add: bget_bof_list flip: bm.get_listing)
qed (rule entries_sorted)

text \<open>Canonicalisation succeeds exactly on balance sets, and sorts them as the map does.\<close>

lemma canonical_balances_Ok_iff:
  "canonical_balances balances = Ok s \<longleftrightarrow>
     distinct (map fst balances) \<and> s = sums_canonical (bof_list balances)"
proof -
  have "adjacent_duplicate (sort_key fst balances) = None \<longleftrightarrow> distinct (map fst (sort_key fst balances))"
    by (rule adjacent_duplicate_None) simp
  then show ?thesis
    by (auto simp: canonical_balances_def sums_canonical_def sort_key_distinct_entries
        distinct_map split: option.splits)
qed

lemma insert_balances_Ok_iff:
  "insert_balances balances m = Ok r \<longleftrightarrow>
     distinct (map fst balances) \<and> (\<forall>a \<in> fst ` set balances. bget m a = None) \<and>
     r = fold (\<lambda>(k, v). binsert k v) balances m"
  by (induction balances m rule: insert_balances.induct)
    (auto simp: bcontains_def bget_binsert split: if_splits)

lemma leaf_node_Ok_iff:
  "leaf_node C salt uid balances = Ok n \<longleftrightarrow>
     distinct (map fst balances) \<and>
     n = \<lparr>hash = sha256 C (LEAF_DOMAIN @ arr32 salt @ arr32 (sha256 C uid) @
                   sums_canonical (bof_list balances)),
          sums = bof_list balances\<rparr>"
  by (auto simp: leaf_node_def leaf_hash_def canonical_balances_Ok_iff insert_balances_Ok_iff bof_list_def)

text \<open>Names free of the two delimiters make the canonical string unambiguous.\<close>

definition delimiter_free :: "u128 bmap \<Rightarrow> bool" where
  "delimiter_free m \<longleftrightarrow> (\<forall>a \<in> set (bkeys m). CHR '':'' \<notin> set a \<and> CHR ''|'' \<notin> set a)"

lemma render_entry_split:
  "CHR '':'' \<notin> set a \<Longrightarrow> split_once CHR '':'' (render_entry (a, v)) = Some (a, format_amount_18dp v)"
  by (simp add: render_entry_def split_once_append)

lemma bar_notin_format: "CHR ''|'' \<notin> set (format_amount_18dp v)"
  using format_chars [of v] by (auto simp: is_ascii_digit_def)

lemma sums_canonical_inj:
  assumes "delimiter_free m" "delimiter_free n" "sums_canonical m = sums_canonical n"
  shows "m = n"
proof -
  have "map render_entry (entries m) = map render_entry (entries n)"
  proof (rule join_inj [of _ "CHR ''|''"])
    show "join ''|'' (map render_entry (entries m)) = join ''|'' (map render_entry (entries n))"
      using assms(3) by (simp add: sums_canonical_def)
  qed (use assms(1,2) bar_notin_format in \<open>auto simp: delimiter_free_def bkeys_def render_entry_def\<close>)
  moreover have "inj_on render_entry (set (entries m) \<union> set (entries n))"
  proof (rule inj_onI)
    fix p q
    assume h: "p \<in> set (entries m) \<union> set (entries n)" "q \<in> set (entries m) \<union> set (entries n)"
      and eq: "render_entry p = render_entry q"
    obtain a v b w where pq: "p = (a, v)" "q = (b, w)" by (cases p, cases q)
    then have "CHR '':'' \<notin> set a" "CHR '':'' \<notin> set b"
      using h assms(1,2) by (auto simp: delimiter_free_def bkeys_def)
    then have "Some (a, format_amount_18dp v) = Some (b, format_amount_18dp w)"
      using eq pq by (metis render_entry_split)
    with pq show "p = q" by simp
  qed
  ultimately show ?thesis by (simp add: bmap_eq_iff inj_on_map_eq_map)
qed

subsection \<open>Safe names and the flattened sums of a v2 leaf\<close>

definition safe_maps :: "u128 bmap bmap \<Rightarrow> bool" where
  "safe_maps maps \<longleftrightarrow>
     (\<forall>(m, am) \<in> set (entries maps). is_safe_name m \<and> (\<forall>a \<in> set (bkeys am). is_safe_name a))"

definition fits_maps :: "u128 bmap bmap \<Rightarrow> bool" where
  "fits_maps maps \<longleftrightarrow>
     blen maps < 2 ^ 63 \<and> (\<forall>(m, am) \<in> set (entries maps). fits m \<and> fits_map am)"

definition flat_listing :: "u128 bmap bmap \<Rightarrow> (string \<times> u128) list" where
  "flat_listing maps =
     concat (map (\<lambda>(m, am). map (\<lambda>(a, v). (qualified_key m a, v)) (entries am)) (entries maps))"

lemma safe_name_chars:
  assumes "is_safe_name s"
  shows "CHR ''/'' \<notin> set s" "CHR '':'' \<notin> set s" "CHR ''|'' \<notin> set s"
  using assms
  by (auto simp: is_safe_name_def list_all_iff is_ascii_alphanumeric_def is_ascii_digit_def)

lemma qualified_key_inject:
  assumes "CHR ''/'' \<notin> set m" "CHR ''/'' \<notin> set m'"
  shows "qualified_key m a = qualified_key m' a' \<longleftrightarrow> m = m' \<and> a = a'"
proof
  assume "qualified_key m a = qualified_key m' a'"
  then have "split_once CHR ''/'' (m @ CHR ''/'' # a) = split_once CHR ''/'' (m' @ CHR ''/'' # a')"
    by (simp add: qualified_key_def)
  then show "m = m' \<and> a = a'" using assms by (simp add: split_once_append)
qed simp

lemma check_names_Ok_iff [result_simps]: "check_names maps = Ok u \<longleftrightarrow> safe_maps maps"
  by (force simp: check_names_def safe_maps_def)

lemma flatten_maps_bof_list: "flatten_maps maps = bof_list (flat_listing maps)"
proof -
  have "fold (\<lambda>(m, am) acc. fold (\<lambda>(a, v). binsert (qualified_key m a) v) (entries am) acc) xs acc
      = fold (\<lambda>(k, v). binsert k v)
          (concat (map (\<lambda>(m, am). map (\<lambda>(a, v). (qualified_key m a, v)) (entries am)) xs)) acc"
    for xs and acc :: "u128 bmap"
  proof (induction xs arbitrary: acc)
    case Nil
    then show ?case by simp
  next
    case (Cons x xs)
    have "fold (\<lambda>(a, v). binsert (qualified_key m a) v) ys acc
        = fold (\<lambda>(k, v). binsert k v) (map (\<lambda>(a, v). (qualified_key m a, v)) ys) acc"
      for m ys and acc :: "u128 bmap"
      by (induction ys arbitrary: acc) auto
    with Cons show ?case by (auto split: prod.splits)
  qed
  then show ?thesis by (simp add: flatten_maps_def flat_listing_def bof_list_def)
qed

lemma distinct_flat_listing:
  assumes "safe_maps maps"
  shows "distinct (map fst (flat_listing maps))"
proof -
  have "distinct (map fst (concat (map (\<lambda>(m, am). map (\<lambda>(a, v). (qualified_key m a, v)) (entries am)) xs)))"
    if "distinct (map fst xs)" "\<forall>(m, am) \<in> set xs. is_safe_name m" for xs :: "(string \<times> u128 bmap) list"
    using that
  proof (induction xs)
    case Nil
    then show ?case by simp
  next
    case (Cons x xs)
    obtain m am where x: "x = (m, am)" by (cases x)
    have "distinct (map fst (map (\<lambda>(a, v). (qualified_key m a, v)) (entries am)))"
    proof -
      have "map fst (map (\<lambda>(a, v). (qualified_key m a, v)) (entries am)) = map (qualified_key m) (bkeys am)"
        by (simp add: bkeys_def comp_def split_beta)
      moreover have "inj_on (qualified_key m) (set (bkeys am))"
        by (rule inj_onI) (simp add: qualified_key_def)
      ultimately show ?thesis by (simp add: distinct_map)
    qed
    moreover have "qualified_key m a \<noteq> qualified_key m' a'"
      if "(m', am') \<in> set xs" for m' am' a a'
      using that Cons.prems x by (force simp: qualified_key_inject dest: safe_name_chars)
    ultimately show ?case using Cons x by (force split: prod.splits)
  qed
  then show ?thesis
    using assms bm.listing_distinct [of maps] unfolding flat_listing_def safe_maps_def by fastforce
qed

text \<open>The sums of a v2 leaf: each amount of each map under its qualified key, nothing else.\<close>

lemma bget_flatten_maps:
  assumes "safe_maps maps"
  shows "bget (flatten_maps maps) k = Some v \<longleftrightarrow>
     (\<exists>m am a. k = qualified_key m a \<and> bget maps m = Some am \<and> bget am a = Some v)"
proof -
  have "bget (flatten_maps maps) k = Some v \<longleftrightarrow> (k, v) \<in> set (flat_listing maps)"
    using distinct_flat_listing [OF assms] by (simp add: flatten_maps_bof_list bget_bof_list)
  also have "\<dots> \<longleftrightarrow> (\<exists>m am a. k = qualified_key m a \<and> (m, am) \<in> set (entries maps) \<and> (a, v) \<in> set (entries am))"
    by (force simp: flat_listing_def)
  finally show ?thesis by (simp add: bm.get_Some_iff)
qed

lemma bget_flatten_qualified:
  assumes "safe_maps maps" "is_safe_name m"
  shows "bget (flatten_maps maps) (qualified_key m a) = Option.bind (bget maps m) (\<lambda>am. bget am a)"
proof -
  have safe: "is_safe_name m'" if "bget maps m' = Some am" for m' am
    using that assms(1) by (auto simp: safe_maps_def bm.get_Some_iff)
  have "bget (flatten_maps maps) (qualified_key m a) = Some v \<longleftrightarrow>
      Option.bind (bget maps m) (\<lambda>am. bget am a) = Some v" for v
    using assms safe
    by (auto simp: bget_flatten_maps bind_eq_Some_conv qualified_key_inject safe_name_chars)
  then show ?thesis by (metis not_None_eq)
qed

lemma leaf_node_v2_Ok_iff:
  "leaf_node_v2 C salt sid maps = Ok n \<longleftrightarrow>
     safe_maps maps \<and>
     n = \<lparr>hash = sha256 C (leaf_preimage_v2 C salt sid maps), sums = flatten_maps maps\<rparr>"
  by (auto simp: leaf_node_v2_def leaf_hash_v2_def check_names_Ok_iff)

subsection \<open>What a leaf hash binds\<close>

interpretation map_entry_code: prefix_code "\<lambda>(m, am). lp m @ lpmap am" "\<lambda>(m, am). fits m \<and> fits_map am"
  by unfold_locales (clarsimp simp: lp_code.cut_iff lpmap_code.cut_iff)

lemma fits_maps_entries:
  "fits_maps maps \<Longrightarrow>
     length (entries maps) < 2 ^ 64 \<and> list_all (\<lambda>(m, am). fits m \<and> fits_map am) (entries maps)"
  by (auto simp: fits_maps_def blen_def list_all_iff)

lemma leaf_preimage_v2_inj:
  assumes "fits_maps maps" "fits_maps maps'"
    and "leaf_preimage_v2 C salt sid maps = leaf_preimage_v2 C salt' sid' maps'"
  shows "salt = salt' \<and> sha256 C sid = sha256 C sid' \<and> maps = maps'"
proof -
  have "counted (\<lambda>(m, am). lp m @ lpmap am) (entries maps) @ [] =
      counted (\<lambda>(m, am). lp m @ lpmap am) (entries maps') @ []"
    "salt = salt'" "sha256 C sid = sha256 C sid'"
    using assms(3) by (auto simp: leaf_preimage_v2_def counted_def blen_def)
  moreover from this(1) have "entries maps = entries maps' \<and> ([] :: bytes) = []"
    using fits_maps_entries [OF assms(1)] fits_maps_entries [OF assms(2)]
    by (intro map_entry_code.counted_cut) blast+
  ultimately show ?thesis by (simp add: bmap_eq_iff)
qed

definition leaf_preimage_v1 :: "crates \<Rightarrow> b32 \<Rightarrow> string \<Rightarrow> u128 bmap \<Rightarrow> bytes" where
  "leaf_preimage_v1 C salt user_id m =
     LEAF_DOMAIN @ arr32 salt @ arr32 (sha256 C user_id) @ sums_canonical m"

lemma leaf_preimage_v1_inj:
  assumes "delimiter_free m" "delimiter_free n"
    and "leaf_preimage_v1 C salt uid m = leaf_preimage_v1 C salt' uid' n"
  shows "salt = salt' \<and> sha256 C uid = sha256 C uid' \<and> m = n"
  using assms by (auto simp: leaf_preimage_v1_def dest: sums_canonical_inj)

lemma leaf_domains_apart: "leaf_preimage_v1 C salt uid m \<noteq> leaf_preimage_v2 C salt' sid maps"
  by (simp add: leaf_preimage_v1_def leaf_preimage_v2_def LEAF_DOMAIN_def LEAF_DOMAIN_V2_def)

end
