(* ===== verification/Profile_Rules.thy ===== *)
theory Profile_Rules
  imports Manifest_Diff Leaf
begin

text \<open>
  The profile registry of \<open>solvency-report/src/profile.rs\<close>: the seven profiles as the source
  declares them, \<open>lookup\<close>, and \<open>validate\<close>, which checks that a report carries what its
  profile requires. Its result is characterised by the declarative rules \<open>aggregates_present\<close>,
  \<open>coverage_holds\<close> and \<open>unanimity_holds\<close>.
\<close>

subsection \<open>Rules and registry\<close>

record Coverage =
  covering :: string
  covered :: string

record ProfileRules =
  rules_name :: string
  statement :: string
  rules_leaf :: leaf_kind
  required_aggregates :: "string list"
  coverage :: "Coverage option"
  required_leaf_maps :: "string list"
  unanimous_maps :: "string list"

definition SOLVENCY_LIABILITIES :: ProfileRules where
  "SOLVENCY_LIABILITIES = \<lparr>
     rules_name = ''solvency.liabilities'',
     statement = ''every customer balance is committed, and the root's totals are the liabilities'',
     rules_leaf = Customer,
     required_aggregates = [''root_sums''],
     coverage = None,
     required_leaf_maps = [],
     unanimous_maps = []\<rparr>"

definition SOLVENCY_GROUP :: ProfileRules where
  "SOLVENCY_GROUP = \<lparr>
     rules_name = ''solvency.group'',
     statement = ''every entity's root is committed, and the root's totals are the consolidated liabilities'',
     rules_leaf = Entity,
     required_aggregates = [''root_sums''],
     coverage = None,
     required_leaf_maps = [],
     unanimous_maps = []\<rparr>"

definition COLLATERAL_REPO :: ProfileRules where
  "COLLATERAL_REPO = \<lparr>
     rules_name = ''collateral.repo'',
     statement = ''every open repo leg is committed, and the root totals are aggregate collateral and exposure'',
     rules_leaf = RepoLeg,
     required_aggregates = [''collateral/*'', ''exposure/*''],
     coverage = Some \<lparr>covering = ''collateral'', covered = ''exposure''\<rparr>,
     required_leaf_maps = [],
     unanimous_maps = []\<rparr>"

definition FUND_NAV :: ProfileRules where
  "FUND_NAV = \<lparr>
     rules_name = ''fund.nav'',
     statement = ''every holder's units and entitlement are committed, and the root totals are units outstanding and total entitlement'',
     rules_leaf = Shareholder,
     required_aggregates = [''units/*'', ''entitlement/*''],
     coverage = None,
     required_leaf_maps = [],
     unanimous_maps = []\<rparr>"

definition SETTLEMENT_DVP :: ProfileRules where
  "SETTLEMENT_DVP = \<lparr>
     rules_name = ''settlement.dvp'',
     statement = ''every settled trade in this window is committed, and no leg settled without its counter-leg'',
     rules_leaf = SettledTrade,
     required_aggregates = [''delivered/*'', ''paid/*''],
     coverage = None,
     required_leaf_maps = [''delivered'', ''paid''],
     unanimous_maps = []\<rparr>"

definition ELIGIBILITY_HOLDER :: ProfileRules where
  "ELIGIBILITY_HOLDER = \<lparr>
     rules_name = ''eligibility.holder'',
     statement = ''every committed holder satisfied each attested rule at issuance'',
     rules_leaf = AttestedHolder,
     required_aggregates = [''attested/*''],
     coverage = None,
     required_leaf_maps = [''attested''],
     unanimous_maps = [''attested'']\<rparr>"

definition COVERAGE_CUSTODY :: ProfileRules where
  "COVERAGE_CUSTODY = \<lparr>
     rules_name = ''coverage.custody'',
     statement = ''every custody position is committed, and the root totals are the assets held'',
     rules_leaf = CustodyPosition,
     required_aggregates = [''held/*''],
     coverage = None,
     required_leaf_maps = [''held''],
     unanimous_maps = []\<rparr>"

definition REGISTRY :: "ProfileRules list" where
  "REGISTRY =
     [SOLVENCY_LIABILITIES, SOLVENCY_GROUP, COLLATERAL_REPO, FUND_NAV, SETTLEMENT_DVP,
      ELIGIBILITY_HOLDER, COVERAGE_CUSTODY]"

lemmas profile_defs =
  SOLVENCY_LIABILITIES_def SOLVENCY_GROUP_def COLLATERAL_REPO_def FUND_NAV_def SETTLEMENT_DVP_def
  ELIGIBILITY_HOLDER_def COVERAGE_CUSTODY_def

definition lookup_profile :: "string \<Rightarrow> ProfileRules option" where
  "lookup_profile name = find (\<lambda>rules. rules_name rules = name) REGISTRY"

subsection \<open>Validation\<close>

datatype ProfileError = Unknown string | Violation string violation

text \<open>The \<open>match *aggregate\<close>: \<open>None\<close> is the arm that returns an error.\<close>

definition aggregate_present :: "Report \<Rightarrow> string \<Rightarrow> bool option" where
  "aggregate_present r aggregate =
     (if aggregate = ''root_sums'' then Some (\<not> bis_empty (root_sums r))
      else if aggregate = ''mark_prices'' then Some (\<not> bis_empty (mark_prices r))
      else if ends_with ''/*'' aggregate
        then Some (list_ex (starts_with (butlast aggregate)) (bkeys (root_sums r)))
      else None)"

definition check_aggregate :: "Report \<Rightarrow> ProfileRules \<Rightarrow> string \<Rightarrow> ProfileError + unit" where
  "check_aggregate r rules aggregate =
     (case aggregate_present r aggregate of
        None \<Rightarrow> Err (Violation (rules_name rules) (UncheckableAggregate aggregate))
      | Some present \<Rightarrow> ensure present (Violation (rules_name rules) (MissingAggregate aggregate)))"

definition check_coverage :: "Report \<Rightarrow> ProfileRules \<Rightarrow> Coverage \<Rightarrow> ProfileError + unit" where
  "check_coverage r rules cov =
     for_each (\<lambda>(key, required).
       case strip_prefix (covered cov @ ''/'') key of
         None \<Rightarrow> Ok ()
       | Some asset \<Rightarrow>
           (let held = get0 (root_sums r) (covering cov @ ''/'' @ asset)
            in ensure (\<not> held < required)
                 (Violation (rules_name rules)
                   (NotCovering (covering cov) held (covered cov) required asset))))
       (entries (root_sums r))"

definition ONE :: u128 where "ONE = 1000000000000000000"

definition check_unanimous :: "Report \<Rightarrow> ProfileRules \<Rightarrow> string \<Rightarrow> ProfileError + unit" where
  "check_unanimous r rules map_name =
     for_each (\<lambda>(key, total).
       case strip_prefix (map_name @ ''/'') key of
         None \<Rightarrow> Ok ()
       | Some rule \<Rightarrow>
           (let expected = saturating_mul (ucast (leaf_count r)) ONE
            in ensure (total = expected)
                 (Violation (rules_name rules) (NotUnanimous key total (leaf_count r) rule expected))))
       (entries (root_sums r))"

definition validate :: "Report \<Rightarrow> ProfileError + ProfileRules" where
  "validate r =
     and_then (ok_or (lookup_profile (profile r)) (Unknown (profile r))) (\<lambda>rules.
     and_then (for_each (check_aggregate r rules) (required_aggregates rules)) (\<lambda>_.
     and_then (case coverage rules of None \<Rightarrow> Ok () | Some cov \<Rightarrow> check_coverage r rules cov) (\<lambda>_.
     and_then (for_each (check_unanimous r rules) (unanimous_maps rules)) (\<lambda>_.
       Ok rules))))"

subsection \<open>The registry\<close>

lemma registry_names: "distinct (map rules_name REGISTRY)"
  by (simp add: REGISTRY_def profile_defs)

lemma lookup_profile_Some:
  "lookup_profile name = Some rules \<longleftrightarrow> rules \<in> set REGISTRY \<and> rules_name rules = name"
  unfolding lookup_profile_def by (rule find_key [OF registry_names])

lemma registry_checkable:
  "\<forall>rules \<in> set REGISTRY. \<forall>a \<in> set (required_aggregates rules). aggregate_present r a \<noteq> None"
  by (simp add: REGISTRY_def profile_defs aggregate_present_def ends_with_def)

subsection \<open>What a valid report carries\<close>

definition aggregates_present :: "Report \<Rightarrow> ProfileRules \<Rightarrow> bool" where
  "aggregates_present r rules \<longleftrightarrow>
     (\<forall>a \<in> set (required_aggregates rules). aggregate_present r a = Some True)"

definition coverage_holds :: "Report \<Rightarrow> ProfileRules \<Rightarrow> bool" where
  "coverage_holds r rules \<longleftrightarrow>
     (\<forall>cov asset. coverage rules = Some cov \<longrightarrow>
        amount_of (root_sums r) (covered cov @ ''/'' @ asset) \<le>
        amount_of (root_sums r) (covering cov @ ''/'' @ asset))"

definition unanimity_holds :: "Report \<Rightarrow> ProfileRules \<Rightarrow> bool" where
  "unanimity_holds r rules \<longleftrightarrow>
     (\<forall>m \<in> set (unanimous_maps rules). \<forall>rule v.
        bget (root_sums r) (m @ ''/'' @ rule) = Some v \<longrightarrow> unat v = unat (leaf_count r) * 10 ^ 18)"

lemma expected_unanimous: "unat (saturating_mul (ucast (n :: u64)) ONE) = unat n * 10 ^ 18"
proof -
  have "unat (ucast n :: u128) = unat n"
    using unat_lt [of n] by (simp add: unsigned_ucast_eq take_bit_nat_eq_self)
  moreover have "unat n * 10 ^ 18 \<le> 2 ^ 128 - 1"
    using unat_lt [of n] by simp
  ultimately show ?thesis
    by (simp add: unat_saturating_mul ONE_def)
qed

lemma check_aggregate_Ok: "check_aggregate r rules a = Ok u \<longleftrightarrow> aggregate_present r a = Some True"
  by (auto simp: check_aggregate_def split: option.splits)

lemma check_coverage_Ok:
  "check_coverage r rules cov = Ok u \<longleftrightarrow>
     (\<forall>asset. amount_of (root_sums r) (covered cov @ ''/'' @ asset) \<le>
        amount_of (root_sums r) (covering cov @ ''/'' @ asset))"
proof -
  let ?S = "root_sums r"
  have "check_coverage r rules cov = Ok u \<longleftrightarrow>
      (\<forall>asset v. (covered cov @ ''/'' @ asset, v) \<in> set (entries ?S) \<longrightarrow>
         v \<le> get0 ?S (covering cov @ ''/'' @ asset))"
    unfolding check_coverage_def Let_def for_each_Ok_iff split_beta strip_prefix_ensure by force
  also have "\<dots> \<longleftrightarrow> (\<forall>asset. get0 ?S (covered cov @ ''/'' @ asset) \<le> get0 ?S (covering cov @ ''/'' @ asset))"
    by (auto simp: get0_def bm.get_Some_iff [symmetric] split: option.splits)
  finally show ?thesis by (simp add: amount_of_def word_le_nat_alt)
qed

lemma check_unanimous_Ok:
  "check_unanimous r rules m = Ok u \<longleftrightarrow>
     (\<forall>rule v. bget (root_sums r) (m @ ''/'' @ rule) = Some v \<longrightarrow> unat v = unat (leaf_count r) * 10 ^ 18)"
proof -
  have "check_unanimous r rules m = Ok u \<longleftrightarrow>
      (\<forall>rule v. (m @ ''/'' @ rule, v) \<in> set (entries (root_sums r)) \<longrightarrow>
         v = saturating_mul (ucast (leaf_count r)) ONE)"
    unfolding check_unanimous_def Let_def for_each_Ok_iff split_beta strip_prefix_ensure by force
  also have "\<dots> \<longleftrightarrow> (\<forall>rule v. bget (root_sums r) (m @ ''/'' @ rule) = Some v \<longrightarrow>
      unat v = unat (saturating_mul (ucast (leaf_count r)) ONE))"
    by (simp add: bm.get_Some_iff)
  finally show ?thesis by (simp only: expected_unanimous)
qed

lemma validate_Ok_iff:
  "validate r = Ok rules \<longleftrightarrow>
     lookup_profile (profile r) = Some rules \<and> aggregates_present r rules \<and>
     coverage_holds r rules \<and> unanimity_holds r rules"
proof -
  have "(case coverage rules of None \<Rightarrow> Ok () | Some cov \<Rightarrow> check_coverage r rules cov) = Ok u \<longleftrightarrow>
      coverage_holds r rules" for u
    by (cases "coverage rules") (auto simp: coverage_holds_def check_coverage_Ok)
  then show ?thesis
    by (auto simp: validate_def aggregates_present_def unanimity_holds_def check_aggregate_Ok
        check_unanimous_Ok)
qed

lemma validate_name: "validate r = Ok rules \<Longrightarrow> rules_name rules = profile r"
  by (simp add: validate_Ok_iff lookup_profile_Some)


text \<open>Validation does not look at the manifest.\<close>

lemma validate_manifest: "validate (r\<lparr>manifest := m\<rparr>) = validate r"
proof -
  have "check_aggregate (r\<lparr>manifest := m\<rparr>) = check_aggregate r"
    "check_coverage (r\<lparr>manifest := m\<rparr>) = check_coverage r"
    "check_unanimous (r\<lparr>manifest := m\<rparr>) = check_unanimous r"
    by (intro ext, simp add: check_aggregate_def aggregate_present_def check_coverage_def check_unanimous_def
        cong: option.case_cong)+
  then show ?thesis by (simp add: validate_def cong: option.case_cong)
qed


text \<open>The two profiles over amount leaves ask for published totals and nothing else.\<close>

lemma validate_liabilities:
  "profile r = ''solvency.liabilities'' \<Longrightarrow>
     (\<exists>rules. validate r = Ok rules \<and> rules_leaf rules = Customer) \<longleftrightarrow> \<not> bis_empty (root_sums r)"
  by (auto simp: validate_Ok_iff lookup_profile_def REGISTRY_def profile_defs aggregates_present_def
      aggregate_present_def coverage_holds_def unanimity_holds_def)

lemma validate_group:
  "profile r = ''solvency.group'' \<Longrightarrow>
     (\<exists>rules. validate r = Ok rules \<and> rules_leaf rules = Entity) \<longleftrightarrow> \<not> bis_empty (root_sums r)"
  by (auto simp: validate_Ok_iff lookup_profile_def REGISTRY_def profile_defs aggregates_present_def
      aggregate_present_def coverage_holds_def unanimity_holds_def)

end
