(* ===== verification/Sign.thy ===== *)
theory Sign
  imports Digest
begin

text \<open>
  Detached Ed25519 signatures over digests: \<open>solvency-report/src/sign.rs\<close>. A
  signer's own signature verifies under the key it displays (\<open>own_signature_verifies\<close>).
\<close>

record ReportSigner =
  seed :: b32

definition public_key_hex :: "crates \<Rightarrow> ReportSigner \<Rightarrow> string" where
  "public_key_hex C s = hex_encode C (arr32 (ed_verifying_key C (seed s)))"

definition sign_digest :: "crates \<Rightarrow> ReportSigner \<Rightarrow> b32 \<Rightarrow> string" where
  "sign_digest C s digest = hex_encode C (arr64 (ed_sign C (seed s) (arr32 digest)))"

definition decode32 :: "crates \<Rightarrow> string \<Rightarrow> b32 option" where
  "decode32 C s = Option.bind (hex_decode C s) try32"

definition decode64 :: "crates \<Rightarrow> string \<Rightarrow> b64 option" where
  "decode64 C s = Option.bind (hex_decode C s) try64"

definition verify_signature :: "crates \<Rightarrow> string \<Rightarrow> b32 \<Rightarrow> string \<Rightarrow> signature_error + unit" where
  "verify_signature C pk_hex digest signature_hex =
     and_then (ok_or (decode32 C pk_hex) MalformedPublicKey) (\<lambda>key.
     and_then (ok_or (decode64 C signature_hex) MalformedSignature) (\<lambda>sig.
     and_then (ensure (ed_key_valid C key) MalformedPublicKey) (\<lambda>_.
       ensure (ed_verify C key (arr32 digest) sig) BadSignatureUnderKey)))"

lemma decode32_encode: "hex_spec C \<Longrightarrow> decode32 C (hex_encode C (arr32 a)) = Some a"
  by (simp add: decode32_def hex_spec_def)

lemma decode64_encode: "hex_spec C \<Longrightarrow> decode64 C (hex_encode C (arr64 a)) = Some a"
  by (simp add: decode64_def hex_spec_def)

text \<open>What a successful check has established, in full.\<close>

lemma verify_signature_Ok_iff:
  "verify_signature C pk d sig = Ok u \<longleftrightarrow>
     (\<exists>key s. decode32 C pk = Some key \<and> decode64 C sig = Some s \<and> ed_key_valid C key \<and>
        ed_verify C key (arr32 d) s)"
  by (auto simp: verify_signature_def)

lemma own_signature_verifies:
  "hex_spec C \<Longrightarrow> ed25519_spec C \<Longrightarrow>
     verify_signature C (public_key_hex C s) d (sign_digest C s d) = Ok ()"
  by (auto simp: verify_signature_Ok_iff public_key_hex_def sign_digest_def decode32_encode
      decode64_encode ed25519_spec_def)

end
