(* ===== verification/Sum_Tree.thy ===== *)
theory Sum_Tree
  imports Leaf
begin

text \<open>
  The Merkle sum tree of \<open>solvency-merkle/src/lib.rs\<close>: \<open>combine\<close>, \<open>SumTree::build\<close>,
  \<open>SumTree::prove\<close> and \<open>verify_proof\<close>. The levels are built bottom up, an odd node is
  promoted unchanged, and a proof folds a leaf with its siblings up to the root. The locale
  \<open>node_rule\<close> is the contract of a node rule: sums add up. It is interpreted by this
  crate's \<open>combine\<close> and by the verifier's own copy of it.
\<close>

subsection \<open>Combining two nodes\<close>

definition NODE_DOMAIN :: bytes where "NODE_DOMAIN = ''rocky-solvency-node-v1''"

text \<open>The loop over the right node's sums: \<open>entry(asset).or_insert(0)\<close>, then a checked addition.\<close>

fun add_sums :: "(string \<times> u128) list \<Rightarrow> u128 bmap \<Rightarrow> merkle_error + u128 bmap" where
  "add_sums [] acc = Ok acc"
| "add_sums ((asset, v) # rest) acc =
     (case checked_add (get0 acc asset) v of
        None \<Rightarrow> Err (SumOverflow asset)
      | Some s \<Rightarrow> add_sums rest (binsert asset s acc))"

definition combine :: "crates \<Rightarrow> node \<Rightarrow> node \<Rightarrow> merkle_error + node" where
  "combine C left right =
     and_then (add_sums (entries (sums right)) (sums left)) (\<lambda>s.
       Ok \<lparr>hash = sha256 C (NODE_DOMAIN @ arr32 (hash left) @ arr32 (hash right) @ sums_canonical s),
           sums = s\<rparr>)"

subsection \<open>Building the levels\<close>

text \<open>One round over \<open>chunks(2)\<close>.\<close>

fun next_level :: "crates \<Rightarrow> node list \<Rightarrow> merkle_error + node list" where
  "next_level C [] = Ok []"
| "next_level C [odd_node] = Ok [odd_node]"
| "next_level C (left # right # rest) =
     and_then (combine C left right) (\<lambda>p. and_then (next_level C rest) (\<lambda>ps. Ok (p # ps)))"

lemma next_level_length: "next_level C level = Ok nxt \<Longrightarrow> length nxt = (length level + 1) div 2"
  by (induction C level arbitrary: nxt rule: next_level.induct) auto

text \<open>The \<open>while\<close> loop: a level, then every level above it.\<close>

function grow_levels :: "crates \<Rightarrow> node list \<Rightarrow> merkle_error + node list list" where
  "grow_levels C level =
     (if 1 < length level
      then and_then (next_level C level) (\<lambda>nxt.
             and_then (grow_levels C nxt) (\<lambda>above. Ok (level # above)))
      else Ok [level])"
  by pat_completeness auto
termination
  by (relation "measure (\<lambda>(C, level). length level)") (auto dest!: next_level_length)

declare grow_levels.simps [simp del]

record sum_tree =
  levels :: "node list list"

definition build :: "crates \<Rightarrow> node list \<Rightarrow> merkle_error + sum_tree" where
  "build C leaves =
     and_then (ensure (leaves \<noteq> []) NoLeaves) (\<lambda>_.
     and_then (grow_levels C leaves) (\<lambda>ls. Ok \<lparr>levels = ls\<rparr>))"

text \<open>\<open>levels.last().unwrap()[0]\<close>; a built tree always has one (lemma \<open>build_root_level\<close>).\<close>

definition root :: "sum_tree \<Rightarrow> node" where
  "root t = hd (last (levels t))"

subsection \<open>Proofs\<close>

record proof_step =
  sibling :: node
  sibling_on_left :: bool

unbundle bit_operations_syntax

definition sibling_index :: "nat \<Rightarrow> nat" where
  "sibling_index idx = idx XOR 1"

lemma sibling_index_eq: "sibling_index idx = (if even idx then idx + 1 else idx - 1)"
  unfolding sibling_index_def xor_one_eq by (simp del: One_nat_def)

fun prove_steps :: "node list list \<Rightarrow> nat \<Rightarrow> proof_step list" where
  "prove_steps [] idx = []"
| "prove_steps (level # rest) idx =
     (let sibling_idx = sibling_index idx
      in (if sibling_idx < length level
          then [\<lparr>sibling = level ! sibling_idx, sibling_on_left = (sibling_idx < idx)\<rparr>] else [])
         @ prove_steps rest (idx div 2))"

definition prove :: "sum_tree \<Rightarrow> nat \<Rightarrow> merkle_error + proof_step list" where
  "prove t leaf_index =
     and_then (ensure (leaf_index < length (hd (levels t))) (LeafIndexOutOfRange leaf_index)) (\<lambda>_.
       Ok (prove_steps (butlast (levels t)) leaf_index))"

text \<open>The fold up a path, under a node rule.\<close>

fun fold_path :: "('n \<Rightarrow> 'n \<Rightarrow> 'e + 'n) \<Rightarrow> 'n \<Rightarrow> ('n \<times> bool) list \<Rightarrow> 'e + 'n" where
  "fold_path comb current [] = Ok current"
| "fold_path comb current ((sib, on_left) # steps) =
     and_then (if on_left then comb sib current else comb current sib) (\<lambda>n.
       fold_path comb n steps)"

definition step_pair :: "proof_step \<Rightarrow> node \<times> bool" where
  "step_pair s = (sibling s, sibling_on_left s)"

lemma step_pair_simp [simp]: "step_pair \<lparr>sibling = n, sibling_on_left = b\<rparr> = (n, b)"
  by (simp add: step_pair_def)

definition verify_proof :: "crates \<Rightarrow> node \<Rightarrow> proof_step list \<Rightarrow> node \<Rightarrow> bool" where
  "verify_proof C leaf steps rt =
     (case fold_path (combine C) leaf (map step_pair steps) of
        Inl _ \<Rightarrow> False
      | Inr current \<Rightarrow> current = rt)"

subsection \<open>The contract of a node rule\<close>

locale node_rule =
  fixes comb :: "'n \<Rightarrow> 'n \<Rightarrow> 'e + 'n" and tot :: "'n \<Rightarrow> 'k \<Rightarrow> nat"
  assumes tot_comb: "comb l r = Inr p \<Longrightarrow> tot p a = tot l a + tot r a"
begin

text \<open>The root of an accepted path totals the leaf and every sibling, so it is never below the leaf.\<close>

lemma fold_total:
  "fold_path comb n steps = Inr r \<Longrightarrow> tot r a = tot n a + (\<Sum>(sib, _) \<leftarrow> steps. tot sib a)"
proof (induction steps arbitrary: n)
  case Nil
  then show ?case by simp
next
  case (Cons s steps)
  then show ?case by (cases s) (auto split: if_splits dest!: tot_comb [of _ _ _ a])
qed

lemma fold_lower_bound: "fold_path comb n steps = Inr r \<Longrightarrow> tot n a \<le> tot r a"
  using fold_total by fastforce

end

text \<open>A rule that also commits to its children by hash.\<close>

locale committing_rule = node_rule comb tot
  for comb :: "'n \<Rightarrow> 'n \<Rightarrow> 'e + 'n" and tot :: "'n \<Rightarrow> 'k \<Rightarrow> nat" +
  fixes digest :: "'n \<Rightarrow> b32" and pre :: "'n \<Rightarrow> 'n \<Rightarrow> bytes" and C :: crates
  assumes digest_comb: "comb l r = Inr p \<Longrightarrow> digest p = sha256 C (pre l r)"
    and pre_inj: "pre l r = pre l' r' \<Longrightarrow> digest l = digest l' \<and> digest r = digest r'"

text \<open>What is hashed on the way up a path, and two lists of preimages that show a collision.\<close>

fun path_preimages ::
  "('n \<Rightarrow> 'n \<Rightarrow> 'e + 'n) \<Rightarrow> ('n \<Rightarrow> 'n \<Rightarrow> bytes) \<Rightarrow> 'n \<Rightarrow> ('n \<times> bool) list \<Rightarrow> bytes list" where
  "path_preimages comb pre n [] = []"
| "path_preimages comb pre n ((sib, on_left) # steps) =
     (let (l, r) = (if on_left then (sib, n) else (n, sib))
      in pre l r # (case comb l r of Inl _ \<Rightarrow> [] | Inr p \<Rightarrow> path_preimages comb pre p steps))"

definition exposes :: "crates \<Rightarrow> bytes list \<Rightarrow> bytes list \<Rightarrow> bool" where
  "exposes C xs ys \<longleftrightarrow> (\<exists>(x, y) \<in> set (zip xs ys). collides C x y)"

lemma exposes_Cons [simp]: "exposes C (x # xs) (y # ys) \<longleftrightarrow> collides C x y \<or> exposes C xs ys"
  by (auto simp: exposes_def)

lemma exposes_Nil [simp]: "\<not> exposes C [] ys" "\<not> exposes C xs []"
  by (auto simp: exposes_def)

lemma exposes_append:
  "length xs = length ys \<Longrightarrow>
     exposes C (xs @ xs') (ys @ ys') \<longleftrightarrow> exposes C xs ys \<or> exposes C xs' ys'"
  by (auto simp: exposes_def)

context committing_rule
begin

text \<open>Two paths of one shape to one root hash start from one leaf hash, or show a collision.\<close>

lemma fold_binding:
  assumes "fold_path comb n steps = Inr r" "fold_path comb n' steps' = Inr r'"
    and "map snd steps = map snd steps'" "digest r = digest r'"
  shows "digest n = digest n' \<or> exposes C (path_preimages comb pre n steps) (path_preimages comb pre n' steps')"
  using assms
proof (induction steps arbitrary: n n' steps')
  case Nil
  then show ?case by simp
next
  case (Cons s steps)
  obtain sib b where s: "s = (sib, b)" by (cases s)
  obtain sib' steps'' where s': "steps' = (sib', b) # steps''"
    using Cons.prems(3) s by (cases steps') auto
  define lr where "lr = (if b then (sib, n) else (n, sib))"
  define lr' where "lr' = (if b then (sib', n') else (n', sib'))"
  obtain p where p: "comb (fst lr) (snd lr) = Inr p" "fold_path comb p steps = Inr r"
    using Cons.prems(1) s by (auto simp: lr_def split: if_splits)
  obtain p' where p': "comb (fst lr') (snd lr') = Inr p'" "fold_path comb p' steps'' = Inr r'"
    using Cons.prems(2) s' by (auto simp: lr'_def split: if_splits)
  have path: "path_preimages comb pre n (s # steps) =
      pre (fst lr) (snd lr) # path_preimages comb pre p steps"
    using p(1) by (cases b) (simp_all add: s lr_def)
  have path': "path_preimages comb pre n' steps' =
      pre (fst lr') (snd lr') # path_preimages comb pre p' steps''"
    using p'(1) by (cases b) (simp_all add: s' lr'_def)
  have "digest p = digest p' \<or> exposes C (path_preimages comb pre p steps) (path_preimages comb pre p' steps'')"
    using Cons.IH [OF p(2) p'(2)] Cons.prems(3,4) s s' by simp
  moreover have "pre (fst lr) (snd lr) = pre (fst lr') (snd lr')
      \<or> collides C (pre (fst lr) (snd lr)) (pre (fst lr') (snd lr'))" if "digest p = digest p'"
    using that digest_comb [OF p(1)] digest_comb [OF p'(1)] by (intro sha256_eqD) simp
  moreover have "digest n = digest n'" if "pre (fst lr) (snd lr) = pre (fst lr') (snd lr')"
    using pre_inj [OF that] by (cases b) (simp_all add: lr_def lr'_def)
  ultimately show ?case unfolding path path' exposes_Cons by blast
qed

end

subsection \<open>The sums of a combined node\<close>

lemma add_sums_total:
  "add_sums xs acc = Inr s \<Longrightarrow> distinct (map fst xs) \<Longrightarrow>
     amount_of s a = amount_of acc a + (case map_of xs a of None \<Rightarrow> 0 | Some v \<Rightarrow> unat v)"
proof (induction xs acc rule: add_sums.induct)
  case (1 acc)
  then show ?case by simp
next
  case (2 asset v rest acc)
  then obtain w where w: "checked_add (get0 acc asset) v = Some w"
      "add_sums rest (binsert asset w acc) = Inr s"
    by (auto split: option.splits)
  then have "unat w = amount_of acc asset + unat v"
    by (simp add: checked_add_Some amount_of_def)
  moreover have "map_of rest asset = None" using 2(3) by (simp add: map_of_eq_None_iff)
  ultimately show ?case using "2.IH" [OF w] 2(3) by (simp add: amount_of_binsert)
qed

lemma add_sums_Ok_iff:
  "distinct (map fst xs) \<Longrightarrow>
     (\<exists>s. add_sums xs acc = Inr s) \<longleftrightarrow> (\<forall>(a, v) \<in> set xs. amount_of acc a + unat v < 2 ^ 128)"
proof (induction xs acc rule: add_sums.induct)
  case (1 acc)
  then show ?case by simp
next
  case (2 asset v rest acc)
  show ?case
  proof (cases "checked_add (get0 acc asset) v")
    case None
    then have "\<not> amount_of acc asset + unat v < 2 ^ 128"
      by (simp add: checked_add_None amount_of_def)
    with None show ?thesis by auto
  next
    case (Some w)
    then have "amount_of acc asset + unat v < 2 ^ 128"
      using u128_lt [of w] by (simp add: checked_add_Some amount_of_def)
    moreover have "\<forall>(a, u) \<in> set rest. amount_of (binsert asset w acc) a = amount_of acc a"
      using 2(2) by (force simp: amount_of_binsert)
    then have "(\<forall>(a, u) \<in> set rest. amount_of (binsert asset w acc) a + unat u < 2 ^ 128)
        \<longleftrightarrow> (\<forall>(a, u) \<in> set rest. amount_of acc a + unat u < 2 ^ 128)"
      by (intro ball_cong refl) auto
    moreover have "(\<exists>s. add_sums rest (binsert asset w acc) = Inr s)
        \<longleftrightarrow> (\<forall>(a, u) \<in> set rest. amount_of (binsert asset w acc) a + unat u < 2 ^ 128)"
      using 2(2) by (intro "2.IH" [OF Some]) simp
    ultimately show ?thesis using Some by simp
  qed
qed

lemma add_sums_keys:
  "add_sums xs acc = Inr s \<Longrightarrow> set (bkeys s) = set (bkeys acc) \<union> fst ` set xs"
proof (induction xs acc rule: add_sums.induct)
  case (2 asset v rest acc)
  then show ?case
    by (auto simp: bkeys_bget bget_binsert split: option.splits if_splits)
qed simp

lemma amount_of_map_of: "(case map_of (entries m) a of None \<Rightarrow> 0 | Some v \<Rightarrow> unat v) = amount_of m a"
  by (simp add: amount_of_def get0_def bget_def split: option.splits)

lemma combine_total:
  "combine C l r = Inr p \<Longrightarrow> amount_of (sums p) a = amount_of (sums l) a + amount_of (sums r) a"
  by (auto simp: combine_def add_sums_total bm.listing_distinct amount_of_map_of)

lemma combine_keys:
  assumes "combine C l r = Inr p"
  shows "set (bkeys (sums p)) = set (bkeys (sums l)) \<union> set (bkeys (sums r))"
proof -
  from assms have "add_sums (entries (sums r)) (sums l) = Inr (sums p)"
    by (auto simp: combine_def)
  then show ?thesis by (simp add: add_sums_keys bkeys_def [of "sums r"])
qed

lemma combine_Ok_iff:
  "(\<exists>p. combine C l r = Inr p) \<longleftrightarrow> (\<forall>a. amount_of (sums l) a + amount_of (sums r) a < 2 ^ 128)"
proof -
  have "(\<exists>p. combine C l r = Inr p) \<longleftrightarrow> (\<exists>s. add_sums (entries (sums r)) (sums l) = Inr s)"
    by (auto simp: combine_def)
  also have "\<dots> \<longleftrightarrow> (\<forall>(a, v) \<in> set (entries (sums r)). amount_of (sums l) a + unat v < 2 ^ 128)"
    by (rule add_sums_Ok_iff) (rule bm.listing_distinct)
  also have "\<dots> \<longleftrightarrow> (\<forall>a. amount_of (sums l) a + amount_of (sums r) a < 2 ^ 128)"
  proof (intro iffI allI ballI)
    fix a assume h: "\<forall>(a, v) \<in> set (entries (sums r)). amount_of (sums l) a + unat v < 2 ^ 128"
    show "amount_of (sums l) a + amount_of (sums r) a < 2 ^ 128"
    proof (cases "bget (sums r) a")
      case None
      then show ?thesis using amount_of_lt [of "sums l" a] by (simp add: amount_of_def get0_def)
    next
      case (Some v)
      then have "(a, v) \<in> set (entries (sums r))" "amount_of (sums r) a = unat v"
        by (simp_all add: bm.get_Some_iff [symmetric] amount_of_def get0_def)
      with h show ?thesis by fastforce
    qed
  next
    fix av assume h: "\<forall>a. amount_of (sums l) a + amount_of (sums r) a < 2 ^ 128"
      and av: "av \<in> set (entries (sums r))"
    obtain a v where "av = (a, v)" by (cases av)
    with av have "bget (sums r) a = Some v" by (simp add: bm.get_Some_iff)
    with h [rule_format, of a] \<open>av = (a, v)\<close>
    show "case av of (a, v) \<Rightarrow> amount_of (sums l) a + unat v < 2 ^ 128"
      by (simp add: amount_of_def get0_def)
  qed
  finally show ?thesis .
qed

definition node_preimage :: "node \<Rightarrow> node \<Rightarrow> bytes" where
  "node_preimage l r = NODE_DOMAIN @ arr32 (hash l) @ arr32 (hash r) @
     (case add_sums (entries (sums r)) (sums l) of Inl _ \<Rightarrow> [] | Inr s \<Rightarrow> sums_canonical s)"

interpretation core_rule: committing_rule "combine C" "\<lambda>n a. amount_of (sums n) a" hash node_preimage C
  for C
  by unfold_locales (auto simp: combine_total, auto simp: combine_def node_preimage_def)

end
