(* ===== verification/Sum_Tree_Correct.thy ===== *)
theory Sum_Tree_Correct
  imports Sum_Tree
begin

text \<open>
  What the sum tree promises: the root totals every leaf exactly and building fails only
  when a total does not fit; every leaf has a proof that folds to the root, of logarithmic
  length; a root hash binds the leaf hashes of an honestly built tree; and what a single
  inclusion proof does and does not say about the published totals.
\<close>

subsection \<open>Totals of a level\<close>

definition level_total :: "node list \<Rightarrow> string \<Rightarrow> nat" where
  "level_total level a = (\<Sum>n \<leftarrow> level. amount_of (sums n) a)"

lemma level_total_simps [simp]:
  "level_total [] a = 0" "level_total (n # level) a = amount_of (sums n) a + level_total level a"
  by (simp_all add: level_total_def)

lemma next_level_total: "next_level C level = Inr nxt \<Longrightarrow> level_total nxt a = level_total level a"
  by (induction C level arbitrary: nxt rule: next_level.induct) (auto dest: combine_total [of _ _ _ _ a])

lemma next_level_Ok:
  "(\<And>a. level_total level a < 2 ^ 128) \<Longrightarrow> \<exists>nxt. next_level C level = Inr nxt"
proof (induction C level rule: next_level.induct)
  case (3 C l r rest)
  have "amount_of (sums l) a + amount_of (sums r) a < 2 ^ 128" for a
    using "3.prems" [of a] by simp
  then obtain p where p: "combine C l r = Inr p" using combine_Ok_iff by blast
  have "level_total rest a < 2 ^ 128" for a
    using "3.prems" [of a] by simp
  then obtain ps where "next_level C rest = Inr ps" using "3.IH" [OF p] by blast
  with p show ?case by simp
qed auto

lemma grow_levels_single: "length level \<le> 1 \<Longrightarrow> grow_levels C level = Inr [level]"
  by (subst grow_levels.simps) simp

lemma grow_levels_many:
  "1 < length level \<Longrightarrow> grow_levels C level = Inr ls \<longleftrightarrow>
     (\<exists>nxt above. next_level C level = Inr nxt \<and> grow_levels C nxt = Inr above \<and> ls = level # above)"
  by (subst grow_levels.simps) auto

text \<open>Induction over the rounds of the loop.\<close>

lemma grow_levels_induct [consumes 1, case_names last round]:
  assumes "grow_levels C level = Inr ls"
    and "\<And>level. length level \<le> 1 \<Longrightarrow> P level [level]"
    and "\<And>level nxt above. 1 < length level \<Longrightarrow> next_level C level = Inr nxt \<Longrightarrow>
           grow_levels C nxt = Inr above \<Longrightarrow> P nxt above \<Longrightarrow> P level (level # above)"
  shows "P level ls"
  using assms(1)
proof (induction "length level" arbitrary: level ls rule: less_induct)
  case less
  show ?case
  proof (cases "1 < length level")
    case True
    then obtain nxt above where h: "next_level C level = Inr nxt" "grow_levels C nxt = Inr above"
        "ls = level # above"
      using less.prems by (auto simp: grow_levels_many)
    have "length nxt < length level" using True next_level_length [OF h(1)] by linarith
    with h less.hyps True assms(3) show ?thesis by blast
  next
    case False
    then have "ls = [level]" using less.prems by (simp add: grow_levels_single)
    with False assms(2) [of level] show ?thesis by simp
  qed
qed

lemma grow_levels_shape:
  "grow_levels C level = Inr ls \<Longrightarrow>
     ls \<noteq> [] \<and> hd ls = level \<and> (level \<noteq> [] \<longrightarrow> length (last ls) = 1)"
proof (induction rule: grow_levels_induct)
  case (last level)
  then show ?case by (cases level) auto
next
  case (round level nxt above)
  then have "nxt \<noteq> []" by (cases level rule: list.exhaust) (auto dest: next_level_length)
  with round show ?case by auto
qed

lemma grow_levels_total:
  "grow_levels C level = Inr ls \<Longrightarrow> level_total (last ls) a = level_total level a"
proof (induction rule: grow_levels_induct)
  case (round level nxt above)
  then have "above \<noteq> []" using grow_levels_shape by blast
  with round show ?case by (simp add: next_level_total)
qed simp

lemma grow_levels_Ok:
  "(\<And>a. level_total level a < 2 ^ 128) \<Longrightarrow> \<exists>ls. grow_levels C level = Inr ls"
proof (induction "length level" arbitrary: level rule: less_induct)
  case less
  show ?case
  proof (cases "1 < length level")
    case True
    obtain nxt where nxt: "next_level C level = Inr nxt" using less.prems next_level_Ok by blast
    have "length nxt < length level" using True next_level_length [OF nxt] by linarith
    moreover have "level_total nxt a < 2 ^ 128" for a
      using less.prems [of a] next_level_total [OF nxt] by simp
    ultimately obtain above where "grow_levels C nxt = Inr above" using less.hyps by blast
    with True nxt show ?thesis by (auto simp: grow_levels_many)
  next
    case False
    then show ?thesis by (simp add: grow_levels_single)
  qed
qed

subsection \<open>Built trees\<close>

lemma build_Ok_iff:
  "build C leaves = Inr t \<longleftrightarrow> leaves \<noteq> [] \<and> grow_levels C leaves = Inr (levels t)"
  by (auto simp: build_def)

lemma build_root_level:
  assumes "build C leaves = Inr t"
  shows "levels t \<noteq> [] \<and> hd (levels t) = leaves \<and> last (levels t) = [root t]"
proof -
  have h: "levels t \<noteq> []" "hd (levels t) = leaves" "length (last (levels t)) = 1"
    using assms grow_levels_shape by (auto simp: build_Ok_iff)
  from h(3) have "last (levels t) = [root t]"
    by (cases "last (levels t)") (auto simp: root_def)
  with h show ?thesis by simp
qed

lemma build_total:
  assumes "build C leaves = Inr t"
  shows "amount_of (sums (root t)) a = level_total leaves a"
proof -
  have "level_total (last (levels t)) a = level_total leaves a"
    using assms grow_levels_total [of C leaves "levels t" a] by (simp add: build_Ok_iff)
  then show ?thesis using build_root_level [OF assms] by simp
qed

text \<open>The root publishes a total for exactly the assets some leaf carries.\<close>

definition level_keys :: "node list \<Rightarrow> string set" where
  "level_keys level = (\<Union>n \<in> set level. set (bkeys (sums n)))"

lemma next_level_keys: "next_level C level = Inr nxt \<Longrightarrow> level_keys nxt = level_keys level"
proof (induction C level arbitrary: nxt rule: next_level.induct)
  case (3 C left right rest)
  obtain p ps where p: "combine C left right = Inr p" "next_level C rest = Inr ps" "nxt = p # ps"
    using "3.prems" by auto
  with "3.IH" [OF p(1,2)] show ?case by (simp add: level_keys_def combine_keys Un_assoc)
qed (simp_all add: level_keys_def)

lemma grow_levels_keys:
  "grow_levels C level = Inr ls \<Longrightarrow> level_keys (last ls) = level_keys level"
proof (induction rule: grow_levels_induct)
  case (round level nxt above)
  then have "above \<noteq> []" using grow_levels_shape by blast
  with round show ?case by (simp add: next_level_keys)
qed simp

lemma build_keys:
  assumes "build C leaves = Inr t"
  shows "set (bkeys (sums (root t))) = level_keys leaves"
proof -
  have "level_keys (last (levels t)) = level_keys leaves"
    using assms grow_levels_keys [of C leaves "levels t"] by (simp add: build_Ok_iff)
  then show ?thesis using build_root_level [OF assms] by (simp add: level_keys_def)
qed

lemma build_succeeds_iff:
  "(\<exists>t. build C leaves = Inr t) \<longleftrightarrow> leaves \<noteq> [] \<and> (\<forall>a. level_total leaves a < 2 ^ 128)"
proof
  assume "\<exists>t. build C leaves = Inr t"
  then obtain t where t: "build C leaves = Inr t" ..
  then have "level_total leaves a < 2 ^ 128" for a
    using build_total [OF t, of a] amount_of_lt [of "sums (root t)" a] by simp
  with t show "leaves \<noteq> [] \<and> (\<forall>a. level_total leaves a < 2 ^ 128)"
    by (simp add: build_Ok_iff)
next
  assume h: "leaves \<noteq> [] \<and> (\<forall>a. level_total leaves a < 2 ^ 128)"
  then obtain ls where "grow_levels C leaves = Inr ls" using grow_levels_Ok by blast
  with h have "build C leaves = Inr \<lparr>levels = ls\<rparr>" by (simp add: build_Ok_iff)
  then show "\<exists>t. build C leaves = Inr t" ..
qed

subsection \<open>Proofs of a built tree\<close>

text \<open>One step of a proof: the pair of a position combines into its parent.\<close>

lemma next_level_parent:
  "next_level C level = Inr nxt \<Longrightarrow> i < length level \<Longrightarrow>
     (if sibling_index i < length level
      then (if sibling_index i < i then combine C (level ! sibling_index i) (level ! i)
            else combine C (level ! i) (level ! sibling_index i)) = Inr (nxt ! (i div 2))
      else nxt ! (i div 2) = level ! i)"
proof (induction C level arbitrary: i nxt rule: next_level.induct)
  case (1 C)
  then show ?case by simp
next
  case (2 C n)
  then show ?case by (auto simp: sibling_index_eq)
next
  case (3 C l r rest)
  then obtain p ps where p: "combine C l r = Inr p" "next_level C rest = Inr ps" "nxt = p # ps"
    by auto
  consider "i = 0" | "i = 1" | j where "i = j + 2" "j < length rest"
    using "3.prems"(2) by (cases i; cases "i - 1") auto
  then show ?case
  proof cases
    case (3 j)
    have "sibling_index (j + 2) = sibling_index j + 2"
      by (auto simp: sibling_index_eq elim: oddE)
    then show ?thesis using "3.IH" [OF p(1,2), of j] 3 p by (simp add: nth_Cons split: if_splits)
  qed (use p in \<open>simp_all add: sibling_index_eq\<close>)
qed

lemma prove_steps_fold:
  "grow_levels C level = Inr ls \<Longrightarrow> i < length level \<Longrightarrow>
     fold_path (combine C) (level ! i) (map step_pair (prove_steps (butlast ls) i)) = Inr (hd (last ls))"
proof (induction arbitrary: i rule: grow_levels_induct)
  case (last level)
  then show ?case by (cases level) auto
next
  case (round level nxt above)
  have ne: "above \<noteq> []" using round.hyps grow_levels_shape by blast
  have "i div 2 < length nxt"
    using round.prems next_level_length [OF round.hyps(2)] by linarith
  note IH = round.IH [OF this]
  have steps: "prove_steps (butlast (level # above)) i =
      (if sibling_index i < length level
       then [\<lparr>sibling = level ! sibling_index i, sibling_on_left = (sibling_index i < i)\<rparr>] else [])
      @ prove_steps (butlast above) (i div 2)"
    using ne by (simp add: Let_def)
  note parent = next_level_parent [OF round.hyps(2) round.prems]
  have top: "hd (last (level # above)) = hd (last above)" using ne by simp
  show ?case
  proof (cases "sibling_index i < length level")
    case True
    show ?thesis
    proof (cases "sibling_index i < i")
      case left: True
      have "combine C (level ! sibling_index i) (level ! i) = Inr (nxt ! (i div 2))"
        using parent by (simp only: True left if_True)
      then show ?thesis unfolding steps top
        by (simp only: True left if_True IH step_pair_simp list.map append.simps
            fold_path.simps and_then_simps)
    next
      case right: False
      have "combine C (level ! i) (level ! sibling_index i) = Inr (nxt ! (i div 2))"
        using parent by (simp only: True right if_True if_False)
      then show ?thesis unfolding steps top
        by (simp only: True right if_True if_False IH step_pair_simp list.map append.simps
            fold_path.simps and_then_simps)
    qed
  next
    case False
    then have "nxt ! (i div 2) = level ! i" using parent by (simp only: if_False)
    then show ?thesis unfolding steps top
      using IH by (simp only: False if_False append.simps)
  qed
qed

lemma prove_complete:
  assumes "build C leaves = Inr t" "i < length leaves"
  shows "\<exists>steps. prove t i = Inr steps \<and> verify_proof C (leaves ! i) steps (root t)"
proof (intro exI conjI)
  let ?steps = "prove_steps (butlast (levels t)) i"
  have "grow_levels C leaves = Inr (levels t)" using assms(1) by (simp add: build_Ok_iff)
  then have "fold_path (combine C) (leaves ! i) (map step_pair ?steps) = Inr (root t)"
    unfolding root_def by (rule prove_steps_fold) (rule assms(2))
  then show "verify_proof C (leaves ! i) ?steps (root t)" by (simp add: verify_proof_def)
  show "prove t i = Inr ?steps"
    using build_root_level [OF assms(1)] assms(2) by (simp add: prove_def)
qed

text \<open>The number of levels is logarithmic in the number of leaves, and bounds every proof.\<close>

lemma grow_levels_depth:
  "grow_levels C level = Inr ls \<Longrightarrow> level \<noteq> [] \<Longrightarrow>
     length level \<le> 2 ^ (length ls - 1) \<and> 2 ^ (length ls - 1) < 2 * length level"
proof (induction rule: grow_levels_induct)
  case (last level)
  then show ?case by (cases level) auto
next
  case (round level nxt above)
  have len: "length nxt = (length level + 1) div 2" by (rule next_level_length [OF round.hyps(2)])
  with round.hyps(1) have "nxt \<noteq> []" by auto
  note IH = round.IH [OF this]
  obtain k where k: "length above = Suc k"
    using round.hyps(3) grow_levels_shape by (cases above) auto
  have bounds: "length nxt \<le> 2 ^ k" "2 ^ k < 2 * length nxt" using IH k by simp_all
  have "2 ^ k < length level"
  proof (cases "even (length level)")
    case True
    then have "2 * length nxt = length level" using len by (auto elim: evenE)
    with bounds show ?thesis by simp
  next
    case False
    then have "2 ^ k \<le> length level" using bounds len by (auto elim!: oddE)
    moreover have "2 ^ k \<noteq> length level"
    proof
      assume eq: "2 ^ k = length level"
      then have "k \<noteq> 0" using round.hyps(1) by (intro notI) simp
      then have "even ((2 :: nat) ^ k)" by simp
      with eq False show False by simp
    qed
    ultimately show ?thesis by simp
  qed
  moreover have "length level \<le> 2 * length nxt" using len by linarith
  ultimately show ?case using bounds k by simp
qed

lemma length_prove_steps: "length (prove_steps ls i) \<le> length ls"
  by (induction ls i rule: prove_steps.induct) (auto simp: Let_def)

subsection \<open>What a root hash binds\<close>

text \<open>Every preimage hashed while building, level by level.\<close>

fun level_preimages :: "node list \<Rightarrow> bytes list" where
  "level_preimages (l # r # rest) = node_preimage l r # level_preimages rest"
| "level_preimages _ = []"

definition tree_preimages :: "node list list \<Rightarrow> bytes list" where
  "tree_preimages ls = concat (map level_preimages ls)"

lemma length_level_preimages: "length (level_preimages level) = length level div 2"
  by (induction level rule: level_preimages.induct) auto

lemma next_level_binding:
  "next_level C level = Inr nxt \<Longrightarrow> next_level C level' = Inr nxt' \<Longrightarrow>
     length level = length level' \<Longrightarrow> map hash nxt = map hash nxt' \<Longrightarrow>
     map hash level = map hash level' \<or> exposes C (level_preimages level) (level_preimages level')"
proof (induction C level arbitrary: level' nxt nxt' rule: next_level.induct)
  case (2 C n)
  then obtain n' where "level' = [n']" by (cases level') auto
  with 2 show ?case by auto
next
  case (3 C l r rest)
  obtain l' r' rest' where level': "level' = l' # r' # rest'"
    using "3.prems"(3) by (cases level' rule: level_preimages.cases) auto
  obtain p ps where p: "combine C l r = Inr p" "next_level C rest = Inr ps" "nxt = p # ps"
    using "3.prems"(1) by auto
  obtain p' ps' where p': "combine C l' r' = Inr p'" "next_level C rest' = Inr ps'" "nxt' = p' # ps'"
    using "3.prems"(2) level' by auto
  have "sha256 C (node_preimage l r) = sha256 C (node_preimage l' r')"
    using core_rule.digest_comb [OF p(1)] core_rule.digest_comb [OF p'(1)] "3.prems"(4) p(3) p'(3)
    by simp
  then have here: "hash l = hash l' \<and> hash r = hash r' \<or> collides C (node_preimage l r) (node_preimage l' r')"
    using core_rule.pre_inj by (metis sha256_eqD)
  have "map hash rest = map hash rest' \<or> exposes C (level_preimages rest) (level_preimages rest')"
    using "3.IH" [OF p(1,2) p'(2)] "3.prems"(3,4) level' p(3) p'(3) by simp
  with here show ?case by (auto simp: level')
qed simp

lemma grow_levels_binding:
  "grow_levels C level = Inr ls \<Longrightarrow> grow_levels C level' = Inr ls' \<Longrightarrow>
     length level = length level' \<Longrightarrow> map hash (last ls) = map hash (last ls') \<Longrightarrow>
     map hash level = map hash level' \<or> exposes C (tree_preimages ls) (tree_preimages ls')"
proof (induction arbitrary: level' ls' rule: grow_levels_induct)
  case (last level)
  then have "ls' = [level']" by (simp add: grow_levels_single)
  with last show ?case by simp
next
  case (round level nxt above)
  obtain nxt' above' where r': "next_level C level' = Inr nxt'" "grow_levels C nxt' = Inr above'"
      "ls' = level' # above'"
    using round.prems round.hyps(1) by (auto simp: grow_levels_many)
  have len: "length nxt = length nxt'"
    using next_level_length [OF round.hyps(2)] next_level_length [OF r'(1)] round.prems(2) by simp
  have "above \<noteq> []" "above' \<noteq> []"
    using grow_levels_shape [OF round.hyps(3)] grow_levels_shape [OF r'(2)] by simp_all
  then have "map hash nxt = map hash nxt' \<or> exposes C (tree_preimages above) (tree_preimages above')"
    using round.prems(3) r'(3) by (intro round.IH [OF r'(2) len]) simp
  moreover have "map hash level = map hash level' \<or> exposes C (level_preimages level) (level_preimages level')"
    if "map hash nxt = map hash nxt'"
    by (rule next_level_binding [OF round.hyps(2) r'(1) round.prems(2) that])
  moreover have "length (level_preimages level) = length (level_preimages level')"
    using round.prems(2) by (simp add: length_level_preimages)
  ultimately show ?case by (auto simp: r'(3) tree_preimages_def exposes_append)
qed

lemma build_binding:
  assumes "build C leaves = Inr t" "build C leaves' = Inr t'"
    and "length leaves = length leaves'" "hash (root t) = hash (root t')"
  shows "map hash leaves = map hash leaves' \<or>
     exposes C (tree_preimages (levels t)) (tree_preimages (levels t'))"
proof (rule grow_levels_binding)
  show "map hash (last (levels t)) = map hash (last (levels t'))"
    using build_root_level [OF assms(1)] build_root_level [OF assms(2)] assms(4) by simp
qed (use assms in \<open>simp_all add: build_Ok_iff\<close>)

subsection \<open>What one inclusion proof says about the totals\<close>

text \<open>The root of an accepted proof totals at least the leaf.\<close>

lemma verify_proof_iff:
  "verify_proof C leaf steps rt \<longleftrightarrow> fold_path (combine C) leaf (map step_pair steps) = Inr rt"
  by (auto simp: verify_proof_def split: sum.splits)

lemma verified_lower_bound:
  "verify_proof C leaf steps rt \<Longrightarrow> amount_of (sums leaf) a \<le> amount_of (sums rt) a"
  unfolding verify_proof_iff by (rule core_rule.fold_lower_bound)

text \<open>
  A node hash commits to its children's hashes and to the sum of their totals, but not to
  the total of either child. A sibling's sums are therefore whatever its proof says. Given any
  two leaves and any published totals \<open>S\<close> that dominate each of them, \<open>remainder\<close> is
  the sibling total that makes a leaf add up to \<open>S\<close>.
\<close>

definition remainder :: "u128 bmap \<Rightarrow> u128 bmap \<Rightarrow> u128 bmap" where
  "remainder S m = bof_list (map (\<lambda>(a, v). (a, v - get0 m a)) (entries S))"

lemma map_fst_remainder: "map fst (map (\<lambda>(a, v). (a, v - get0 m a)) xs) = map fst xs"
  by (induction xs) auto

lemma bget_remainder: "bget (remainder S m) a = map_option (\<lambda>v. v - get0 m a) (bget S a)"
proof -
  have "map_of (map (\<lambda>(a, v). (a, v - get0 m a)) xs) a = map_option (\<lambda>v. v - get0 m a) (map_of xs a)"
    for xs by (induction xs) auto
  moreover have "bget (remainder S m) = map_of (map (\<lambda>(a, v). (a, v - get0 m a)) (entries S))"
    unfolding remainder_def
    by (rule bget_bof_list) (simp only: map_fst_remainder bm.listing_distinct)
  ultimately show ?thesis by (simp add: bget_def)
qed

lemma bkeys_remainder: "set (bkeys (remainder S m)) = set (bkeys S)"
  by (auto simp: bkeys_bget bget_remainder)

lemma amount_of_remainder:
  assumes "amount_of m a \<le> amount_of S a"
  shows "amount_of (remainder S m) a = amount_of S a - amount_of m a"
  using assms
  by (cases "bget S a") (auto simp: amount_of_def get0_def bget_remainder unat_sub word_le_nat_alt)

lemma amount_map_eqI:
  assumes "set (bkeys m) = set (bkeys n)" "\<And>a. amount_of m a = amount_of n a"
  shows "m = n"
proof (rule bm.ext, rule ext)
  fix a
  have "bget m a = None \<longleftrightarrow> bget n a = None" using assms(1) by (simp add: bget_None_iff)
  then show "bget m a = bget n a"
    using assms(2) [of a] by (cases "bget m a"; cases "bget n a") (auto simp: amount_of_def get0_def)
qed

lemma combine_sums_eq:
  assumes "combine C l r = Inr p"
    and "set (bkeys (sums l)) \<union> set (bkeys (sums r)) = set (bkeys S)"
    and "\<And>a. amount_of (sums l) a + amount_of (sums r) a = amount_of S a"
  shows "p = \<lparr>hash = sha256 C (NODE_DOMAIN @ arr32 (hash l) @ arr32 (hash r) @ sums_canonical S), sums = S\<rparr>"
proof -
  have "sums p = S"
    using combine_keys [OF assms(1)] combine_total [OF assms(1)] assms(2,3)
    by (intro amount_map_eqI) simp_all
  with assms(1) show ?thesis by (auto simp: combine_def)
qed

lemma forged_parent:
  assumes keys: "set (bkeys (sums l)) \<subseteq> set (bkeys S)"
    and dom: "\<And>a. amount_of (sums l) a \<le> amount_of S a"
  shows "combine C l \<lparr>hash = h, sums = remainder S (sums l)\<rparr> =
      Inr \<lparr>hash = sha256 C (NODE_DOMAIN @ arr32 (hash l) @ arr32 h @ sums_canonical S), sums = S\<rparr>"
    and "combine C \<lparr>hash = h, sums = remainder S (sums l)\<rparr> l =
      Inr \<lparr>hash = sha256 C (NODE_DOMAIN @ arr32 h @ arr32 (hash l) @ sums_canonical S), sums = S\<rparr>"
proof -
  let ?s = "\<lparr>hash = h, sums = remainder S (sums l)\<rparr>"
  have add: "amount_of (sums l) a + amount_of (sums ?s) a = amount_of S a" for a
    using dom [of a] by (simp add: amount_of_remainder)
  have "\<exists>p. combine C l ?s = Inr p" "\<exists>p. combine C ?s l = Inr p"
    unfolding combine_Ok_iff using add amount_of_lt [of S] by (auto simp: add.commute)
  moreover have "set (bkeys (sums l)) \<union> set (bkeys (sums ?s)) = set (bkeys S)"
    using keys by (auto simp: bkeys_remainder)
  ultimately show
    "combine C l ?s = Inr \<lparr>hash = sha256 C (NODE_DOMAIN @ arr32 (hash l) @ arr32 h @ sums_canonical S), sums = S\<rparr>"
    "combine C ?s l = Inr \<lparr>hash = sha256 C (NODE_DOMAIN @ arr32 h @ arr32 (hash l) @ sums_canonical S), sums = S\<rparr>"
    using add combine_sums_eq [of C l ?s _ S] combine_sums_eq [of C ?s l _ S]
    by (auto simp: add.commute Un_commute)
qed

text \<open>One root both leaves verify against, publishing \<open>S\<close>, however much the two leaves total.\<close>

lemma forged_root:
  fixes C :: crates
  assumes "set (bkeys (sums la)) \<subseteq> set (bkeys S)" "set (bkeys (sums lb)) \<subseteq> set (bkeys S)"
    and "\<And>a. amount_of (sums la) a \<le> amount_of S a" "\<And>a. amount_of (sums lb) a \<le> amount_of S a"
  defines "rt \<equiv> \<lparr>hash = sha256 C (NODE_DOMAIN @ arr32 (hash la) @ arr32 (hash lb) @ sums_canonical S), sums = S\<rparr>"
  shows "verify_proof C la
           [\<lparr>sibling = \<lparr>hash = hash lb, sums = remainder S (sums la)\<rparr>, sibling_on_left = False\<rparr>] rt"
    and "verify_proof C lb
           [\<lparr>sibling = \<lparr>hash = hash la, sums = remainder S (sums lb)\<rparr>, sibling_on_left = True\<rparr>] rt"
  using assms by (simp_all add: verify_proof_iff forged_parent)

end
