(* ===== verification/Verify.thy ===== *)
theory Verify
  imports Profile_Rules Sign Sum_Tree_Correct
begin

text \<open>
  The consumer side, \<open>solvency-report/src/verify.rs\<close>: the check of an inclusion proof against a
  signed report. The verifier has its own copy of the node rule, \<open>verify_combine\<close>, which is
  shown to be the core crate's and is a second interpretation of \<open>committing_rule\<close>. The
  lemmas \<open>verify_Ok_iff\<close> and \<open>verify_v2_Ok_iff\<close> say in full what an accepted proof
  has established.
\<close>

subsection \<open>Small checks\<close>

definition hash32 :: "crates \<Rightarrow> string \<Rightarrow> string \<Rightarrow> verification_failure + b32" where
  "hash32 C hex_str what = ok_or (decode32 C hex_str) (Malformed (NotHex32 what))"

definition expect_version :: "string \<Rightarrow> string \<Rightarrow> string \<Rightarrow> verification_failure + unit" where
  "expect_version field found want = ensure (found = want) (UnsupportedVersion field found)"

definition profile_error_detail :: "ProfileError \<Rightarrow> detail" where
  "profile_error_detail e = (case e of
     Unknown found \<Rightarrow> NotInRegistry found
   | Violation name what \<Rightarrow> ProfileViolated name what)"

definition validated_profile :: "Report \<Rightarrow> verification_failure + ProfileRules" where
  "validated_profile r = map_err (\<lambda>e. Profile (profile_error_detail e)) (validate r)"

definition expect_leaf_kind :: "Report \<Rightarrow> leaf_kind \<Rightarrow> verification_failure + unit" where
  "expect_leaf_kind r wanted =
     and_then (validated_profile r) (\<lambda>rules.
       ensure (rules_leaf rules = wanted) (Profile (WrongLeafKind (rules_name rules) (rules_leaf rules) wanted)))"

definition expect_leaf_v2 :: "Report \<Rightarrow> verification_failure + unit" where
  "expect_leaf_v2 r =
     and_then (validated_profile r) (\<lambda>rules.
       ensure (uses_leaf_v2 (rules_leaf rules)) (Profile (NotAV2Leaf (rules_name rules) (rules_leaf rules))))"

subsection \<open>The manifest\<close>

definition check_manifest_consistency :: "Report \<Rightarrow> Manifest \<Rightarrow> verification_failure + unit" where
  "check_manifest_consistency r m =
     for_each (\<lambda>(path, state).
       if path \<notin> set KNOWN_FIELDS then Err (ManifestInconsistent path NotAFieldOfTheFormat)
       else if path \<notin> set REPORT_RESIDENT_FIELDS then Ok ()
       else if state = Published \<and> \<not> carries_data r path
         then Err (ManifestInconsistent path PublishedWithoutData)
       else if (state = Withheld \<or> state = Committed) \<and> carries_data r path
         then Err (ManifestInconsistent path (PublishesAnyway state))
       else Ok ())
       (entries (manifest_fields m))"

definition check_report_version_and_manifest :: "Report \<Rightarrow> verification_failure + unit" where
  "check_report_version_and_manifest r =
     (if format_version r = REPORT_FORMAT_VERSION then
        ensure (manifest r = None) (ManifestPresence V1CarriesManifest)
      else if format_version r = REPORT_FORMAT_VERSION_V2 then
        and_then (ok_or (manifest r) (ManifestPresence V2WithoutManifest)) (\<lambda>m.
          check_manifest_consistency r m)
      else Err (UnsupportedVersion ''report.format_version'' (format_version r)))"

subsection \<open>The verifier's node rule\<close>

fun verify_add_sums :: "(string \<times> u128) list \<Rightarrow> u128 bmap \<Rightarrow> verification_failure + u128 bmap" where
  "verify_add_sums [] acc = Ok acc"
| "verify_add_sums ((asset, v) # rest) acc =
     and_then (ok_or (checked_add (get0 acc asset) v) (Malformed (SumOverflowOn asset))) (\<lambda>s.
       verify_add_sums rest (binsert asset s acc))"

definition verify_combine :: "crates \<Rightarrow> node \<Rightarrow> node \<Rightarrow> verification_failure + node" where
  "verify_combine C left right =
     and_then (verify_add_sums (entries (sums right)) (sums left)) (\<lambda>s.
       (let canonical = join ''|'' (map (\<lambda>(asset, v). asset @ '':'' @ format_amount_18dp v) (entries s))
        in Ok \<lparr>hash = sha256 C (''rocky-solvency-node-v1'' @ arr32 (hash left) @ arr32 (hash right) @ canonical),
               sums = s\<rparr>))"

definition verify_fold :: "crates \<Rightarrow> node \<Rightarrow> proof_step list \<Rightarrow> verification_failure + node" where
  "verify_fold C leaf steps = fold_path (verify_combine C) leaf (map step_pair steps)"

text \<open>The first asset, in the order of the chained key iterators, the two maps disagree on.\<close>

definition first_sum_disagreement :: "u128 bmap \<Rightarrow> u128 bmap \<Rightarrow> string option" where
  "first_sum_disagreement folded published =
     find (\<lambda>asset. get0 folded asset \<noteq> get0 published asset) (bkeys folded @ bkeys published)"

subsection \<open>Verification\<close>

definition signature_failure :: "signature_error \<Rightarrow> verification_failure" where
  "signature_failure e = (if e = BadSignatureUnderKey then BadSignature else Malformed (SignatureText e))"

definition decode_step :: "crates \<Rightarrow> ProofStepDocument \<Rightarrow> verification_failure + proof_step" where
  "decode_step C s =
     and_then (hash32 C (sibling_hash s) ''sibling hash'') (\<lambda>h.
       Ok \<lparr>sibling = \<lparr>hash = h, sums = sibling_sums s\<rparr>, sibling_on_left = step_on_left s\<rparr>)"

definition verify_against_report ::
  "crates \<Rightarrow> SignedReport \<Rightarrow> node \<Rightarrow> ProofStepDocument list \<Rightarrow> string \<Rightarrow> string \<Rightarrow>
     verification_failure + unit" where
  "verify_against_report C sr leaf steps expected_digest_hex trusted =
     (let r = report sr; digest = report_digest C r in
      and_then (ensure (hex_encode C (arr32 digest) = expected_digest_hex) DigestMismatch) (\<lambda>_.
      and_then (ensure (public_key (signature sr) = trusted) UnknownSigner) (\<lambda>_.
      and_then (map_err signature_failure (verify_signature C trusted digest (sig_value (signature sr)))) (\<lambda>_.
      and_then (collect_ok (decode_step C) steps) (\<lambda>ss.
      and_then (hash32 C (root_hash r) ''report root hash'') (\<lambda>rh.
      and_then (verify_fold C leaf ss) (\<lambda>folded.
      and_then (ensure (hash folded = rh) RootHashMismatch) (\<lambda>_.
        (case first_sum_disagreement (sums folded) (root_sums r) of
           Some asset \<Rightarrow> Err (RootSumsMismatch asset)
         | None \<Rightarrow> Ok ())))))))))"

definition verify :: "crates \<Rightarrow> SignedReport \<Rightarrow> ProofDocument \<Rightarrow> string \<Rightarrow> verification_failure + unit" where
  "verify C sr doc trusted =
     and_then (check_report_version_and_manifest (report sr)) (\<lambda>_.
     and_then (expect_leaf_kind (report sr) Customer) (\<lambda>_.
     and_then (expect_version ''proof.format_version'' (proof_format_version doc) PROOF_FORMAT_VERSION) (\<lambda>_.
     and_then (expect_version ''signature.algorithm'' (algorithm (signature sr)) SIGNATURE_ALGORITHM) (\<lambda>_.
     and_then (hash32 C (salt (proof_leaf doc)) ''leaf salt'') (\<lambda>slt.
     and_then (map_err (\<lambda>e. Malformed (MerkleText e))
                 (leaf_node C slt (user_id (proof_leaf doc)) (entries (balances (proof_leaf doc))))) (\<lambda>leaf.
       verify_against_report C sr leaf (proof_steps doc) (proof_report_digest doc) trusted))))))"

definition check_required_maps ::
  "ProfileRules \<Rightarrow> LeafPreimageV2 \<Rightarrow> verification_failure + unit" where
  "check_required_maps rules leaf =
     for_each (\<lambda>required.
       (let carried = (case bget (maps leaf) required of None \<Rightarrow> False | Some m \<Rightarrow> \<not> bis_empty m)
        in ensure carried (Profile (LeafLacksMap (rules_name rules) required (subject_id leaf)))))
       (required_leaf_maps rules)"

definition verify_v2 :: "crates \<Rightarrow> SignedReport \<Rightarrow> ProofDocumentV2 \<Rightarrow> string \<Rightarrow> verification_failure + unit" where
  "verify_v2 C sr doc trusted =
     and_then (check_report_version_and_manifest (report sr)) (\<lambda>_.
     and_then (expect_leaf_v2 (report sr)) (\<lambda>_.
     and_then (expect_version ''proof.format_version'' (v2_format_version doc) PROOF_FORMAT_VERSION_V2) (\<lambda>_.
     and_then (expect_version ''signature.algorithm'' (algorithm (signature sr)) SIGNATURE_ALGORITHM) (\<lambda>_.
     and_then (validated_profile (report sr)) (\<lambda>rules.
     and_then (check_required_maps rules (v2_leaf doc)) (\<lambda>_.
     and_then (hash32 C (v2_salt (v2_leaf doc)) ''leaf salt'') (\<lambda>slt.
     and_then (map_err (\<lambda>e. Malformed (MerkleText e))
                 (leaf_node_v2 C slt (subject_id (v2_leaf doc)) (maps (v2_leaf doc)))) (\<lambda>leaf.
       verify_against_report C sr leaf (v2_steps doc) (v2_report_digest doc) trusted))))))))"

subsection \<open>The verifier's node rule is the core crate's\<close>

definition overflow_failure :: "merkle_error \<Rightarrow> verification_failure" where
  "overflow_failure e = (case e of SumOverflow asset \<Rightarrow> Malformed (SumOverflowOn asset) | _ \<Rightarrow> Malformed (MerkleText e))"

lemma verify_add_sums_eq: "verify_add_sums xs acc = map_err overflow_failure (add_sums xs acc)"
  by (induction xs acc rule: add_sums.induct) (auto simp: overflow_failure_def split: option.splits)

lemma verify_combine_eq: "verify_combine C l r = map_err overflow_failure (combine C l r)"
  by (cases "add_sums (entries (sums r)) (sums l)")
    (simp_all add: verify_combine_def combine_def verify_add_sums_eq NODE_DOMAIN_def
      sums_canonical_def render_entry_def Let_def)

lemma fold_path_map_err:
  "fold_path (\<lambda>l r. map_err f (comb l r)) n steps = map_err f (fold_path comb n steps)"
proof (induction steps arbitrary: n)
  case (Cons s steps)
  obtain sib b where "s = (sib, b)" by (cases s)
  with Cons show ?case
    by (cases b; cases "comb sib n"; cases "comb n sib") simp_all
qed simp

lemma verify_fold_eq: "verify_fold C leaf steps = map_err overflow_failure (fold_path (combine C) leaf (map step_pair steps))"
proof -
  have "verify_combine C = (\<lambda>l r. map_err overflow_failure (combine C l r))"
    by (intro ext verify_combine_eq)
  then show ?thesis by (simp add: verify_fold_def fold_path_map_err)
qed

interpretation verify_rule: committing_rule "verify_combine C" "\<lambda>n a. amount_of (sums n) a" hash node_preimage C
  for C
  by unfold_locales
    (auto simp: verify_combine_eq combine_total core_rule.digest_comb dest: core_rule.pre_inj)


subsection \<open>What an accepted document has established\<close>

definition manifest_consistent :: "Report \<Rightarrow> Manifest \<Rightarrow> bool" where
  "manifest_consistent r m \<longleftrightarrow>
     (\<forall>(path, state) \<in> set (entries (manifest_fields m)).
        path \<in> set KNOWN_FIELDS \<and>
        (path \<in> set REPORT_RESIDENT_FIELDS \<longrightarrow> (state = Published \<longleftrightarrow> carries_data r path)))"

definition well_formed_report :: "Report \<Rightarrow> bool" where
  "well_formed_report r \<longleftrightarrow>
     format_version r = REPORT_FORMAT_VERSION \<and> manifest r = None \<or>
     format_version r = REPORT_FORMAT_VERSION_V2 \<and> (\<exists>m. manifest r = Some m \<and> manifest_consistent r m)"

definition report_authentic :: "crates \<Rightarrow> SignedReport \<Rightarrow> string \<Rightarrow> bool" where
  "report_authentic C sr trusted \<longleftrightarrow>
     public_key (signature sr) = trusted \<and>
     verify_signature C trusted (report_digest C (report sr)) (sig_value (signature sr)) = Ok ()"

definition path_reaches :: "crates \<Rightarrow> node \<Rightarrow> ProofStepDocument list \<Rightarrow> Report \<Rightarrow> bool" where
  "path_reaches C leaf steps r \<longleftrightarrow>
     (\<exists>ss folded. list_all2 (\<lambda>s p. decode_step C s = Ok p) steps ss \<and>
        fold_path (combine C) leaf (map step_pair ss) = Ok folded \<and>
        decode32 C (root_hash r) = Some (hash folded) \<and>
        (\<forall>a. amount_of (sums folded) a = amount_of (root_sums r) a))"

lemma check_manifest_consistency_Ok_iff:
  "check_manifest_consistency r m = Ok u \<longleftrightarrow> manifest_consistent r m"
proof -
  have "(if path \<notin> set KNOWN_FIELDS then Err (ManifestInconsistent path NotAFieldOfTheFormat)
       else if path \<notin> set REPORT_RESIDENT_FIELDS then Ok ()
       else if state = Published \<and> \<not> carries_data r path
         then Err (ManifestInconsistent path PublishedWithoutData)
       else if (state = Withheld \<or> state = Committed) \<and> carries_data r path
         then Err (ManifestInconsistent path (PublishesAnyway state))
       else Ok ()) = Ok () \<longleftrightarrow>
     path \<in> set KNOWN_FIELDS \<and>
        (path \<in> set REPORT_RESIDENT_FIELDS \<longrightarrow> (state = Published \<longleftrightarrow> carries_data r path))"
    for path state by (cases state) auto
  then show ?thesis
    unfolding check_manifest_consistency_def manifest_consistent_def for_each_Ok_iff split_beta by simp
qed

lemma check_report_version_and_manifest_Ok_iff:
  "check_report_version_and_manifest r = Ok u \<longleftrightarrow> well_formed_report r"
  by (auto simp: check_report_version_and_manifest_def well_formed_report_def
      check_manifest_consistency_Ok_iff)

lemma first_sum_disagreement_None:
  "first_sum_disagreement f p = None \<longleftrightarrow> (\<forall>a. amount_of f a = amount_of p a)"
proof -
  have "first_sum_disagreement f p = None \<longleftrightarrow> (\<forall>a \<in> set (bkeys f) \<union> set (bkeys p). get0 f a = get0 p a)"
    by (auto simp: first_sum_disagreement_def find_None_iff)
  also have "\<dots> \<longleftrightarrow> (\<forall>a. get0 f a = get0 p a)"
  proof -
    have "get0 f a = get0 p a" if "a \<notin> set (bkeys f) \<union> set (bkeys p)" for a
      using that by (simp add: get0_def bget_None_iff [THEN iffD2])
    then show ?thesis by blast
  qed
  finally show ?thesis by (simp add: amount_of_def)
qed

lemma verify_against_report_Ok_iff:
  "verify_against_report C sr leaf steps digest_hex trusted = Ok u \<longleftrightarrow>
     digest_hex = report_digest_hex C (report sr) \<and> report_authentic C sr trusted \<and>
     path_reaches C leaf steps (report sr)"
proof -
  have "(case first_sum_disagreement f p of None \<Rightarrow> Ok () | Some a \<Rightarrow> Err (RootSumsMismatch a)) = Ok u \<longleftrightarrow>
      (\<forall>a. amount_of f a = amount_of p a)" for f p u
    by (auto simp: first_sum_disagreement_None [symmetric] split: option.splits)
  then show ?thesis
    by (auto simp: verify_against_report_def Let_def report_authentic_def path_reaches_def
        report_digest_hex_def hash32_def collect_ok_Ok_iff verify_fold_eq)
qed

lemma expect_leaf_kind_Ok_iff:
  "expect_leaf_kind r kind = Ok u \<longleftrightarrow> (\<exists>rules. validate r = Ok rules \<and> rules_leaf rules = kind)"
  by (auto simp: expect_leaf_kind_def validated_profile_def)

lemma expect_leaf_v2_Ok_iff:
  "expect_leaf_v2 r = Ok u \<longleftrightarrow> (\<exists>rules. validate r = Ok rules \<and> uses_leaf_v2 (rules_leaf rules))"
  by (auto simp: expect_leaf_v2_def validated_profile_def)

lemma expect_version_Ok_iff: "expect_version field found want = Ok u \<longleftrightarrow> found = want"
  by (simp add: expect_version_def)

lemma verify_Ok_iff:
  "verify C sr doc trusted = Ok u \<longleftrightarrow>
     well_formed_report (report sr) \<and>
     (\<exists>rules. validate (report sr) = Ok rules \<and> rules_leaf rules = Customer) \<and>
     proof_format_version doc = PROOF_FORMAT_VERSION \<and>
     algorithm (signature sr) = SIGNATURE_ALGORITHM \<and>
     proof_report_digest doc = report_digest_hex C (report sr) \<and>
     report_authentic C sr trusted \<and>
     (\<exists>slt leaf. decode32 C (salt (proof_leaf doc)) = Some slt \<and>
        leaf_node C slt (user_id (proof_leaf doc)) (entries (balances (proof_leaf doc))) = Ok leaf \<and>
        path_reaches C leaf (proof_steps doc) (report sr))"
  by (auto simp: verify_def check_report_version_and_manifest_Ok_iff expect_leaf_kind_Ok_iff
      expect_version_Ok_iff hash32_def verify_against_report_Ok_iff)

definition required_maps_carried :: "ProfileRules \<Rightarrow> LeafPreimageV2 \<Rightarrow> bool" where
  "required_maps_carried rules leaf \<longleftrightarrow>
     (\<forall>m \<in> set (required_leaf_maps rules). \<exists>am. bget (maps leaf) m = Some am \<and> \<not> bis_empty am)"

lemma check_required_maps_Ok_iff:
  "check_required_maps rules leaf = Ok u \<longleftrightarrow> required_maps_carried rules leaf"
  by (auto simp: check_required_maps_def required_maps_carried_def Let_def split: option.splits)

lemma verify_v2_Ok_iff:
  "verify_v2 C sr doc trusted = Ok u \<longleftrightarrow>
     well_formed_report (report sr) \<and>
     (\<exists>rules. validate (report sr) = Ok rules \<and> uses_leaf_v2 (rules_leaf rules) \<and>
        required_maps_carried rules (v2_leaf doc)) \<and>
     v2_format_version doc = PROOF_FORMAT_VERSION_V2 \<and>
     algorithm (signature sr) = SIGNATURE_ALGORITHM \<and>
     v2_report_digest doc = report_digest_hex C (report sr) \<and>
     report_authentic C sr trusted \<and>
     (\<exists>slt leaf. decode32 C (v2_salt (v2_leaf doc)) = Some slt \<and>
        leaf_node_v2 C slt (subject_id (v2_leaf doc)) (maps (v2_leaf doc)) = Ok leaf \<and>
        path_reaches C leaf (v2_steps doc) (report sr))"
  by (auto simp: verify_v2_def check_report_version_and_manifest_Ok_iff expect_leaf_v2_Ok_iff
      validated_profile_def expect_version_Ok_iff hash32_def verify_against_report_Ok_iff
      check_required_maps_Ok_iff)

text \<open>An accepted path bounds the published totals from below by the leaf.\<close>

lemma path_lower_bound:
  "path_reaches C leaf steps r \<Longrightarrow> amount_of (sums leaf) a \<le> amount_of (root_sums r) a"
  by (auto simp: path_reaches_def dest!: core_rule.fold_lower_bound [where a = a])

end
