(* ===== verification/Produce.thy ===== *)
theory Produce
  imports Verify
begin

text \<open>
  The producer side, \<open>solvency-report/src/produce.rs\<close>: \<open>publish\<close> and \<open>publish_v2\<close> turn
  leaves into a signed report and one proof document per leaf, \<open>publish_for_audiences\<close> repeats
  that under several manifests. The lemmas show that what is published verifies.
\<close>

subsection \<open>Inputs and outputs\<close>

record LeafInput =
  in_salt :: b32
  in_user_id :: string
  in_balances :: "u128 bmap"

record LeafInputV2 =
  in2_salt :: b32
  in2_subject_id :: string
  in2_maps :: "u128 bmap bmap"

record ReportMetadata =
  meta_profile :: string
  meta_publisher :: string
  meta_snapshot_time :: string
  meta_ledger_offset :: string
  meta_mark_prices :: "u128 bmap"
  meta_disclosures :: Disclosures
  meta_manifest :: "Manifest option"

record Publication =
  signed_report :: SignedReport
  proofs :: "ProofDocument list"

record PublicationV2 =
  signed_report_v2 :: SignedReport
  proofs_v2 :: "ProofDocumentV2 list"

text \<open>The \<open>anyhow\<close> errors of this module.\<close>

datatype publish_error =
    NoLeavesToPublish
  | NoEntitiesToPublish
  | PublishMerkle merkle_error
  | NoAudience
  | DuplicateAudience

subsection \<open>The report of a tree\<close>

definition report_of ::
  "crates \<Rightarrow> ReportMetadata \<Rightarrow> string \<Rightarrow> nat \<Rightarrow> node \<Rightarrow> Report" where
  "report_of C meta prof count rt = \<lparr>
     format_version = (if meta_manifest meta \<noteq> None then REPORT_FORMAT_VERSION_V2 else REPORT_FORMAT_VERSION),
     profile = prof,
     publisher = meta_publisher meta,
     snapshot_time = meta_snapshot_time meta,
     ledger_offset = meta_ledger_offset meta,
     root_hash = hex_encode C (arr32 (hash rt)),
     leaf_count = of_nat count,
     root_sums = sums rt,
     mark_prices = meta_mark_prices meta,
     disclosures = meta_disclosures meta,
     manifest = meta_manifest meta\<rparr>"

definition sign_report :: "crates \<Rightarrow> ReportSigner \<Rightarrow> Report \<Rightarrow> SignedReport" where
  "sign_report C signer r = \<lparr>
     report = r,
     signature = \<lparr>
       algorithm = SIGNATURE_ALGORITHM,
       public_key = public_key_hex C signer,
       sig_value = sign_digest C signer (report_digest C r)\<rparr>\<rparr>"

definition step_document :: "crates \<Rightarrow> proof_step \<Rightarrow> ProofStepDocument" where
  "step_document C s = \<lparr>
     sibling_hash = hex_encode C (arr32 (hash (sibling s))),
     sibling_sums = sums (sibling s),
     step_on_left = sibling_on_left s\<rparr>"

subsection \<open>Publishing\<close>

definition publish ::
  "crates \<Rightarrow> LeafInput list \<Rightarrow> ReportMetadata \<Rightarrow> ReportSigner \<Rightarrow> publish_error + Publication" where
  "publish C leaves meta signer =
     and_then (ensure (leaves \<noteq> []) NoLeavesToPublish) (\<lambda>_.
     and_then (map_err PublishMerkle (collect_ok (\<lambda>l.
         leaf_node C (in_salt l) (in_user_id l) (entries (in_balances l))) leaves)) (\<lambda>nodes.
     and_then (map_err PublishMerkle (build C nodes)) (\<lambda>tree.
     (let r = report_of C meta (meta_profile meta) (length leaves) (root tree);
          digest_hex = hex_encode C (arr32 (report_digest C r)) in
      and_then (collect_ok (\<lambda>(i, leaf).
          and_then (map_err PublishMerkle (prove tree i)) (\<lambda>steps.
            Ok \<lparr>proof_format_version = PROOF_FORMAT_VERSION,
                proof_report_digest = digest_hex,
                proof_leaf = \<lparr>salt = hex_encode C (arr32 (in_salt leaf)),
                              user_id = in_user_id leaf,
                              balances = in_balances leaf\<rparr>,
                proof_steps = map (step_document C) steps\<rparr>))
          (List.enumerate 0 leaves)) (\<lambda>ps.
        Ok \<lparr>signed_report = sign_report C signer r, proofs = ps\<rparr>)))))"

definition publish_v2 ::
  "crates \<Rightarrow> LeafInputV2 list \<Rightarrow> ReportMetadata \<Rightarrow> ReportSigner \<Rightarrow> publish_error + PublicationV2" where
  "publish_v2 C leaves meta signer =
     and_then (ensure (leaves \<noteq> []) NoLeavesToPublish) (\<lambda>_.
     and_then (map_err PublishMerkle (collect_ok (\<lambda>l.
         leaf_node_v2 C (in2_salt l) (in2_subject_id l) (in2_maps l)) leaves)) (\<lambda>nodes.
     and_then (map_err PublishMerkle (build C nodes)) (\<lambda>tree.
     (let r = report_of C meta (meta_profile meta) (length leaves) (root tree);
          digest_hex = hex_encode C (arr32 (report_digest C r)) in
      and_then (collect_ok (\<lambda>(i, leaf).
          and_then (map_err PublishMerkle (prove tree i)) (\<lambda>steps.
            Ok \<lparr>v2_format_version = PROOF_FORMAT_VERSION_V2,
                v2_report_digest = digest_hex,
                v2_leaf = \<lparr>v2_salt = hex_encode C (arr32 (in2_salt leaf)),
                           subject_id = in2_subject_id leaf,
                           maps = in2_maps leaf\<rparr>,
                v2_steps = map (step_document C) steps\<rparr>))
          (List.enumerate 0 leaves)) (\<lambda>ps.
        Ok \<lparr>signed_report_v2 = sign_report C signer r, proofs_v2 = ps\<rparr>)))))"

definition publish_for_audiences ::
  "crates \<Rightarrow> LeafInput list \<Rightarrow> ReportMetadata \<Rightarrow> Manifest list \<Rightarrow> ReportSigner \<Rightarrow>
     publish_error + Publication list" where
  "publish_for_audiences C leaves meta manifests signer =
     and_then (ensure (manifests \<noteq> []) NoAudience) (\<lambda>_.
     (let audiences = map audience manifests;
          distinct_count = length (sort_dedup audiences) in
      and_then (ensure (distinct_count = length manifests) DuplicateAudience) (\<lambda>_.
        collect_ok (\<lambda>m. publish C leaves (meta\<lparr>meta_manifest := Some m\<rparr>) signer) manifests)))"

definition same_commitment :: "Report \<Rightarrow> Report \<Rightarrow> bool" where
  "same_commitment a b \<longleftrightarrow>
     root_hash a = root_hash b \<and> root_sums a = root_sums b \<and> leaf_count a = leaf_count b"


subsection \<open>Honest paths verify\<close>

lemma decode_step_document:
  "hex_spec C \<Longrightarrow> decode_step C (step_document C s) = Ok s"
  by (simp add: decode_step_def step_document_def hash32_def decode32_encode)

lemma own_report_authentic:
  "hex_spec C \<Longrightarrow> ed25519_spec C \<Longrightarrow> report_authentic C (sign_report C signer r) (public_key_hex C signer)"
  by (simp add: report_authentic_def sign_report_def own_signature_verifies)

lemma honest_path_reaches:
  assumes "hex_spec C" "build C nodes = Ok t" "i < length nodes" "prove t i = Ok steps"
    and "root_hash r = hex_encode C (arr32 (hash (root t)))" "root_sums r = sums (root t)"
  shows "path_reaches C (nodes ! i) (map (step_document C) steps) r"
proof -
  have "list_all2 (\<lambda>s p. decode_step C s = Ok p) (map (step_document C) steps) steps"
    using assms(1) by (simp add: list.rel_map decode_step_document list.rel_refl)
  moreover have "fold_path (combine C) (nodes ! i) (map step_pair steps) = Ok (root t)"
    using prove_complete [OF assms(2,3)] assms(4) by (simp add: verify_proof_iff)
  moreover have "decode32 C (root_hash r) = Some (hash (root t))"
    using assms(1,5) by (simp add: decode32_encode)
  ultimately show ?thesis using assms(6) unfolding path_reaches_def by auto
qed

text \<open>Proving every leaf of a built tree in turn, as the three producers do.\<close>

lemma collect_proofs_Ok_iff:
  "collect_ok (\<lambda>(i, leaf). and_then (map_err PublishMerkle (prove t i)) (\<lambda>steps. Ok (doc leaf steps)))
       (List.enumerate 0 leaves) = Ok ps \<longleftrightarrow>
     length ps = length leaves \<and>
     (\<forall>i < length leaves. \<exists>steps. prove t i = Ok steps \<and> ps ! i = doc (leaves ! i) steps)"
  unfolding collect_ok_Ok_iff
  by (auto simp: list_all2_conv_all_nth nth_enumerate_eq)

lemma collect_proofs_total:
  assumes "build C nodes = Ok t" "length nodes = length leaves"
  shows "\<exists>ps. collect_ok (\<lambda>(i, leaf). and_then (map_err PublishMerkle (prove t i)) (\<lambda>steps. Ok (doc leaf steps)))
       (List.enumerate 0 leaves) = Ok ps"
proof -
  have "\<forall>i. \<exists>steps. i < length leaves \<longrightarrow> prove t i = Ok steps"
    using prove_complete [OF assms(1)] assms(2) by metis
  then obtain p where "\<forall>i < length leaves. prove t i = Ok (p i)" by metis
  then have "collect_ok (\<lambda>(i, leaf). and_then (map_err PublishMerkle (prove t i)) (\<lambda>steps. Ok (doc leaf steps)))
      (List.enumerate 0 leaves) = Ok (map (\<lambda>i. doc (leaves ! i) (p i)) [0..<length leaves])"
    by (simp add: collect_proofs_Ok_iff)
  then show ?thesis by blast
qed

subsection \<open>What \<open>publish\<close> returns\<close>

definition input_node :: "crates \<Rightarrow> LeafInput \<Rightarrow> node" where
  "input_node C l =
     \<lparr>hash = sha256 C (LEAF_DOMAIN @ arr32 (in_salt l) @ arr32 (sha256 C (in_user_id l)) @
               sums_canonical (in_balances l)),
      sums = in_balances l\<rparr>"

definition input_document :: "crates \<Rightarrow> Report \<Rightarrow> LeafInput \<Rightarrow> proof_step list \<Rightarrow> ProofDocument" where
  "input_document C r l steps =
     \<lparr>proof_format_version = PROOF_FORMAT_VERSION,
      proof_report_digest = report_digest_hex C r,
      proof_leaf = \<lparr>salt = hex_encode C (arr32 (in_salt l)), user_id = in_user_id l, balances = in_balances l\<rparr>,
      proof_steps = map (step_document C) steps\<rparr>"

lemma input_leaf_node:
  "leaf_node C (in_salt l) (in_user_id l) (entries (in_balances l)) = Ok (input_node C l)"
  by (simp add: leaf_node_Ok_iff input_node_def bm.listing_distinct)

lemma publish_Ok_iff:
  "publish C leaves meta signer = Ok pub \<longleftrightarrow>
     (\<exists>t. build C (map (input_node C) leaves) = Ok t \<and>
        signed_report pub = sign_report C signer (report_of C meta (meta_profile meta) (length leaves) (root t)) \<and>
        length (proofs pub) = length leaves \<and>
        (\<forall>i < length leaves. \<exists>steps. prove t i = Ok steps \<and>
           proofs pub ! i = input_document C (report (signed_report pub)) (leaves ! i) steps))"
proof -
  have "collect_ok (\<lambda>l. leaf_node C (in_salt l) (in_user_id l) (entries (in_balances l))) leaves =
      Ok (map (input_node C) leaves)"
    by (simp add: input_leaf_node)
  moreover have "leaves \<noteq> []" if "build C (map (input_node C) leaves) = Ok t" for t
    using that by (auto simp: build_Ok_iff)
  ultimately show ?thesis
    by (cases pub)
      (auto simp: publish_def Let_def collect_proofs_Ok_iff input_document_def sign_report_def
        report_digest_hex_def)
qed

lemma publish_succeeds_iff:
  "(\<exists>pub. publish C leaves meta signer = Ok pub) \<longleftrightarrow>
     leaves \<noteq> [] \<and> (\<forall>a. (\<Sum>l \<leftarrow> leaves. amount_of (in_balances l) a) < 2 ^ 128)"
proof -
  let ?nodes = "map (input_node C) leaves"
  have "(\<exists>pub. publish C leaves meta signer = Ok pub) \<longleftrightarrow> (\<exists>t. build C ?nodes = Ok t)"
  proof
    assume "\<exists>t. build C ?nodes = Ok t"
    then obtain t where t: "build C ?nodes = Ok t" ..
    then have "leaves \<noteq> []" by (auto simp: build_Ok_iff)
    with t collect_proofs_total [OF t, of leaves] show "\<exists>pub. publish C leaves meta signer = Ok pub"
      by (simp add: publish_def Let_def input_leaf_node)
  qed (auto simp: publish_Ok_iff)
  moreover have "level_total ?nodes a = (\<Sum>l \<leftarrow> leaves. amount_of (in_balances l) a)" for a
    by (simp add: level_total_def comp_def input_node_def)
  ultimately show ?thesis by (simp add: build_succeeds_iff)
qed

text \<open>Every published proof verifies, exactly when the report itself is acceptable.\<close>

lemma publish_verifies_iff:
  assumes "hex_spec C" "ed25519_spec C" "publish C leaves meta signer = Ok pub" "i < length leaves"
  shows "verify C (signed_report pub) (proofs pub ! i) (public_key_hex C signer) = Ok () \<longleftrightarrow>
     well_formed_report (report (signed_report pub)) \<and>
     (\<exists>rules. validate (report (signed_report pub)) = Ok rules \<and> rules_leaf rules = Customer)"
proof -
  let ?sr = "signed_report pub" and ?l = "leaves ! i"
  obtain t steps where t: "build C (map (input_node C) leaves) = Ok t"
      and sr: "?sr = sign_report C signer (report_of C meta (meta_profile meta) (length leaves) (root t))"
      and steps: "prove t i = Ok steps" "proofs pub ! i = input_document C (report ?sr) ?l steps"
    using assms(3,4) by (auto simp: publish_Ok_iff)
  have "path_reaches C (input_node C ?l) (map (step_document C) steps) (report ?sr)"
    using honest_path_reaches [OF assms(1) t _ steps(1), of "report ?sr"] assms(4) sr
    by (simp add: sign_report_def report_of_def)
  moreover have "report_authentic C ?sr (public_key_hex C signer)"
    unfolding sr using assms(1,2) by (rule own_report_authentic)
  moreover have "algorithm (signature ?sr) = SIGNATURE_ALGORITHM"
    by (simp add: sr sign_report_def)
  ultimately show ?thesis
    using assms(1) by (simp add: verify_Ok_iff steps(2) input_document_def decode32_encode input_leaf_node)
qed


text \<open>What makes a published report acceptable.\<close>

lemma published_report:
  assumes "publish C leaves meta signer = Ok pub"
  shows "manifest (report (signed_report pub)) = meta_manifest meta"
    and "profile (report (signed_report pub)) = meta_profile meta"
    and "set (bkeys (root_sums (report (signed_report pub)))) = (\<Union>l \<in> set leaves. set (bkeys (in_balances l)))"
    and "amount_of (root_sums (report (signed_report pub))) a = (\<Sum>l \<leftarrow> leaves. amount_of (in_balances l) a)"
    and "leaf_count (report (signed_report pub)) = of_nat (length leaves)"
proof -
  obtain t where t: "build C (map (input_node C) leaves) = Ok t"
      and sr: "signed_report pub = sign_report C signer (report_of C meta (meta_profile meta) (length leaves) (root t))"
    using assms by (auto simp: publish_Ok_iff)
  have "level_total (map (input_node C) leaves) a = (\<Sum>l \<leftarrow> leaves. amount_of (in_balances l) a)"
    by (simp add: level_total_def comp_def input_node_def)
  then show "manifest (report (signed_report pub)) = meta_manifest meta"
    and "profile (report (signed_report pub)) = meta_profile meta"
    and "set (bkeys (root_sums (report (signed_report pub)))) = (\<Union>l \<in> set leaves. set (bkeys (in_balances l)))"
    and "amount_of (root_sums (report (signed_report pub))) a = (\<Sum>l \<leftarrow> leaves. amount_of (in_balances l) a)"
    and "leaf_count (report (signed_report pub)) = of_nat (length leaves)"
    using build_keys [OF t] build_total [OF t, of a]
    by (simp_all add: sr sign_report_def report_of_def level_keys_def input_node_def)
qed

lemma published_well_formed:
  assumes "publish C leaves meta signer = Ok pub"
  shows "well_formed_report (report (signed_report pub)) \<longleftrightarrow>
     (\<forall>m. meta_manifest meta = Some m \<longrightarrow> manifest_consistent (report (signed_report pub)) m)"
proof -
  have "format_version (report (signed_report pub)) =
      (if meta_manifest meta \<noteq> None then REPORT_FORMAT_VERSION_V2 else REPORT_FORMAT_VERSION)"
    using assms by (auto simp: publish_Ok_iff sign_report_def report_of_def)
  then show ?thesis
    using published_report(1) [OF assms]
    by (cases "meta_manifest meta") (auto simp: well_formed_report_def)
qed

subsection \<open>What \<open>publish_v2\<close> returns\<close>

definition input_node_v2 :: "crates \<Rightarrow> LeafInputV2 \<Rightarrow> node" where
  "input_node_v2 C l =
     \<lparr>hash = sha256 C (leaf_preimage_v2 C (in2_salt l) (in2_subject_id l) (in2_maps l)),
      sums = flatten_maps (in2_maps l)\<rparr>"

definition input_document_v2 :: "crates \<Rightarrow> Report \<Rightarrow> LeafInputV2 \<Rightarrow> proof_step list \<Rightarrow> ProofDocumentV2" where
  "input_document_v2 C r l steps =
     \<lparr>v2_format_version = PROOF_FORMAT_VERSION_V2,
      v2_report_digest = report_digest_hex C r,
      v2_leaf = \<lparr>v2_salt = hex_encode C (arr32 (in2_salt l)), subject_id = in2_subject_id l, maps = in2_maps l\<rparr>,
      v2_steps = map (step_document C) steps\<rparr>"

lemma collect_leaves_v2_Ok_iff:
  "collect_ok (\<lambda>l. leaf_node_v2 C (in2_salt l) (in2_subject_id l) (in2_maps l)) leaves = Ok nodes \<longleftrightarrow>
     (\<forall>l \<in> set leaves. safe_maps (in2_maps l)) \<and> nodes = map (input_node_v2 C) leaves"
  by (induction leaves arbitrary: nodes) (auto simp: leaf_node_v2_Ok_iff input_node_v2_def)

lemma publish_v2_Ok_iff:
  "publish_v2 C leaves meta signer = Ok pub \<longleftrightarrow>
     (\<forall>l \<in> set leaves. safe_maps (in2_maps l)) \<and>
     (\<exists>t. build C (map (input_node_v2 C) leaves) = Ok t \<and>
        signed_report_v2 pub = sign_report C signer (report_of C meta (meta_profile meta) (length leaves) (root t)) \<and>
        length (proofs_v2 pub) = length leaves \<and>
        (\<forall>i < length leaves. \<exists>steps. prove t i = Ok steps \<and>
           proofs_v2 pub ! i = input_document_v2 C (report (signed_report_v2 pub)) (leaves ! i) steps))"
proof -
  have "leaves \<noteq> []" if "build C (map (input_node_v2 C) leaves) = Ok t" for t
    using that by (auto simp: build_Ok_iff)
  then show ?thesis
    by (cases pub)
      (auto simp: publish_v2_def Let_def collect_proofs_Ok_iff input_document_v2_def sign_report_def
        report_digest_hex_def collect_leaves_v2_Ok_iff)
qed

lemma publish_v2_succeeds_iff:
  "(\<exists>pub. publish_v2 C leaves meta signer = Ok pub) \<longleftrightarrow>
     leaves \<noteq> [] \<and> (\<forall>l \<in> set leaves. safe_maps (in2_maps l)) \<and>
     (\<forall>k. (\<Sum>l \<leftarrow> leaves. amount_of (flatten_maps (in2_maps l)) k) < 2 ^ 128)"
proof -
  let ?nodes = "map (input_node_v2 C) leaves"
  have "(\<exists>pub. publish_v2 C leaves meta signer = Ok pub) \<longleftrightarrow>
      (\<forall>l \<in> set leaves. safe_maps (in2_maps l)) \<and> (\<exists>t. build C ?nodes = Ok t)"
  proof
    assume "(\<forall>l \<in> set leaves. safe_maps (in2_maps l)) \<and> (\<exists>t. build C ?nodes = Ok t)"
    then obtain t where t: "build C ?nodes = Ok t" and safe: "\<forall>l \<in> set leaves. safe_maps (in2_maps l)"
      by blast
    then have "leaves \<noteq> []" by (auto simp: build_Ok_iff)
    moreover have "collect_ok (\<lambda>l. leaf_node_v2 C (in2_salt l) (in2_subject_id l) (in2_maps l)) leaves = Ok ?nodes"
      using safe by (simp add: collect_leaves_v2_Ok_iff)
    ultimately show "\<exists>pub. publish_v2 C leaves meta signer = Ok pub"
      using t collect_proofs_total [OF t, of leaves] by (simp add: publish_v2_def Let_def)
  qed (auto simp: publish_v2_Ok_iff)
  moreover have "level_total ?nodes k = (\<Sum>l \<leftarrow> leaves. amount_of (flatten_maps (in2_maps l)) k)" for k
    by (simp add: level_total_def comp_def input_node_v2_def)
  ultimately show ?thesis by (auto simp: build_succeeds_iff)
qed

lemma published_report_v2:
  assumes "publish_v2 C leaves meta signer = Ok pub"
  shows "manifest (report (signed_report_v2 pub)) = meta_manifest meta"
    and "profile (report (signed_report_v2 pub)) = meta_profile meta"
    and "format_version (report (signed_report_v2 pub)) =
      (if meta_manifest meta \<noteq> None then REPORT_FORMAT_VERSION_V2 else REPORT_FORMAT_VERSION)"
    and "set (bkeys (root_sums (report (signed_report_v2 pub)))) =
      (\<Union>l \<in> set leaves. set (bkeys (flatten_maps (in2_maps l))))"
    and "amount_of (root_sums (report (signed_report_v2 pub))) k =
      (\<Sum>l \<leftarrow> leaves. amount_of (flatten_maps (in2_maps l)) k)"
    and "leaf_count (report (signed_report_v2 pub)) = of_nat (length leaves)"
proof -
  obtain t where t: "build C (map (input_node_v2 C) leaves) = Ok t"
      and sr: "signed_report_v2 pub = sign_report C signer (report_of C meta (meta_profile meta) (length leaves) (root t))"
    using assms by (auto simp: publish_v2_Ok_iff)
  have "level_total (map (input_node_v2 C) leaves) k = (\<Sum>l \<leftarrow> leaves. amount_of (flatten_maps (in2_maps l)) k)"
    by (simp add: level_total_def comp_def input_node_v2_def)
  then show "manifest (report (signed_report_v2 pub)) = meta_manifest meta"
    and "profile (report (signed_report_v2 pub)) = meta_profile meta"
    and "format_version (report (signed_report_v2 pub)) =
      (if meta_manifest meta \<noteq> None then REPORT_FORMAT_VERSION_V2 else REPORT_FORMAT_VERSION)"
    and "set (bkeys (root_sums (report (signed_report_v2 pub)))) =
      (\<Union>l \<in> set leaves. set (bkeys (flatten_maps (in2_maps l))))"
    and "amount_of (root_sums (report (signed_report_v2 pub))) k =
      (\<Sum>l \<leftarrow> leaves. amount_of (flatten_maps (in2_maps l)) k)"
    and "leaf_count (report (signed_report_v2 pub)) = of_nat (length leaves)"
    using build_keys [OF t] build_total [OF t, of k]
    by (simp_all add: sr sign_report_def report_of_def level_keys_def input_node_v2_def)
qed

text \<open>
  A published v2 proof verifies exactly when the report is acceptable and the leaf carries the
  maps its profile requires: a settled trade that lacks a leg can be published, not verified.
\<close>

lemma publish_v2_verifies_iff:
  assumes "hex_spec C" "ed25519_spec C" "publish_v2 C leaves meta signer = Ok pub" "i < length leaves"
  shows "verify_v2 C (signed_report_v2 pub) (proofs_v2 pub ! i) (public_key_hex C signer) = Ok () \<longleftrightarrow>
     well_formed_report (report (signed_report_v2 pub)) \<and>
     (\<exists>rules. validate (report (signed_report_v2 pub)) = Ok rules \<and> uses_leaf_v2 (rules_leaf rules) \<and>
        (\<forall>m \<in> set (required_leaf_maps rules).
           \<exists>am. bget (in2_maps (leaves ! i)) m = Some am \<and> \<not> bis_empty am))"
proof -
  let ?sr = "signed_report_v2 pub" and ?l = "leaves ! i"
  obtain t steps where t: "build C (map (input_node_v2 C) leaves) = Ok t"
      and sr: "?sr = sign_report C signer (report_of C meta (meta_profile meta) (length leaves) (root t))"
      and steps: "prove t i = Ok steps" "proofs_v2 pub ! i = input_document_v2 C (report ?sr) ?l steps"
      and safe: "safe_maps (in2_maps ?l)"
    using assms(3,4) by (auto simp: publish_v2_Ok_iff)
  have "path_reaches C (input_node_v2 C ?l) (map (step_document C) steps) (report ?sr)"
    using honest_path_reaches [OF assms(1) t _ steps(1), of "report ?sr"] assms(4) sr
    by (simp add: sign_report_def report_of_def)
  moreover have "leaf_node_v2 C (in2_salt ?l) (in2_subject_id ?l) (in2_maps ?l) = Ok (input_node_v2 C ?l)"
    using safe by (simp add: leaf_node_v2_Ok_iff input_node_v2_def)
  moreover have "report_authentic C ?sr (public_key_hex C signer)"
    unfolding sr using assms(1,2) by (rule own_report_authentic)
  moreover have "algorithm (signature ?sr) = SIGNATURE_ALGORITHM"
    by (simp add: sr sign_report_def)
  ultimately show ?thesis
    using assms(1)
    by (simp add: verify_v2_Ok_iff steps(2) input_document_v2_def decode32_encode required_maps_carried_def)
qed

subsection \<open>Packagings for several audiences\<close>

lemma publish_for_audiences_Ok_iff:
  "publish_for_audiences C leaves meta manifests signer = Ok pubs \<longleftrightarrow>
     manifests \<noteq> [] \<and> distinct (map audience manifests) \<and>
     list_all2 (\<lambda>m pub. publish C leaves (meta\<lparr>meta_manifest := Some m\<rparr>) signer = Ok pub) manifests pubs"
proof -
  have "length (sort_dedup (map audience manifests)) = length manifests \<longleftrightarrow> distinct (map audience manifests)"
    using length_sort_dedup [of "map audience manifests"] by simp
  then show ?thesis by (auto simp: publish_for_audiences_def Let_def collect_ok_Ok_iff)
qed

lemma publish_for_audiences_succeeds:
  assumes "manifests \<noteq> []" "distinct (map audience manifests)" "leaves \<noteq> []"
    and "\<And>a. (\<Sum>l \<leftarrow> leaves. amount_of (in_balances l) a) < 2 ^ 128"
  shows "\<exists>pubs. publish_for_audiences C leaves meta manifests signer = Ok pubs"
proof -
  have "\<forall>m. \<exists>pub. publish C leaves (meta\<lparr>meta_manifest := Some m\<rparr>) signer = Ok pub"
    using assms(3,4) by (simp add: publish_succeeds_iff)
  then obtain f where "\<forall>m. publish C leaves (meta\<lparr>meta_manifest := Some m\<rparr>) signer = Ok (f m)" by metis
  then have "publish_for_audiences C leaves meta manifests signer = Ok (map f manifests)"
    using assms(1,2) by (simp add: publish_for_audiences_Ok_iff list.rel_map list.rel_refl)
  then show ?thesis by blast
qed

text \<open>Packagings of one book commit to one root; what differs is the manifest, and it is signed.\<close>

lemma packagings_same_commitment:
  assumes "publish_for_audiences C leaves meta manifests signer = Ok pubs"
    and "i < length pubs" "j < length pubs"
  shows "same_commitment (report (signed_report (pubs ! i))) (report (signed_report (pubs ! j)))"
    and "manifest (report (signed_report (pubs ! i))) = Some (manifests ! i)"
    and "length pubs = length manifests"
proof -
  have all2: "list_all2 (\<lambda>m pub. publish C leaves (meta\<lparr>meta_manifest := Some m\<rparr>) signer = Ok pub) manifests pubs"
    using assms(1) by (simp add: publish_for_audiences_Ok_iff)
  then show len: "length pubs = length manifests" by (simp add: list_all2_lengthD)
  have pub: "publish C leaves (meta\<lparr>meta_manifest := Some (manifests ! k)\<rparr>) signer = Ok (pubs ! k)"
    if "k < length pubs" for k
    using all2 that by (simp add: list_all2_conv_all_nth)
  have "\<exists>t. build C (map (input_node C) leaves) = Ok t \<and>
      report (signed_report (pubs ! k)) =
        report_of C (meta\<lparr>meta_manifest := Some (manifests ! k)\<rparr>) (meta_profile meta) (length leaves) (root t)"
    if "k < length pubs" for k
    using pub [OF that] by (auto simp: publish_Ok_iff sign_report_def)
  from this [OF assms(2)] this [OF assms(3)]
  show "same_commitment (report (signed_report (pubs ! i))) (report (signed_report (pubs ! j)))"
    and "manifest (report (signed_report (pubs ! i))) = Some (manifests ! i)"
    by (auto simp: same_commitment_def report_of_def)
qed

end
