(* ===== verification/Group.thy ===== *)
theory Group
  imports Produce
begin

text \<open>
  Group commitments, \<open>solvency-report/src/group.rs\<close>: a sum tree whose leaves are entities,
  \<open>publish_group\<close>, \<open>verify_membership\<close> and \<open>verify_chain\<close>, which follows a customer
  through the entity's report to the consolidated total.
\<close>

definition ENTITY_DOMAIN :: bytes where "ENTITY_DOMAIN = ''rocky-solvency-entity-v1''"
definition GROUP_MEMBERSHIP_FORMAT_VERSION :: string where
  "GROUP_MEMBERSHIP_FORMAT_VERSION = ''canton-solvency-group-membership-v1''"
definition GROUP_PROFILE :: string where "GROUP_PROFILE = ''solvency.group''"

record EntityInput =
  in_entity_id :: string
  in_root_hash :: b32
  in_root_sums :: "u128 bmap"

definition entity_preimage :: "EntityInput \<Rightarrow> bytes" where
  "entity_preimage e = ENTITY_DOMAIN @ lp (in_entity_id e) @ arr32 (in_root_hash e) @ lpmap (in_root_sums e)"

definition entity_leaf_node :: "crates \<Rightarrow> EntityInput \<Rightarrow> node" where
  "entity_leaf_node C e = \<lparr>hash = sha256 C (entity_preimage e), sums = in_root_sums e\<rparr>"

record EntityRecord =
  entity_id :: string
  entity_root_hash :: string
  entity_root_sums :: "u128 bmap"

record GroupMembershipDocument =
  membership_format_version :: string
  group_report_digest :: string
  member_entity :: EntityRecord
  membership_steps :: "ProofStepDocument list"

record GroupPublication =
  group_signed_report :: SignedReport
  memberships :: "GroupMembershipDocument list"

definition publish_group ::
  "crates \<Rightarrow> EntityInput list \<Rightarrow> ReportMetadata \<Rightarrow> ReportSigner \<Rightarrow> publish_error + GroupPublication" where
  "publish_group C entities meta signer =
     and_then (ensure (entities \<noteq> []) NoEntitiesToPublish) (\<lambda>_.
     and_then (map_err PublishMerkle (build C (map (entity_leaf_node C) entities))) (\<lambda>tree.
     (let r = report_of C meta GROUP_PROFILE (length entities) (root tree);
          digest_hex = hex_encode C (arr32 (report_digest C r)) in
      and_then (collect_ok (\<lambda>(i, entity).
          and_then (map_err PublishMerkle (prove tree i)) (\<lambda>steps.
            Ok \<lparr>membership_format_version = GROUP_MEMBERSHIP_FORMAT_VERSION,
                group_report_digest = digest_hex,
                member_entity = \<lparr>entity_id = in_entity_id entity,
                          entity_root_hash = hex_encode C (arr32 (in_root_hash entity)),
                          entity_root_sums = in_root_sums entity\<rparr>,
                membership_steps = map (step_document C) steps\<rparr>))
          (List.enumerate 0 entities)) (\<lambda>ms.
        Ok \<lparr>group_signed_report = sign_report C signer r, memberships = ms\<rparr>))))"

definition verify_membership ::
  "crates \<Rightarrow> SignedReport \<Rightarrow> GroupMembershipDocument \<Rightarrow> string \<Rightarrow> verification_failure + unit" where
  "verify_membership C sr doc trusted =
     and_then (expect_version ''membership.format_version'' (membership_format_version doc)
                 GROUP_MEMBERSHIP_FORMAT_VERSION) (\<lambda>_.
     and_then (expect_leaf_kind (report sr) Entity) (\<lambda>_.
     and_then (hash32 C (entity_root_hash (member_entity doc)) ''entity root hash'') (\<lambda>rh.
       verify_against_report C sr
         (entity_leaf_node C \<lparr>in_entity_id = entity_id (member_entity doc), in_root_hash = rh,
                              in_root_sums = entity_root_sums (member_entity doc)\<rparr>)
         (membership_steps doc) (group_report_digest doc) trusted)))"

definition verify_chain ::
  "crates \<Rightarrow> SignedReport \<Rightarrow> GroupMembershipDocument \<Rightarrow> SignedReport \<Rightarrow> ProofDocument \<Rightarrow>
     string \<Rightarrow> string \<Rightarrow> verification_failure + unit" where
  "verify_chain C group_sr doc entity_sr proof group_key entity_key =
     and_then (verify C entity_sr proof entity_key) (\<lambda>_.
     and_then (verify_membership C group_sr doc group_key) (\<lambda>_.
     (let er = report entity_sr; e = member_entity doc in
      and_then (ensure (entity_root_hash e = root_hash er) EntityRootMismatch) (\<lambda>_.
        for_each (\<lambda>asset.
          ensure (get0 (entity_root_sums e) asset = get0 (root_sums er) asset) (EntitySumsMismatch asset))
          (bkeys (entity_root_sums e) @ bkeys (root_sums er))))))"

subsection \<open>Entity leaves\<close>

definition fits_entity :: "EntityInput \<Rightarrow> bool" where
  "fits_entity e \<longleftrightarrow> fits (in_entity_id e) \<and> fits_map (in_root_sums e)"

interpretation entity_code: digest_of entity_preimage fits_entity id
  by unfold_locales
    (simp add: entity_preimage_def fits_entity_def lp_code.cut_iff lpmap_code.injective)

lemma entity_leaf_binds:
  "fits_entity x \<Longrightarrow> fits_entity y \<Longrightarrow> hash (entity_leaf_node C x) = hash (entity_leaf_node C y) \<Longrightarrow>
     x = y \<or> collides C (entity_preimage x) (entity_preimage y)"
  using entity_code.digest_binds [of x y C] by (simp add: entity_leaf_node_def)

subsection \<open>Publishing and verifying\<close>

definition entity_document :: "crates \<Rightarrow> Report \<Rightarrow> EntityInput \<Rightarrow> proof_step list \<Rightarrow> GroupMembershipDocument" where
  "entity_document C r e steps =
     \<lparr>membership_format_version = GROUP_MEMBERSHIP_FORMAT_VERSION,
      group_report_digest = report_digest_hex C r,
      member_entity = \<lparr>entity_id = in_entity_id e, entity_root_hash = hex_encode C (arr32 (in_root_hash e)),
                       entity_root_sums = in_root_sums e\<rparr>,
      membership_steps = map (step_document C) steps\<rparr>"

lemma publish_group_Ok_iff:
  "publish_group C entities meta signer = Ok pub \<longleftrightarrow>
     (\<exists>t. build C (map (entity_leaf_node C) entities) = Ok t \<and>
        group_signed_report pub = sign_report C signer (report_of C meta GROUP_PROFILE (length entities) (root t)) \<and>
        length (memberships pub) = length entities \<and>
        (\<forall>i < length entities. \<exists>steps. prove t i = Ok steps \<and>
           memberships pub ! i = entity_document C (report (group_signed_report pub)) (entities ! i) steps))"
proof -
  have "entities \<noteq> []" if "build C (map (entity_leaf_node C) entities) = Ok t" for t
    using that by (auto simp: build_Ok_iff)
  then show ?thesis
    by (cases pub)
      (auto simp: publish_group_def Let_def collect_proofs_Ok_iff entity_document_def sign_report_def
        report_digest_hex_def)
qed

lemma publish_group_succeeds_iff:
  "(\<exists>pub. publish_group C entities meta signer = Ok pub) \<longleftrightarrow>
     entities \<noteq> [] \<and> (\<forall>a. (\<Sum>e \<leftarrow> entities. amount_of (in_root_sums e) a) < 2 ^ 128)"
proof -
  let ?nodes = "map (entity_leaf_node C) entities"
  have "(\<exists>pub. publish_group C entities meta signer = Ok pub) \<longleftrightarrow> (\<exists>t. build C ?nodes = Ok t)"
  proof
    assume "\<exists>t. build C ?nodes = Ok t"
    then obtain t where t: "build C ?nodes = Ok t" ..
    then have "entities \<noteq> []" by (auto simp: build_Ok_iff)
    with t collect_proofs_total [OF t, of entities] show "\<exists>pub. publish_group C entities meta signer = Ok pub"
      by (simp add: publish_group_def Let_def)
  qed (auto simp: publish_group_Ok_iff)
  moreover have "level_total ?nodes a = (\<Sum>e \<leftarrow> entities. amount_of (in_root_sums e) a)" for a
    by (simp add: level_total_def comp_def entity_leaf_node_def)
  ultimately show ?thesis by (simp add: build_succeeds_iff)
qed

lemma verify_membership_Ok_iff:
  "verify_membership C sr doc trusted = Ok u \<longleftrightarrow>
     membership_format_version doc = GROUP_MEMBERSHIP_FORMAT_VERSION \<and>
     (\<exists>rules. validate (report sr) = Ok rules \<and> rules_leaf rules = Entity) \<and>
     group_report_digest doc = report_digest_hex C (report sr) \<and>
     report_authentic C sr trusted \<and>
     (\<exists>rh. decode32 C (entity_root_hash (member_entity doc)) = Some rh \<and>
        path_reaches C
          (entity_leaf_node C \<lparr>in_entity_id = entity_id (member_entity doc), in_root_hash = rh,
             in_root_sums = entity_root_sums (member_entity doc)\<rparr>)
          (membership_steps doc) (report sr))"
  by (auto simp: verify_membership_def expect_leaf_kind_Ok_iff expect_version_Ok_iff hash32_def
      verify_against_report_Ok_iff)

lemma entity_eta [simp]:
  "\<lparr>in_entity_id = in_entity_id e, in_root_hash = in_root_hash e, in_root_sums = in_root_sums e\<rparr> = e"
  by simp

lemma publish_group_verifies_iff:
  assumes "hex_spec C" "ed25519_spec C" "publish_group C entities meta signer = Ok pub" "i < length entities"
  shows "verify_membership C (group_signed_report pub) (memberships pub ! i) (public_key_hex C signer) = Ok () \<longleftrightarrow>
     (\<exists>e \<in> set entities. \<not> bis_empty (in_root_sums e))"
proof -
  let ?sr = "group_signed_report pub" and ?e = "entities ! i"
  obtain t steps where t: "build C (map (entity_leaf_node C) entities) = Ok t"
      and sr: "?sr = sign_report C signer (report_of C meta GROUP_PROFILE (length entities) (root t))"
      and steps: "prove t i = Ok steps" "memberships pub ! i = entity_document C (report ?sr) ?e steps"
    using assms(3,4) by (auto simp: publish_group_Ok_iff)
  have path: "path_reaches C (entity_leaf_node C ?e) (map (step_document C) steps) (report ?sr)"
    using honest_path_reaches [OF assms(1) t _ steps(1), of "report ?sr"] assms(4) sr
    by (simp add: sign_report_def report_of_def)
  have auth: "report_authentic C ?sr (public_key_hex C signer)"
    unfolding sr using assms(1,2) by (rule own_report_authentic)
  have "(\<exists>rules. validate (report ?sr) = Ok rules \<and> rules_leaf rules = Entity) \<longleftrightarrow> \<not> bis_empty (sums (root t))"
    by (subst validate_group) (simp_all add: sr sign_report_def report_of_def GROUP_PROFILE_def)
  also have "\<dots> \<longleftrightarrow> (\<exists>e \<in> set entities. \<not> bis_empty (in_root_sums e))"
    using build_keys [OF t] by (auto simp: level_keys_def entity_leaf_node_def bis_empty_iff)
  finally show ?thesis
    using path auth assms(1) by (simp add: verify_membership_Ok_iff steps(2) entity_document_def decode32_encode)
qed


subsection \<open>Customer to group\<close>

lemma verify_chain_Ok_iff:
  "verify_chain C group_sr doc entity_sr proof group_key entity_key = Ok u \<longleftrightarrow>
     verify C entity_sr proof entity_key = Ok () \<and>
     verify_membership C group_sr doc group_key = Ok () \<and>
     entity_root_hash (member_entity doc) = root_hash (report entity_sr) \<and>
     (\<forall>a. amount_of (entity_root_sums (member_entity doc)) a = amount_of (root_sums (report entity_sr)) a)"
proof -
  have "(\<forall>a \<in> set (bkeys m @ bkeys n). get0 m a = get0 n a) \<longleftrightarrow> (\<forall>a. amount_of m a = amount_of n a)" for m n
  proof -
    have "get0 m a = get0 n a" if "a \<notin> set (bkeys m @ bkeys n)" for a
      using that by (simp add: get0_def bget_None_iff [THEN iffD2])
    then show ?thesis unfolding amount_of_def unat_inj by blast
  qed
  then show ?thesis by (auto simp: verify_chain_def Let_def)
qed

text \<open>A verified chain bounds the consolidated totals from below by the customer's balance.\<close>

lemma verify_chain_lower_bound:
  assumes "verify_chain C group_sr doc entity_sr proof group_key entity_key = Ok u"
  shows "amount_of (balances (proof_leaf proof)) a \<le> amount_of (root_sums (report entity_sr)) a"
    and "amount_of (root_sums (report entity_sr)) a \<le> amount_of (root_sums (report group_sr)) a"
proof -
  have "verify C entity_sr proof entity_key = Ok ()" "verify_membership C group_sr doc group_key = Ok ()"
    and same: "amount_of (entity_root_sums (member_entity doc)) a = amount_of (root_sums (report entity_sr)) a"
    using assms by (simp_all add: verify_chain_Ok_iff)
  then show "amount_of (balances (proof_leaf proof)) a \<le> amount_of (root_sums (report entity_sr)) a"
    by (auto simp: verify_Ok_iff leaf_node_Ok_iff dest!: path_lower_bound [of _ _ _ _ a])
  show "amount_of (root_sums (report entity_sr)) a \<le> amount_of (root_sums (report group_sr)) a"
    using \<open>verify_membership C group_sr doc group_key = Ok ()\<close> same
    by (auto simp: verify_membership_Ok_iff entity_leaf_node_def dest!: path_lower_bound [of _ _ _ _ a])
qed

text \<open>An honest entity in an honest group.\<close>

lemma honest_chain:
  assumes "hex_spec C" "ed25519_spec C"
    and "publish C leaves emeta esigner = Ok epub" "i < length leaves"
    and "meta_profile emeta = ''solvency.liabilities''" "meta_manifest emeta = None"
    and "\<exists>l \<in> set leaves. \<not> bis_empty (in_balances l)"
    and "publish_group C entities gmeta gsigner = Ok gpub" "j < length entities"
    and "decode32 C (root_hash (report (signed_report epub))) = Some (in_root_hash (entities ! j))"
    and "in_root_sums (entities ! j) = root_sums (report (signed_report epub))"
  shows "verify_chain C (group_signed_report gpub) (memberships gpub ! j) (signed_report epub) (proofs epub ! i)
    (public_key_hex C gsigner) (public_key_hex C esigner) = Ok ()"
proof -
  let ?er = "report (signed_report epub)"
  have nonempty: "\<not> bis_empty (root_sums ?er)"
    using assms(7) published_report(3) [OF assms(3)] by (auto simp: bis_empty_iff)
  have "verify C (signed_report epub) (proofs epub ! i) (public_key_hex C esigner) = Ok ()"
    using nonempty assms(5,6) published_well_formed [OF assms(3)] published_report(2) [OF assms(3)]
    by (subst publish_verifies_iff [OF assms(1-4)], subst validate_liabilities) simp_all
  moreover have "\<exists>e \<in> set entities. \<not> bis_empty (in_root_sums e)"
    using nonempty assms(9,11) by (metis nth_mem)
  then have "verify_membership C (group_signed_report gpub) (memberships gpub ! j) (public_key_hex C gsigner) = Ok ()"
    using publish_group_verifies_iff [OF assms(1,2,8,9)] by blast
  moreover obtain h where "root_hash ?er = hex_encode C (arr32 h)"
    using assms(3) by (auto simp: publish_Ok_iff sign_report_def report_of_def)
  moreover from this assms(1,10) have "h = in_root_hash (entities ! j)" by (simp add: decode32_encode)
  moreover obtain steps where "memberships gpub ! j =
      entity_document C (report (group_signed_report gpub)) (entities ! j) steps"
    using assms(8,9) by (auto simp: publish_group_Ok_iff)
  ultimately show ?thesis using assms(11) by (simp add: verify_chain_Ok_iff entity_document_def)
qed

text \<open>
  Memberships are checked without the version and manifest checks of \<open>verify\<close>: a v1 group
  report is accepted with any manifest beside it, which its digest does not cover.
\<close>

lemma membership_ignores_v1_manifest:
  assumes "format_version (report sr) = REPORT_FORMAT_VERSION"
  shows "verify_membership C (sr\<lparr>report := (report sr)\<lparr>manifest := m\<rparr>\<rparr>) doc key = verify_membership C sr doc key"
proof -
  let ?sr = "sr\<lparr>report := (report sr)\<lparr>manifest := m\<rparr>\<rparr>"
  have "report_digest C (report ?sr) = report_digest C (report sr)"
    using assms by (simp add: report_digest_def report_preimage_def is_v2_report_def)
  moreover have "validate (report ?sr) = validate (report sr)"
    by (simp add: validate_manifest)
  ultimately show ?thesis
    by (simp add: verify_membership_def expect_leaf_kind_def validated_profile_def verify_against_report_def
        Let_def cong: option.case_cong)
qed

end
