(* ===== verification/Verifier_Limits.thy ===== *)
theory Verifier_Limits
  imports Group
begin

text \<open>
  What an accepted proof does not establish. A node hash commits to the hashes of its children
  and to the sum of their totals, so the totals of a sibling in a proof are whatever the proof
  says: \<open>understating_report\<close> publishes any totals that dominate each of two customers
  separately, and both of their proofs verify. \<open>fake_unanimity\<close> is the same gap one level up:
  a profile that asserts something of every leaf looks at a total only.
\<close>

subsection \<open>Totals below the sum of the leaves\<close>

definition forged_node :: "crates \<Rightarrow> node \<Rightarrow> node \<Rightarrow> u128 bmap \<Rightarrow> node" where
  "forged_node C la lb S =
     \<lparr>hash = sha256 C (NODE_DOMAIN @ arr32 (hash la) @ arr32 (hash lb) @ sums_canonical S), sums = S\<rparr>"

definition understating_report ::
  "crates \<Rightarrow> ReportMetadata \<Rightarrow> ReportSigner \<Rightarrow> LeafInput \<Rightarrow> LeafInput \<Rightarrow> u128 bmap \<Rightarrow> SignedReport" where
  "understating_report C meta signer a b S =
     sign_report C signer
       (report_of C meta (meta_profile meta) 2 (forged_node C (input_node C a) (input_node C b) S))"

text \<open>The proof handed to one customer: the other's hash, with the totals that are left over.\<close>

definition understating_step :: "crates \<Rightarrow> LeafInput \<Rightarrow> LeafInput \<Rightarrow> u128 bmap \<Rightarrow> bool \<Rightarrow> proof_step" where
  "understating_step C own other S on_left =
     \<lparr>sibling = \<lparr>hash = hash (input_node C other), sums = remainder S (in_balances own)\<rparr>,
      sibling_on_left = on_left\<rparr>"

lemma understated_proofs_verify:
  fixes signer :: ReportSigner
  assumes "hex_spec C" "ed25519_spec C"
    and "meta_profile meta = ''solvency.liabilities''" "meta_manifest meta = None" "\<not> bis_empty S"
    and keys: "set (bkeys (in_balances a)) \<subseteq> set (bkeys S)" "set (bkeys (in_balances b)) \<subseteq> set (bkeys S)"
    and dom: "\<And>x. amount_of (in_balances a) x \<le> amount_of S x" "\<And>x. amount_of (in_balances b) x \<le> amount_of S x"
  defines "sr \<equiv> understating_report C meta signer a b S"
  shows "verify C sr (input_document C (report sr) a [understating_step C a b S False]) (public_key_hex C signer) = Ok ()"
    and "verify C sr (input_document C (report sr) b [understating_step C b a S True]) (public_key_hex C signer) = Ok ()"
proof -
  let ?r = "report sr" and ?rt = "forged_node C (input_node C a) (input_node C b) S"
  have r: "?r = report_of C meta (meta_profile meta) 2 ?rt" by (simp add: sr_def understating_report_def sign_report_def)
  have wf: "well_formed_report ?r" using assms(4) by (simp add: r report_of_def well_formed_report_def)
  have cust: "\<exists>rules. validate ?r = Ok rules \<and> rules_leaf rules = Customer"
    using assms(3,5) by (subst validate_liabilities) (simp_all add: r report_of_def forged_node_def)
  have auth: "report_authentic C sr (public_key_hex C signer)"
    unfolding sr_def understating_report_def using assms(1,2) by (rule own_report_authentic)
  have sums: "sums (input_node C l) = in_balances l" for l by (simp add: input_node_def)
  have paths: "verify_proof C (input_node C a) [understating_step C a b S False] ?rt"
    "verify_proof C (input_node C b) [understating_step C b a S True] ?rt"
    using forged_root [of "input_node C a" S "input_node C b" C] keys dom
    by (simp_all add: sums understating_step_def forged_node_def)
  have reach: "path_reaches C n (map (step_document C) steps) ?r" if "verify_proof C n steps ?rt" for n steps
  proof -
    have "list_all2 (\<lambda>s p. decode_step C s = Ok p) (map (step_document C) steps) steps"
      using assms(1) by (simp add: list.rel_map decode_step_document list.rel_refl)
    with that show ?thesis
      using assms(1) by (auto simp: path_reaches_def verify_proof_iff r report_of_def decode32_encode)
  qed
  have "algorithm (signature sr) = SIGNATURE_ALGORITHM"
    by (simp add: sr_def understating_report_def sign_report_def)
  then show "verify C sr (input_document C ?r a [understating_step C a b S False]) (public_key_hex C signer) = Ok ()"
    and "verify C sr (input_document C ?r b [understating_step C b a S True]) (public_key_hex C signer) = Ok ()"
    using assms(1) wf cust auth reach [OF paths(1)] reach [OF paths(2)]
    by (simp_all add: verify_Ok_iff input_document_def decode32_encode input_leaf_node)
qed


subsection \<open>A rule that not every leaf satisfies\<close>

definition holder :: "b32 \<Rightarrow> string \<Rightarrow> u128 \<Rightarrow> LeafInputV2" where
  "holder slt name v = \<lparr>in2_salt = slt, in2_subject_id = name,
     in2_maps = bof_list [(''attested'', bof_list [(''kyc'', v)])]\<rparr>"

lemma holder_maps:
  "flatten_maps (in2_maps (holder slt name v)) = bof_list [(''attested/kyc'', v)]"
  "safe_maps (in2_maps (holder slt name v))"
  by (simp_all add: flatten_maps_bof_list flat_listing_def holder_def qualified_key_def safe_maps_def
      is_safe_name_def is_ascii_alphanumeric_def)

lemma fake_unanimity:
  assumes "hex_spec C" "ed25519_spec C"
    and "meta_profile meta = ''eligibility.holder''" "meta_manifest meta = None"
  shows "\<exists>pub. publish_v2 C [holder s1 n1 (2 * ONE), holder s2 n2 0] meta signer = Ok pub \<and>
     (\<forall>i < 2. verify_v2 C (signed_report_v2 pub) (proofs_v2 pub ! i) (public_key_hex C signer) = Ok ())"
proof -
  let ?leaves = "[holder s1 n1 (2 * ONE), holder s2 n2 0]"
  have two: "unat (2 * ONE) = 2 * 10 ^ 18" by (simp add: ONE_def)
  then obtain pub where pub: "publish_v2 C ?leaves meta signer = Ok pub"
    using publish_v2_succeeds_iff [of C ?leaves meta signer] by (auto simp: holder_maps amount_of_single)
  let ?r = "report (signed_report_v2 pub)"
  have keys: "set (bkeys (root_sums ?r)) = {''attested/kyc''}"
    by (simp add: published_report_v2(4) [OF pub] holder_maps)
  have total: "amount_of (root_sums ?r) ''attested/kyc'' = 2 * 10 ^ 18"
    by (simp add: published_report_v2(5) [OF pub] holder_maps amount_of_single two)
  have "validate ?r = Ok ELIGIBILITY_HOLDER"
  proof -
    have "lookup_profile (profile ?r) = Some ELIGIBILITY_HOLDER"
      using assms(3) by (simp add: published_report_v2(2) [OF pub] lookup_profile_def REGISTRY_def profile_defs)
    moreover have "aggregates_present ?r ELIGIBILITY_HOLDER"
      using keys by (auto simp: aggregates_present_def aggregate_present_def ELIGIBILITY_HOLDER_def
          ends_with_def starts_with_def list_ex_iff)
    moreover have "coverage_holds ?r ELIGIBILITY_HOLDER"
      by (simp add: coverage_holds_def ELIGIBILITY_HOLDER_def)
    moreover have "unat v = 2 * 10 ^ 18" if "bget (root_sums ?r) k = Some v" for k v
    proof -
      from that have "k \<in> set (bkeys (root_sums ?r))" by (simp add: bkeys_bget)
      then have "k = ''attested/kyc''" using keys by blast
      with that total show ?thesis by (simp add: amount_of_def get0_def)
    qed
    then have "unanimity_holds ?r ELIGIBILITY_HOLDER"
      by (auto simp: unanimity_holds_def ELIGIBILITY_HOLDER_def published_report_v2(6) [OF pub])
    ultimately show ?thesis by (simp add: validate_Ok_iff)
  qed
  moreover have "well_formed_report ?r"
    using assms(4) by (simp add: well_formed_report_def published_report_v2(1,3) [OF pub])
  moreover have "\<exists>am. bget (in2_maps (?leaves ! i)) ''attested'' = Some am \<and> \<not> bis_empty am" if "i < 2" for i
    using that by (cases i) (auto simp: holder_def bget_bof_list bis_empty_def)
  ultimately have "verify_v2 C (signed_report_v2 pub) (proofs_v2 pub ! i) (public_key_hex C signer) = Ok ()"
    if "i < 2" for i
    using that publish_v2_verifies_iff [OF assms(1,2) pub, of i]
    by (simp add: ELIGIBILITY_HOLDER_def uses_leaf_v2_def)
  with pub show ?thesis by blast
qed

end
