(* ===== verification/Sample_Crates.thy ===== *)
theory Sample_Crates
  imports Sign
begin

text \<open>
  A concrete instance of the record \<open>crates\<close>, on which the examples of the development are
  evaluated. The hexadecimal codec is the real one; the hash and the signature are toys that
  meet the documented behaviour \<open>ed25519_spec\<close> asks for and nothing more.
\<close>

definition hex_digit :: "nat \<Rightarrow> char" where
  "hex_digit d = (if d < 10 then char_of (48 + d) else char_of (87 + d))"

definition hex_value :: "char \<Rightarrow> nat option" where
  "hex_value c =
     (if 48 \<le> code c \<and> code c \<le> 57 then Some (code c - 48)
      else if 97 \<le> code c \<and> code c \<le> 102 then Some (code c - 87)
      else if 65 \<le> code c \<and> code c \<le> 70 then Some (code c - 55)
      else None)"

fun hex_of :: "bytes \<Rightarrow> string" where
  "hex_of [] = []"
| "hex_of (b # bs) = hex_digit (code b div 16) # hex_digit (code b mod 16) # hex_of bs"

fun unhex :: "string \<Rightarrow> bytes option" where
  "unhex [] = Some []"
| "unhex [_] = None"
| "unhex (a # b # rest) =
     Option.bind (hex_value a) (\<lambda>x.
     Option.bind (hex_value b) (\<lambda>y.
       map_option (\<lambda>bs. char_of (16 * x + y) # bs) (unhex rest)))"

definition toy_sign :: "b32 \<Rightarrow> bytes \<Rightarrow> b64" where
  "toy_sign key msg = mk64 (arr32 key @ msg)"

definition sample_crates :: crates where
  "sample_crates = \<lparr>
     sha256 = (\<lambda>bs. mk32 (rev bs)),
     hmac_sha256 = (\<lambda>key msg. mk32 (msg @ key)),
     hex_encode = hex_of,
     hex_decode = unhex,
     ed_verifying_key = (\<lambda>s. s),
     ed_sign = toy_sign,
     ed_key_valid = (\<lambda>_. True),
     ed_verify = (\<lambda>key msg sig. sig = toy_sign key msg)\<rparr>"

lemma hex_value_digit: "d < 16 \<Longrightarrow> hex_value (hex_digit d) = Some d"
  by (simp add: hex_digit_def hex_value_def of_char_of)

lemma unhex_hex_of: "unhex (hex_of bs) = Some bs"
proof (induction bs)
  case (Cons b bs)
  have "code b div 16 < 16" "code b mod 16 < 16"
    using nat_of_char_less_256 [of b] by (simp_all add: less_mult_imp_div_less)
  moreover have "16 * (code b div 16) + code b mod 16 = code b" by simp
  ultimately show ?case using Cons by (simp add: hex_value_digit)
qed simp

lemma length_hex_of: "length (hex_of bs) = 2 * length bs"
  by (induction bs) simp_all

lemma sample_hex_spec: "hex_spec sample_crates"
  by (simp add: hex_spec_def sample_crates_def unhex_hex_of)

lemma sample_hex_lower: "hex_lower sample_crates"
proof -
  have "\<forall>d < 16. hex_digit d \<in> set ''0123456789abcdef''"
    by (simp add: hex_digit_def All_less_Suc numeral_eq_Suc) code_simp
  moreover have "code b div 16 < 16" "code b mod 16 < 16" for b
    using nat_of_char_less_256 [of b] by (simp_all add: less_mult_imp_div_less)
  ultimately have digit: "hex_digit (code b div 16) \<in> set ''0123456789abcdef''"
      "hex_digit (code b mod 16) \<in> set ''0123456789abcdef''" for b
    by blast+
  have "set (hex_of bs) \<subseteq> set ''0123456789abcdef''" for bs
  proof (induction bs)
    case (Cons b bs)
    then show ?case using digit [of b] by (simp only: hex_of.simps list.set(2) insert_subset)
  qed simp
  then show ?thesis unfolding hex_lower_def by (simp only: sample_crates_def crates.simps) blast
qed

lemma sample_ed25519_spec: "ed25519_spec sample_crates"
  by (simp add: ed25519_spec_def sample_crates_def)


text \<open>The toy hash looks at the last 32 bytes only, so its collisions are easy to write down.\<close>

lemma sample_sha_tail:
  assumes "32 \<le> length q"
  shows "sha256 sample_crates (p @ q) = sha256 sample_crates (p' @ q)"
proof -
  have "arr32 (mk32 (rev (p @ q))) = take 32 (rev q)" for p
    using assms by simp
  then have "mk32 (rev (p @ q)) = mk32 (rev (p' @ q))" by (metis arr32_inject)
  then show ?thesis by (simp add: sample_crates_def)
qed

end
