(* ===== verification/Samples.thy ===== *)
theory Samples
  imports Verifier_Limits Sample_Crates
begin

text \<open>
  A small venue on which the properties are evaluated: three customers, a report without a
  manifest and one with, and the two settled trades of a v2 report.
\<close>

definition alice :: LeafInput where
  "alice = \<lparr>in_salt = mk32 ''salt-a'', in_user_id = ''alice'',
     in_balances = bof_list [(''BTC'', 5), (''USD'', 70)]\<rparr>"

definition bob :: LeafInput where
  "bob = \<lparr>in_salt = mk32 ''salt-b'', in_user_id = ''bob'', in_balances = bof_list [(''BTC'', 1)]\<rparr>"

definition carol :: LeafInput where
  "carol = \<lparr>in_salt = mk32 ''salt-c'', in_user_id = ''carol'', in_balances = bof_list [(''USD'', 30)]\<rparr>"

definition venue_signer :: ReportSigner where
  "venue_signer = \<lparr>seed = mk32 ''seed''\<rparr>"

definition venue_meta :: ReportMetadata where
  "venue_meta = \<lparr>
     meta_profile = ''solvency.liabilities'',
     meta_publisher = ''venue'',
     meta_snapshot_time = ''2026-01-01T00:00:00Z'',
     meta_ledger_offset = ''000042'',
     meta_mark_prices = bempty,
     meta_disclosures = \<lparr>bad_debt = bempty, excluded_house_accounts = 0, excluded_house_totals = bempty\<rparr>,
     meta_manifest = None\<rparr>"

definition public_manifest :: Manifest where
  "public_manifest = \<lparr>audience = ''public'',
     manifest_fields = bof_list [(''root_sums'', Published), (''mark_prices'', Withheld)]\<rparr>"

definition sample_publication :: "publish_error + Publication" where
  "sample_publication = publish sample_crates [alice, bob, carol] venue_meta venue_signer"

lemmas sample_defs = alice_def bob_def carol_def venue_signer_def venue_meta_def public_manifest_def
  sample_publication_def


lemma sample_balances:
  "in_balances alice = bof_list [(''BTC'', 5), (''USD'', 70)]"
  "in_balances bob = bof_list [(''BTC'', 1)]"
  "in_balances carol = bof_list [(''USD'', 30)]"
  by (simp_all add: sample_defs)

lemma amount_of_bof_list:
  "distinct (map fst kvs) \<Longrightarrow>
     amount_of (bof_list kvs) a = (case map_of kvs a of None \<Rightarrow> 0 | Some v \<Rightarrow> unat v)"
  by (auto simp: amount_of_def get0_def bget_bof_list split: option.splits)

lemma sample_published: "\<exists>pub. sample_publication = Ok pub"
  unfolding sample_publication_def publish_succeeds_iff
  by (simp add: sample_balances amount_of_bof_list)


text \<open>A v2 subject with one map of one amount.\<close>

definition kyc_maps :: "u128 \<Rightarrow> u128 bmap bmap" where
  "kyc_maps v = bof_list [(''attested'', bof_list [(''kyc'', v)])]"

lemma kyc_leaf:
  "leaf_node_v2 C slt sid (kyc_maps v) =
     Ok \<lparr>hash = sha256 C (leaf_preimage_v2 C slt sid (kyc_maps v)), sums = bof_list [(''attested/kyc'', v)]\<rparr>"
  "fits_maps (kyc_maps v)"
  using holder_maps [of slt sid v]
  by (simp_all add: leaf_node_v2_Ok_iff kyc_maps_def holder_def fits_maps_def blen_def fits_def fits_map_def)


lemma kyc_collision:
  "sha256 sample_crates (leaf_preimage_v2 sample_crates slt sid (kyc_maps v)) =
   sha256 sample_crates (leaf_preimage_v2 sample_crates slt' sid' (kyc_maps v))"
proof -
  let ?rest = "u64_le (of_nat (blen (kyc_maps v))) @
      concat (map (\<lambda>(map_name, amounts). lp map_name @ lpmap amounts) (entries (kyc_maps v)))"
  have "leaf_preimage_v2 sample_crates s i (kyc_maps v) =
      (LEAF_DOMAIN_V2 @ arr32 s @ arr32 (sha256 sample_crates i)) @ ?rest" for s i
    by (simp add: leaf_preimage_v2_def)
  moreover have "32 \<le> length ?rest"
    by (simp add: kyc_maps_def lpmap_def lp_def)
  ultimately show ?thesis by (simp only: sample_sha_tail)
qed


text \<open>The tree of the three customers.\<close>

definition sample_nodes :: "node list" where
  "sample_nodes = map (input_node sample_crates) [alice, bob, carol]"

lemma sample_tree: "\<exists>t. build sample_crates sample_nodes = Ok t"
  unfolding build_succeeds_iff
  by (simp add: sample_nodes_def input_node_def sample_balances amount_of_bof_list)


lemma alice_nonempty: "\<not> bis_empty (in_balances alice)"
  by (simp add: sample_balances bis_empty_def bof_list_def)

text \<open>Two audiences, and a register of holders.\<close>

definition auditor_manifest :: Manifest where
  "auditor_manifest = \<lparr>audience = ''auditor'', manifest_fields = bof_list [(''root_sums'', Published)]\<rparr>"

definition holder_meta :: ReportMetadata where
  "holder_meta = venue_meta\<lparr>meta_profile := ''eligibility.holder''\<rparr>"

lemma sample_packagings:
  "\<exists>pubs. publish_for_audiences sample_crates [alice, bob, carol] venue_meta
     [public_manifest, auditor_manifest] venue_signer = Ok pubs"
  by (rule publish_for_audiences_succeeds)
    (simp_all add: public_manifest_def auditor_manifest_def sample_balances amount_of_bof_list)

lemma sample_register:
  "\<exists>pub. publish_v2 sample_crates [holder s1 n1 (2 * ONE), holder s2 n2 0] holder_meta venue_signer = Ok pub \<and>
     (\<forall>i < 2. verify_v2 sample_crates (signed_report_v2 pub) (proofs_v2 pub ! i)
        (public_key_hex sample_crates venue_signer) = Ok ())"
  by (rule fake_unanimity [OF sample_hex_spec sample_ed25519_spec])
    (simp_all add: holder_meta_def venue_meta_def)


lemma sample_verified:
  "\<exists>pub. sample_publication = Ok pub \<and> (\<forall>i < 3. verify sample_crates (signed_report pub) (proofs pub ! i)
     (public_key_hex sample_crates venue_signer) = Ok ())"
proof -
  obtain pub where pub: "sample_publication = Ok pub" using sample_published by blast
  then have p: "publish sample_crates [alice, bob, carol] venue_meta venue_signer = Ok pub"
    by (simp add: sample_publication_def)
  have "well_formed_report (report (signed_report pub))"
    by (simp add: published_well_formed [OF p] venue_meta_def)
  moreover have "\<exists>rules. validate (report (signed_report pub)) = Ok rules \<and> rules_leaf rules = Customer"
    using alice_nonempty published_report(2,3) [OF p]
    by (subst validate_liabilities) (auto simp: bis_empty_iff venue_meta_def)
  ultimately show ?thesis
    using pub publish_verifies_iff [OF sample_hex_spec sample_ed25519_spec p] by auto
qed

text \<open>A venue that publishes one customer's balance as the total of two.\<close>

lemma alice_dominates:
  "set (bkeys (in_balances bob)) \<subseteq> set (bkeys (in_balances alice))"
  "amount_of (in_balances bob) x \<le> amount_of (in_balances alice) x"
  by (auto simp: sample_balances bkeys_bget bget_bof_list amount_of_bof_list)


lemma public_manifest_fits: "fits_manifest public_manifest"
  by (simp add: fits_manifest_def public_manifest_def fits_def blen_def bkeys_def bof_list_def)

text \<open>The venue as the only entity of a group.\<close>

lemma sample_group:
  assumes "sample_publication = Ok pub"
  shows "\<exists>h gpub. decode32 sample_crates (root_hash (report (signed_report pub))) = Some h \<and>
    publish_group sample_crates
      [\<lparr>in_entity_id = ''venue'', in_root_hash = h, in_root_sums = root_sums (report (signed_report pub))\<rparr>]
      venue_meta venue_signer = Ok gpub"
proof -
  from assms obtain h where "root_hash (report (signed_report pub)) = hex_encode sample_crates (arr32 h)"
    by (auto simp: sample_publication_def publish_Ok_iff sign_report_def report_of_def)
  moreover have "\<exists>gpub. publish_group sample_crates
      [\<lparr>in_entity_id = ''venue'', in_root_hash = h, in_root_sums = root_sums (report (signed_report pub))\<rparr>]
      venue_meta venue_signer = Ok gpub"
    using amount_of_lt [of "root_sums (report (signed_report pub))"] by (simp add: publish_group_succeeds_iff)
  ultimately show ?thesis by (simp add: decode32_encode sample_hex_spec)
qed

lemma sample_chain_parts:
  "\<exists>pub h gpub. sample_publication = Ok pub \<and>
     publish sample_crates [alice, bob, carol] venue_meta venue_signer = Ok pub \<and>
     decode32 sample_crates (root_hash (report (signed_report pub))) = Some h \<and>
     publish_group sample_crates
       [\<lparr>in_entity_id = ''venue'', in_root_hash = h, in_root_sums = root_sums (report (signed_report pub))\<rparr>]
       venue_meta venue_signer = Ok gpub"
  using sample_published sample_group unfolding sample_publication_def by blast

lemma sample_chain:
  "\<exists>pub (gpub :: GroupPublication). sample_publication = Ok pub \<and>
     verify_chain sample_crates (group_signed_report gpub) (memberships gpub ! 0) (signed_report pub) (proofs pub ! 1)
       (public_key_hex sample_crates venue_signer) (public_key_hex sample_crates venue_signer) = Ok () \<and>
     format_version (report (group_signed_report gpub)) = REPORT_FORMAT_VERSION"
proof -
  obtain pub h gpub where parts: "sample_publication = Ok pub"
      "publish sample_crates [alice, bob, carol] venue_meta venue_signer = Ok pub"
      "decode32 sample_crates (root_hash (report (signed_report pub))) = Some h"
      "publish_group sample_crates
        [\<lparr>in_entity_id = ''venue'', in_root_hash = h, in_root_sums = root_sums (report (signed_report pub))\<rparr>]
        venue_meta venue_signer = Ok gpub"
    using sample_chain_parts by blast
  have "verify_chain sample_crates (group_signed_report gpub) (memberships gpub ! 0) (signed_report pub) (proofs pub ! 1)
      (public_key_hex sample_crates venue_signer) (public_key_hex sample_crates venue_signer) = Ok ()"
    by (rule honest_chain [OF sample_hex_spec sample_ed25519_spec parts(2) _ _ _ _ parts(4)])
      (use alice_nonempty parts(3) in \<open>simp_all add: venue_meta_def\<close>)
  moreover have "format_version (report (group_signed_report gpub)) = REPORT_FORMAT_VERSION"
    using parts(4) by (auto simp: publish_group_Ok_iff sign_report_def report_of_def venue_meta_def)
  ultimately show ?thesis using parts(1) by blast
qed

end
