(* ===== verification/Merkle_Properties.thy ===== *)
theory Merkle_Properties
  imports Samples
begin

text \<open>
  The properties of the core crate \<open>solvency-merkle\<close>: amounts, leaves, the sum tree and its
  proofs.
\<close>

subsection \<open>Amounts\<close>

text \<open>
  Parsing an amount accepts exactly the strings that denote a fixed-point number which fits
  128 bits, and returns that number; every other string is an error.
\<close>

theorem amount_parse_exact:
  "(parse_amount_18dp s = Ok v \<longleftrightarrow> decimal_value s = Some (unat v)) \<and>
   ((\<exists>e. parse_amount_18dp s = Err e) \<longleftrightarrow> decimal_value s \<notin> Some ` {..<2 ^ 128})"
proof -
  have "(\<forall>n. decimal_value s = Some n \<longrightarrow> 2 ^ 128 \<le> n) \<longleftrightarrow> decimal_value s \<notin> Some ` {..<2 ^ 128}"
    by (auto simp: not_less image_iff)
  then show ?thesis by (simp only: parse_amount_iff parse_amount_Err_iff simp_thms)
qed

text \<open>
  C13. Rendering an amount and parsing it returns the amount, and two spellings of one value
  render alike, so a digest over rendered amounts does not depend on how they were written.
\<close>

theorem amount_roundtrip:
  assumes "parse_amount_18dp s = Ok v" "parse_amount_18dp t = Ok w"
  shows "parse_amount_18dp (format_amount_18dp v) = Ok v \<and>
    (format_amount_18dp v = format_amount_18dp w \<longleftrightarrow> decimal_value s = decimal_value t)"
  using parse_format canonical_spelling [OF assms] by blast

lemma parse_samples:
  "parse_amount_18dp ''100.5'' = Ok 100500000000000000000"
  "parse_amount_18dp ''0100.50'' = Ok 100500000000000000000"
  by (simp_all add: parse_amount_iff decimal_value_def is_ascii_digit_def digits_val_def digit_val_def)

theorem amount_roundtrip_witness:
  "format_amount_18dp 100500000000000000000 = format_amount_18dp 100500000000000000000 \<and>
   decimal_value ''100.5'' = decimal_value ''0100.50''"
  using amount_roundtrip [OF parse_samples] by simp

subsection \<open>Leaves\<close>

text \<open>
  C10. The hash of a v2 leaf binds the salt, the subject and every amount of every map: two
  leaves with one hash agree on all of them, or two named preimages collide under SHA-256.
\<close>

theorem leaf_v2_binding:
  assumes "leaf_node_v2 C slt sid ms = Ok n" "leaf_node_v2 C slt' sid' ms' = Ok n'"
    and "fits_maps ms" "fits_maps ms'" "hash n = hash n'"
  shows "slt = slt' \<and> sid = sid' \<and> ms = ms' \<or> collides C sid sid' \<or>
     collides C (leaf_preimage_v2 C slt sid ms) (leaf_preimage_v2 C slt' sid' ms')"
proof -
  have "sha256 C (leaf_preimage_v2 C slt sid ms) = sha256 C (leaf_preimage_v2 C slt' sid' ms')"
    using assms(1,2,5) by (simp add: leaf_node_v2_Ok_iff)
  then show ?thesis
    using leaf_preimage_v2_inj [OF assms(3,4), of C slt sid slt' sid'] by (auto dest!: sha256_eqD)
qed

theorem leaf_v2_binding_witness:
  "mk32 ''s'' = mk32 ''s'' \<and> ''alice'' = ''bob'' \<and> kyc_maps 1 = kyc_maps 1 \<or>
   collides sample_crates ''alice'' ''bob'' \<or>
   collides sample_crates (leaf_preimage_v2 sample_crates (mk32 ''s'') ''alice'' (kyc_maps 1))
     (leaf_preimage_v2 sample_crates (mk32 ''s'') ''bob'' (kyc_maps 1))"
  by (rule leaf_v2_binding [OF kyc_leaf(1) kyc_leaf(1) kyc_leaf(2) kyc_leaf(2)])
    (simp add: kyc_collision [of "mk32 ''s''" "''alice''" 1 "mk32 ''s''" "''bob''"])

text \<open>
  A v2 leaf enters the tree with each amount of each map under its qualified name and with
  nothing else, and only when every map and every asset has a safe name.
\<close>

theorem leaf_v2_sums:
  assumes "leaf_node_v2 C slt sid ms = Ok n"
  shows "safe_maps ms \<and>
    (bget (sums n) k = Some v \<longleftrightarrow>
      (\<exists>m am a. k = qualified_key m a \<and> bget ms m = Some am \<and> bget am a = Some v))"
  using assms by (simp add: leaf_node_v2_Ok_iff bget_flatten_maps)

theorem leaf_v2_sums_witness:
  "safe_maps (kyc_maps 3) \<and>
   (bget (bof_list [(''attested/kyc'', 3 :: u128)]) ''attested/kyc'' = Some 3 \<longleftrightarrow>
    (\<exists>m am a. ''attested/kyc'' = qualified_key m a \<and> bget (kyc_maps 3) m = Some am \<and> bget am a = Some 3))"
  using leaf_v2_sums [OF kyc_leaf(1) [of sample_crates "mk32 ''s''" "''alice''" 3], of "''attested/kyc''" 3]
  by simp

text \<open>
  The v1 leaf is only as unambiguous as its asset names: whatever the first amount is, one
  asset with a suitable name has the leaf hash of two assets.
\<close>

theorem leaf_v1_ambiguous:
  assumes "a < b"
  shows "leaf_hash C slt uid [(a, v), (b, w)] =
    leaf_hash C slt uid [(a @ '':'' @ format_amount_18dp v @ ''|'' @ b, w)]"
proof -
  have "\<not> b \<le> a" "a \<le> b" "a \<noteq> b" using assms by auto
  then show ?thesis by (simp add: leaf_hash_def canonical_balances_def render_entry_def)
qed

theorem leaf_v1_ambiguous_witness:
  "leaf_hash sample_crates (mk32 ''s'') ''alice'' [(''A'', 1), (''B'', 2)] =
   leaf_hash sample_crates (mk32 ''s'') ''alice'' [(''A'' @ '':'' @ format_amount_18dp 1 @ ''|'' @ ''B'', 2)]"
  by (rule leaf_v1_ambiguous) (simp add: less_list_code less_char_def)


subsection \<open>The sum tree\<close>

text \<open>
  A tree can be built exactly when there is a leaf and no asset's total leaves 128 bits.
\<close>

theorem tree_build_succeeds:
  "(\<exists>t. build C leaves = Ok t) \<longleftrightarrow>
     leaves \<noteq> [] \<and> (\<forall>a. (\<Sum>n \<leftarrow> leaves. amount_of (sums n) a) < 2 ^ 128)"
  by (simp add: build_succeeds_iff level_total_def)

text \<open>
  C4. The root of a built tree totals, for every asset, exactly the sum of the leaves, and lists
  an asset exactly when some leaf does.
\<close>

theorem tree_totals_exact:
  assumes "build C leaves = Ok t"
  shows "amount_of (sums (root t)) a = (\<Sum>n \<leftarrow> leaves. amount_of (sums n) a) \<and>
    set (bkeys (sums (root t))) = (\<Union>n \<in> set leaves. set (bkeys (sums n)))"
  using build_total [OF assms, of a] build_keys [OF assms] by (simp add: level_total_def level_keys_def)

theorem tree_totals_exact_witness:
  "\<exists>t. build sample_crates sample_nodes = Ok t \<and> amount_of (sums (root t)) ''USD'' = 100"
proof -
  obtain t where "build sample_crates sample_nodes = Ok t" using sample_tree by blast
  then show ?thesis
    using tree_totals_exact [of sample_crates sample_nodes t "''USD''"]
    by (simp add: sample_nodes_def input_node_def sample_balances amount_of_bof_list)
qed

text \<open>
  C5. Every leaf of a built tree has a proof that verifies against the root, and a proof has
  fewer steps than twice the number of leaves has binary digits: \<open>2 ^ steps < 2 * leaves\<close>.
\<close>

theorem every_leaf_provable:
  assumes "build C leaves = Ok t" "i < length leaves"
  shows "\<exists>steps. prove t i = Ok steps \<and> verify_proof C (leaves ! i) steps (root t) \<and>
    2 ^ length steps < 2 * length leaves"
proof -
  obtain steps where steps: "prove t i = Ok steps" "verify_proof C (leaves ! i) steps (root t)"
    using prove_complete [OF assms] by blast
  then have "length steps \<le> length (levels t) - 1"
    using length_prove_steps [of "butlast (levels t)" i] by (auto simp: prove_def)
  moreover have "2 ^ (length (levels t) - 1) < 2 * length leaves"
    using grow_levels_depth [of C leaves "levels t"] assms(1) by (simp add: build_Ok_iff)
  ultimately have "2 ^ length steps < 2 * length leaves"
    by (meson le_less_trans one_le_numeral power_increasing)
  with steps show ?thesis by blast
qed

theorem every_leaf_provable_witness:
  "\<exists>t steps. build sample_crates sample_nodes = Ok t \<and> prove t 2 = Ok steps \<and>
     verify_proof sample_crates (sample_nodes ! 2) steps (root t)"
proof -
  obtain t where t: "build sample_crates sample_nodes = Ok t" using sample_tree by blast
  then show ?thesis using every_leaf_provable [OF t, of 2] by (auto simp: sample_nodes_def)
qed

text \<open>
  C6. The root hash binds the leaves: two trees over as many leaves with one root hash have the
  same leaf hashes in the same order, or hashing them exposes a collision of SHA-256.
\<close>

theorem root_hash_binds_leaves:
  assumes "build C leaves = Ok t" "build C leaves' = Ok t'"
    and "length leaves = length leaves'" "hash (root t) = hash (root t')"
  shows "map hash leaves = map hash leaves' \<or>
    exposes C (tree_preimages (levels t)) (tree_preimages (levels t'))"
  by (rule build_binding [OF assms])

theorem root_hash_binds_leaves_witness:
  "\<exists>t. build sample_crates sample_nodes = Ok t \<and>
     (map hash sample_nodes = map hash sample_nodes \<or>
      exposes sample_crates (tree_preimages (levels t)) (tree_preimages (levels t)))"
proof -
  obtain t where t: "build sample_crates sample_nodes = Ok t" using sample_tree by blast
  with root_hash_binds_leaves [OF t t refl refl] show ?thesis by blast
qed

end
