(* ===== verification/Report_Properties.thy ===== *)
theory Report_Properties
  imports Samples
begin

text \<open>
  The properties of reports: what publishing gives, what verifying establishes, what a digest
  binds, and what no proof of this format can establish.
\<close>

subsection \<open>Publishing\<close>

text \<open>
  C1. Whatever an honest publisher publishes under the liabilities profile verifies: one proof
  per leaf, in order, each accepted against the signed report under the publisher's key, as soon
  as some leaf has an asset and the manifest, if there is one, is consistent with the report.
\<close>

theorem published_proofs_verify:
  assumes "hex_spec C" "ed25519_spec C" "publish C leaves meta signer = Ok pub"
    and "meta_profile meta = ''solvency.liabilities''" "\<exists>l \<in> set leaves. \<not> bis_empty (in_balances l)"
    and "\<forall>m. meta_manifest meta = Some m \<longrightarrow> manifest_consistent (report (signed_report pub)) m"
  shows "length (proofs pub) = length leaves \<and>
    (\<forall>i < length leaves. verify C (signed_report pub) (proofs pub ! i) (public_key_hex C signer) = Ok ())"
proof -
  have "length (proofs pub) = length leaves" using assms(3) by (auto simp: publish_Ok_iff)
  moreover have "well_formed_report (report (signed_report pub))"
    using assms(6) by (simp add: published_well_formed [OF assms(3)])
  moreover have "\<exists>rules. validate (report (signed_report pub)) = Ok rules \<and> rules_leaf rules = Customer"
    using assms(4,5) published_report(2,3) [OF assms(3)]
    by (subst validate_liabilities) (auto simp: bis_empty_iff)
  ultimately show ?thesis using publish_verifies_iff [OF assms(1-3)] by blast
qed

theorem published_proofs_verify_witness:
  "\<exists>pub. sample_publication = Ok pub \<and>
     verify sample_crates (signed_report pub) (proofs pub ! 2) (public_key_hex sample_crates venue_signer) = Ok ()"
proof -
  obtain pub where pub: "publish sample_crates [alice, bob, carol] venue_meta venue_signer = Ok pub"
    using sample_published by (auto simp: sample_publication_def)
  from alice_nonempty show ?thesis
    using published_proofs_verify [OF sample_hex_spec sample_ed25519_spec pub] pub
    by (simp add: venue_meta_def sample_publication_def)
qed

text \<open>
  C8. A report can be published exactly when there is a leaf and every asset's total fits 128
  bits. Nothing else about the leaves, the metadata or the key makes publishing fail.
\<close>

theorem publish_succeeds_exactly:
  "(\<exists>pub. publish C leaves meta signer = Ok pub) \<longleftrightarrow>
     leaves \<noteq> [] \<and> (\<forall>a. (\<Sum>l \<leftarrow> leaves. amount_of (in_balances l) a) < 2 ^ 128)"
  by (rule publish_succeeds_iff)

text \<open>
  The totals of an honestly published report are the sums of the customers' balances, asset
  by asset, and its leaf count is the number of leaves.
\<close>

theorem published_totals_exact:
  assumes "publish C leaves meta signer = Ok pub"
  shows "amount_of (root_sums (report (signed_report pub))) a = (\<Sum>l \<leftarrow> leaves. amount_of (in_balances l) a) \<and>
    leaf_count (report (signed_report pub)) = of_nat (length leaves)"
  using published_report(4,5) [OF assms] by simp

theorem published_totals_exact_witness:
  "\<exists>pub. sample_publication = Ok pub \<and> amount_of (root_sums (report (signed_report pub))) ''BTC'' = 6 \<and>
     leaf_count (report (signed_report pub)) = 3"
proof -
  obtain pub where pub: "publish sample_crates [alice, bob, carol] venue_meta venue_signer = Ok pub"
    using sample_published by (auto simp: sample_publication_def)
  with published_totals_exact [OF pub, of "''BTC''"] show ?thesis
    by (simp add: sample_publication_def sample_balances amount_of_bof_list)
qed

text \<open>
  A published v2 proof is accepted exactly when the report satisfies its profile and its
  manifest and the leaf carries every map the profile requires: a settled trade that lacks a leg
  is refused when its own proof is checked.
\<close>

theorem published_v2_proofs:
  assumes "hex_spec C" "ed25519_spec C" "publish_v2 C leaves meta signer = Ok pub" "i < length leaves"
    and "validate (report (signed_report_v2 pub)) = Ok rules" "uses_leaf_v2 (rules_leaf rules)"
    and "well_formed_report (report (signed_report_v2 pub))"
  shows "verify_v2 C (signed_report_v2 pub) (proofs_v2 pub ! i) (public_key_hex C signer) = Ok () \<longleftrightarrow>
    (\<forall>m \<in> set (required_leaf_maps rules).
       \<exists>am. bget (in2_maps (leaves ! i)) m = Some am \<and> \<not> bis_empty am)"
  using publish_v2_verifies_iff [OF assms(1-4)] assms(5-7) by auto

theorem published_v2_proofs_witness:
  "\<exists>pub (rules :: ProfileRules). publish_v2 sample_crates [holder (mk32 ''a'') ''alice'' (2 * ONE), holder (mk32 ''b'') ''bob'' 0]
       holder_meta venue_signer = Ok pub \<and>
     (verify_v2 sample_crates (signed_report_v2 pub) (proofs_v2 pub ! 1) (public_key_hex sample_crates venue_signer) = Ok ()
      \<longleftrightarrow> (\<forall>m \<in> set (required_leaf_maps rules).
            \<exists>am. bget (in2_maps (holder (mk32 ''b'') ''bob'' 0)) m = Some am \<and> \<not> bis_empty am))"
proof -
  obtain pub where pub: "publish_v2 sample_crates
        [holder (mk32 ''a'') ''alice'' (2 * ONE), holder (mk32 ''b'') ''bob'' 0] holder_meta venue_signer = Ok pub"
      and ok: "\<forall>i < 2. verify_v2 sample_crates (signed_report_v2 pub) (proofs_v2 pub ! i)
        (public_key_hex sample_crates venue_signer) = Ok ()"
    using sample_register by blast
  from ok have "verify_v2 sample_crates (signed_report_v2 pub) (proofs_v2 pub ! 1)
      (public_key_hex sample_crates venue_signer) = Ok ()" by simp
  then obtain rules where "validate (report (signed_report_v2 pub)) = Ok rules"
      "uses_leaf_v2 (rules_leaf rules)" "well_formed_report (report (signed_report_v2 pub))"
    unfolding verify_v2_Ok_iff by blast
  note iff = published_v2_proofs [OF sample_hex_spec sample_ed25519_spec pub _ this, of 1]
  have "[holder (mk32 ''a'') ''alice'' (2 * ONE), holder (mk32 ''b'') ''bob'' 0] ! 1 = holder (mk32 ''b'') ''bob'' 0"
    by simp
  with iff pub show ?thesis by (metis One_nat_def length_Cons lessI list.size(3))
qed

text \<open>
  Packagings of one book for several audiences commit to one root, one set of totals and one
  leaf count, and no two of them are for the same audience.
\<close>

theorem audiences_share_commitment:
  assumes "publish_for_audiences C leaves meta manifests signer = Ok pubs"
  shows "length pubs = length manifests \<and> distinct (map audience manifests) \<and>
    (\<forall>a \<in> set pubs. \<forall>b \<in> set pubs. same_commitment (report (signed_report a)) (report (signed_report b)))"
proof -
  have nonempty: "0 < length pubs" "length pubs = length manifests"
    using assms by (auto simp: publish_for_audiences_Ok_iff list_all2_lengthD [symmetric] dest: list_all2_lengthD)
  have "\<forall>a \<in> set pubs. \<forall>b \<in> set pubs. same_commitment (report (signed_report a)) (report (signed_report b))"
    using packagings_same_commitment(1) [OF assms] by (auto simp: in_set_conv_nth)
  with nonempty assms show ?thesis by (simp add: publish_for_audiences_Ok_iff)
qed


theorem audiences_share_commitment_witness:
  "\<exists>pubs :: Publication list. length pubs = 2 \<and>
     same_commitment (report (signed_report (hd pubs))) (report (signed_report (last pubs)))"
proof -
  obtain pubs where pubs: "publish_for_audiences sample_crates [alice, bob, carol] venue_meta
      [public_manifest, auditor_manifest] venue_signer = Ok pubs"
    using sample_packagings by blast
  from audiences_share_commitment [OF pubs] have "length pubs = 2" and
    "\<forall>a \<in> set pubs. \<forall>b \<in> set pubs. same_commitment (report (signed_report a)) (report (signed_report b))"
    by simp_all
  moreover from this(1) have "hd pubs \<in> set pubs" "last pubs \<in> set pubs" by (cases pubs; simp)+
  ultimately show ?thesis by blast
qed


subsection \<open>Verifying\<close>

text \<open>
  C3. An accepted proof establishes that the report names this proof's report digest, is signed
  by the trusted key, is well formed and valid for a customer profile, and that its totals are at
  least the customer's balance in every asset.
\<close>

theorem accepted_proof_establishes:
  assumes "verify C sr doc trusted = Ok ()"
  shows "proof_report_digest doc = report_digest_hex C (report sr) \<and> report_authentic C sr trusted \<and>
    well_formed_report (report sr) \<and>
    (\<exists>rules. validate (report sr) = Ok rules \<and> rules_leaf rules = Customer) \<and>
    amount_of (balances (proof_leaf doc)) a \<le> amount_of (root_sums (report sr)) a"
  using assms by (auto simp: verify_Ok_iff leaf_node_Ok_iff dest!: path_lower_bound [of _ _ _ _ a])

theorem accepted_proof_establishes_witness:
  "\<exists>pub. sample_publication = Ok pub \<and>
     report_authentic sample_crates (signed_report pub) (public_key_hex sample_crates venue_signer) \<and>
     amount_of (balances (proof_leaf (proofs pub ! 0))) ''USD'' \<le>
       amount_of (root_sums (report (signed_report pub))) ''USD''"
proof -
  obtain pub where pub: "sample_publication = Ok pub" and
    "verify sample_crates (signed_report pub) (proofs pub ! 0) (public_key_hex sample_crates venue_signer) = Ok ()"
    using sample_verified by auto
  from accepted_proof_establishes [OF this(2), of "''USD''"] pub show ?thesis by blast
qed

text \<open>
  The verifier's copy of the node rule is the core crate's: it accepts the same pairs with
  the same parent, and its only error is the overflow of an asset's sum.
\<close>

theorem verifier_node_rule_is_core:
  "verify_combine C l r = map_err overflow_failure (combine C l r)"
  by (rule verify_combine_eq)

text \<open>
  C7. A report digest binds the report: two reports of machine-representable size with one
  digest agree on everything the digest covers, which is all of a v2 report and all but the
  manifest of any other, or their preimages collide. A v1 and a v2 report never share a preimage.
\<close>

theorem report_digest_binds:
  assumes "fits_report x" "fits_report y" "report_digest C x = report_digest C y"
  shows "covered_report x = covered_report y \<or> collides C (report_preimage x) (report_preimage y)"
  using assms report_code.digest_binds by (simp add: report_digest_def)

lemma sample_report_fits:
  "fits_report (report_of sample_crates venue_meta ''solvency.liabilities'' 1 \<lparr>hash = mk32 [], sums = bempty\<rparr>)"
  by (simp add: fits_report_def report_of_def venue_meta_def fits_def fits_map_def blen_def bkeys_def
      REPORT_FORMAT_VERSION_def sample_crates_def length_hex_of)

theorem report_digest_binds_witness:
  "let r = report_of sample_crates venue_meta ''solvency.liabilities'' 1 \<lparr>hash = mk32 [], sums = bempty\<rparr>
   in covered_report r = covered_report (r\<lparr>manifest := Some public_manifest\<rparr>) \<or>
      collides sample_crates (report_preimage r) (report_preimage (r\<lparr>manifest := Some public_manifest\<rparr>))"
  unfolding Let_def
proof (rule report_digest_binds [OF sample_report_fits])
  let ?r = "report_of sample_crates venue_meta ''solvency.liabilities'' 1 \<lparr>hash = mk32 [], sums = bempty\<rparr>"
  have "\<not> is_v2_report ?r" by (simp add: is_v2_report_def report_of_def venue_meta_def)
  then show "report_digest sample_crates ?r = report_digest sample_crates (?r\<lparr>manifest := Some public_manifest\<rparr>)"
    by (simp add: report_digest_def report_preimage_def is_v2_report_def)
  show "fits_report (?r\<lparr>manifest := Some public_manifest\<rparr>)"
    using sample_report_fits public_manifest_fits by (simp add: fits_report_def)
qed

subsection \<open>What verification cannot establish\<close>

text \<open>
  C2. Two customers whose proofs both verify do not bound the published totals by their sum: any
  totals that dominate each of them separately can be published, and both proofs verify, because
  a node hash does not commit to the totals of its children.
\<close>

theorem understated_totals_verify:
  fixes meta :: ReportMetadata and a b :: LeafInput
  assumes "hex_spec C" "ed25519_spec C"
    and "meta_profile meta = ''solvency.liabilities''" "meta_manifest meta = None" "\<not> bis_empty S"
    and "set (bkeys (in_balances a)) \<subseteq> set (bkeys S)" "set (bkeys (in_balances b)) \<subseteq> set (bkeys S)"
    and "\<And>x. amount_of (in_balances a) x \<le> amount_of S x" "\<And>x. amount_of (in_balances b) x \<le> amount_of S x"
  shows "\<exists>sr docA docB.
    root_sums (report sr) = S \<and>
    proof_leaf docA = \<lparr>salt = hex_encode C (arr32 (in_salt a)), user_id = in_user_id a, balances = in_balances a\<rparr> \<and>
    proof_leaf docB = \<lparr>salt = hex_encode C (arr32 (in_salt b)), user_id = in_user_id b, balances = in_balances b\<rparr> \<and>
    verify C sr docA (public_key_hex C signer) = Ok () \<and>
    verify C sr docB (public_key_hex C signer) = Ok ()"
proof -
  let ?sr = "understating_report C meta signer a b S"
  let ?docA = "input_document C (report ?sr) a [understating_step C a b S False]"
  let ?docB = "input_document C (report ?sr) b [understating_step C b a S True]"
  have "root_sums (report ?sr) = S"
    by (simp add: understating_report_def sign_report_def report_of_def forged_node_def)
  moreover have "proof_leaf ?docA = \<lparr>salt = hex_encode C (arr32 (in_salt a)), user_id = in_user_id a, balances = in_balances a\<rparr>"
    "proof_leaf ?docB = \<lparr>salt = hex_encode C (arr32 (in_salt b)), user_id = in_user_id b, balances = in_balances b\<rparr>"
    by (simp_all add: input_document_def)
  ultimately show ?thesis using understated_proofs_verify [OF assms, of signer] by blast
qed

theorem understated_totals_verify_witness:
  "\<exists>sr docA docB. root_sums (report sr) = in_balances alice \<and>
     balances (proof_leaf docA) = in_balances alice \<and> balances (proof_leaf docB) = in_balances bob \<and>
     verify sample_crates sr docA (public_key_hex sample_crates venue_signer) = Ok () \<and>
     verify sample_crates sr docB (public_key_hex sample_crates venue_signer) = Ok ()"
  using understated_totals_verify [OF sample_hex_spec sample_ed25519_spec _ _ alice_nonempty order_refl
      alice_dominates(1) order_refl alice_dominates(2), of venue_meta venue_signer]
  by (force simp: venue_meta_def)

text \<open>
  C9. The unanimity rule of the eligibility profile is a rule on totals: a report over one holder
  who carries the value 2 and one who carries 0 is valid, and both proofs verify.
\<close>

theorem unanimity_not_enforced:
  assumes "hex_spec C" "ed25519_spec C"
    and "meta_profile meta = ''eligibility.holder''" "meta_manifest meta = None"
  shows "\<exists>pub. publish_v2 C [holder s1 n1 (2 * ONE), holder s2 n2 0] meta signer = Ok pub \<and>
    (\<forall>i < 2. verify_v2 C (signed_report_v2 pub) (proofs_v2 pub ! i) (public_key_hex C signer) = Ok ())"
  by (rule fake_unanimity [OF assms])

theorem unanimity_not_enforced_witness:
  "\<exists>pub. publish_v2 sample_crates [holder (mk32 ''a'') ''alice'' (2 * ONE), holder (mk32 ''b'') ''bob'' 0]
       holder_meta venue_signer = Ok pub"
  using unanimity_not_enforced [OF sample_hex_spec sample_ed25519_spec, of holder_meta]
  by (fastforce simp: holder_meta_def venue_meta_def)

end
