(* ===== verification/Group_Properties.thy ===== *)
theory Group_Properties
  imports Samples
begin

text \<open>The properties of group commitments and of the chain from a customer to the group.\<close>

text \<open>
  C11. An honest group is verifiable end to end: a customer's proof against the entity's report,
  the entity's membership in the group and the link between the two are accepted together, when
  the group committed the entity with the root hash and the totals the entity published.
\<close>

theorem honest_chain_verifies:
  assumes "hex_spec C" "ed25519_spec C"
    and "publish C leaves emeta esigner = Ok epub" "i < length leaves"
    and "meta_profile emeta = ''solvency.liabilities''" "meta_manifest emeta = None"
    and "\<exists>l \<in> set leaves. \<not> bis_empty (in_balances l)"
    and "publish_group C entities gmeta gsigner = Ok gpub" "j < length entities"
    and "decode32 C (root_hash (report (signed_report epub))) = Some (in_root_hash (entities ! j))"
    and "in_root_sums (entities ! j) = root_sums (report (signed_report epub))"
  shows "verify_chain C (group_signed_report gpub) (memberships gpub ! j) (signed_report epub) (proofs epub ! i)
    (public_key_hex C gsigner) (public_key_hex C esigner) = Ok ()"
  by (rule honest_chain [OF assms])

theorem honest_chain_verifies_witness:
  "\<exists>pub (gpub :: GroupPublication). sample_publication = Ok pub \<and>
     verify_chain sample_crates (group_signed_report gpub) (memberships gpub ! 0) (signed_report pub) (proofs pub ! 1)
       (public_key_hex sample_crates venue_signer) (public_key_hex sample_crates venue_signer) = Ok ()"
proof -
  obtain pub h gpub where parts: "sample_publication = Ok pub"
      "publish sample_crates [alice, bob, carol] venue_meta venue_signer = Ok pub"
      "decode32 sample_crates (root_hash (report (signed_report pub))) = Some h"
      "publish_group sample_crates
        [\<lparr>in_entity_id = ''venue'', in_root_hash = h, in_root_sums = root_sums (report (signed_report pub))\<rparr>]
        venue_meta venue_signer = Ok gpub"
    using sample_chain_parts by blast
  have "verify_chain sample_crates (group_signed_report gpub) (memberships gpub ! 0) (signed_report pub) (proofs pub ! 1)
      (public_key_hex sample_crates venue_signer) (public_key_hex sample_crates venue_signer) = Ok ()"
    by (rule honest_chain_verifies [OF sample_hex_spec sample_ed25519_spec parts(2) _ _ _ _ parts(4)])
      (use alice_nonempty parts(3) in \<open>simp_all add: venue_meta_def\<close>)
  with parts(1) show ?thesis by blast
qed

text \<open>
  C12. A verified chain orders the three figures it connects: the customer's balance is at most
  the entity's published total, which is at most the group's, in every asset.
\<close>

theorem chain_orders_totals:
  assumes "verify_chain C group_sr doc entity_sr proof group_key entity_key = Ok ()"
  shows "amount_of (balances (proof_leaf proof)) a \<le> amount_of (root_sums (report entity_sr)) a \<and>
    amount_of (root_sums (report entity_sr)) a \<le> amount_of (root_sums (report group_sr)) a"
  using verify_chain_lower_bound [OF assms, of a] by simp

theorem chain_orders_totals_witness:
  "\<exists>pub (gpub :: GroupPublication). sample_publication = Ok pub \<and>
     amount_of (balances (proof_leaf (proofs pub ! 1))) ''BTC'' \<le>
       amount_of (root_sums (report (signed_report pub))) ''BTC'' \<and>
     amount_of (root_sums (report (signed_report pub))) ''BTC'' \<le>
       amount_of (root_sums (report (group_signed_report gpub))) ''BTC''"
  using sample_chain chain_orders_totals by blast

text \<open>
  A membership is checked without the version and manifest checks of a customer proof: a
  signed v1 group report is accepted with any manifest put beside it afterwards, although the
  signature does not cover it and \<open>verify\<close> refuses every such report.
\<close>

theorem membership_accepts_unsigned_manifest:
  assumes "verify_membership C sr doc key = Ok ()" "format_version (report sr) = REPORT_FORMAT_VERSION"
  shows "verify_membership C (sr\<lparr>report := (report sr)\<lparr>manifest := Some m\<rparr>\<rparr>) doc key = Ok () \<and>
    check_report_version_and_manifest ((report sr)\<lparr>manifest := Some m\<rparr>) = Err (ManifestPresence V1CarriesManifest)"
  using assms by (simp add: membership_ignores_v1_manifest check_report_version_and_manifest_def)

theorem membership_accepts_unsigned_manifest_witness:
  "\<exists>(gpub :: GroupPublication).
     verify_membership sample_crates
       ((group_signed_report gpub)\<lparr>report := (report (group_signed_report gpub))\<lparr>manifest := Some public_manifest\<rparr>\<rparr>)
       (memberships gpub ! 0) (public_key_hex sample_crates venue_signer) = Ok ()"
proof -
  obtain pub :: Publication and gpub :: GroupPublication where "verify_chain sample_crates (group_signed_report gpub) (memberships gpub ! 0) (signed_report pub)
        (proofs pub ! 1) (public_key_hex sample_crates venue_signer) (public_key_hex sample_crates venue_signer) = Ok ()"
      and v1: "format_version (report (group_signed_report gpub)) = REPORT_FORMAT_VERSION"
    using sample_chain by blast
  then have "verify_membership sample_crates (group_signed_report gpub) (memberships gpub ! 0)
      (public_key_hex sample_crates venue_signer) = Ok ()"
    by (simp add: verify_chain_Ok_iff)
  from membership_accepts_unsigned_manifest [OF this v1] show ?thesis by blast
qed

end
