(* ===== verification/Instant.thy ===== *)
theory Instant
  imports Prelude "HOL-Library.Signed_Division"
begin

text \<open>
  The timestamp profile of \<open>solvency-report/src/instant.rs\<close>: the civil-date arithmetic,
  the parser of \<open>YYYY-MM-DDTHH:MM:SS[.fff]Z\<close> and \<open>skew\<close>. The lemmas show that a
  day number counts days, and that on timestamps of the shortest form the order of strings is
  the order of instants, which is what the anchor chain compares.
\<close>

subsection \<open>Civil dates\<close>

text \<open>Rust's \<open>/\<close> on \<open>i64\<close> truncates, hence \<open>sdiv\<close>; no value comes near the width.\<close>

definition days_from_civil :: "int \<Rightarrow> nat \<Rightarrow> nat \<Rightarrow> int" where
  "days_from_civil y0 m d =
     (let y = (if m \<le> 2 then y0 - 1 else y0);
          era = (if 0 \<le> y then y else y - 399) sdiv 400;
          yoe = y - era * 400;
          mp = int ((m + 9) mod 12);
          doy = (153 * mp + 2) sdiv 5 + int d - 1;
          doe = yoe * 365 + yoe sdiv 4 - yoe sdiv 100 + doy
      in era * 146097 + doe - 719468)"

definition is_leap :: "int \<Rightarrow> bool" where
  "is_leap y \<longleftrightarrow> (y smod 4 = 0 \<and> y smod 100 \<noteq> 0) \<or> y smod 400 = 0"

definition days_in_month :: "int \<Rightarrow> nat \<Rightarrow> nat" where
  "days_in_month y m =
     (if m \<in> {1, 3, 5, 7, 8, 10, 12} then 31
      else if m \<in> {4, 6, 9, 11} then 30
      else if m = 2 \<and> is_leap y then 29
      else if m = 2 then 28
      else 0)"

subsection \<open>Parsing\<close>

definition is_ascii :: "string \<Rightarrow> bool" where
  "is_ascii s \<longleftrightarrow> list_all (\<lambda>c. code c < 128) s"

definition slice :: "nat \<Rightarrow> nat \<Rightarrow> string \<Rightarrow> string" where
  "slice i j s = take (j - i) (drop i s)"

definition digits_at :: "string \<Rightarrow> nat \<Rightarrow> nat \<Rightarrow> int option" where
  "digits_at s i j =
     (if list_all is_ascii_digit (slice i j s) then Some (int (digits_val (slice i j s))) else None)"

text \<open>The tail is \<open>Z\<close>, or a dot, at least one digit and \<open>Z\<close>.\<close>

definition instant_tail_ok :: "string \<Rightarrow> bool" where
  "instant_tail_ok rest \<longleftrightarrow>
     rest = ''Z'' \<or>
     (rest \<noteq> [] \<and> hd rest = CHR ''.'' \<and> last rest = CHR ''Z'' \<and>
      (let frac = butlast (tl rest) in frac \<noteq> [] \<and> list_all is_ascii_digit frac))"

definition parse_instant :: "string \<Rightarrow> int option" where
  "parse_instant text =
     (if length text < 20 \<or> \<not> is_ascii text then None
      else if text ! 4 \<noteq> CHR ''-'' \<or> text ! 7 \<noteq> CHR ''-'' \<or> text ! 10 \<noteq> CHR ''T'' then None
      else if text ! 13 \<noteq> CHR '':'' \<or> text ! 16 \<noteq> CHR '':'' then None
      else
        Option.bind (digits_at text 0 4) (\<lambda>year.
        Option.bind (digits_at text 5 7) (\<lambda>month.
        Option.bind (digits_at text 8 10) (\<lambda>day.
        Option.bind (digits_at text 11 13) (\<lambda>hour.
        Option.bind (digits_at text 14 16) (\<lambda>minute.
        Option.bind (digits_at text 17 19) (\<lambda>second.
          if \<not> instant_tail_ok (drop 19 text) then None
          else if \<not> (1 \<le> month \<and> month \<le> 12) \<or> day < 1 \<or> int (days_in_month year (nat month)) < day then None
          else if 23 < hour \<or> 59 < minute \<or> 59 < second then None
          else Some (days_from_civil year (nat month) (nat day) * 86400 + hour * 3600 + minute * 60 + second))))))))"

definition skew :: "string \<Rightarrow> string \<Rightarrow> nat option" where
  "skew a b =
     Option.bind (parse_instant a) (\<lambda>x. Option.bind (parse_instant b) (\<lambda>y. Some (nat \<bar>x - y\<bar>)))"

subsection \<open>Day numbers count days\<close>

definition valid_date :: "int \<Rightarrow> nat \<Rightarrow> nat \<Rightarrow> bool" where
  "valid_date y m d \<longleftrightarrow> 0 \<le> y \<and> 1 \<le> m \<and> m \<le> 12 \<and> 1 \<le> d \<and> d \<le> days_in_month y m"

definition next_date :: "int \<Rightarrow> nat \<Rightarrow> nat \<Rightarrow> int \<times> nat \<times> nat" where
  "next_date y m d =
     (if d < days_in_month y m then (y, m, d + 1)
      else if m < 12 then (y, m + 1, 1) else (y + 1, 1, 1))"

lemma sdiv_pos: "0 \<le> (a :: int) \<Longrightarrow> 0 < b \<Longrightarrow> a sdiv b = a div b"
  by (simp add: signed_divide_int_def sgn_if)

lemma smod_0_iff: "0 < (b :: int) \<Longrightarrow> a smod b = 0 \<longleftrightarrow> b dvd a"
  by (auto simp: signed_modulo_int_def sgn_0_0 dvd_eq_mod_eq_0 [symmetric])

lemma div_reflect:
  assumes "0 < (b :: int)"
  shows "(b - 1 - y) div b = - (y div b)"
proof (rule int_div_pos_eq)
  show "b - 1 - y = b * - (y div b) + (b - 1 - y mod b)"
    by (simp add: minus_mult_div_eq_mod [symmetric])
qed (use pos_mod_sign [OF assms, of y] pos_mod_bound [OF assms, of y] in linarith)+

lemma div_pred:
  assumes "0 < (b :: int)"
  shows "y div b - (y - 1) div b = (if b dvd y then 1 else 0)"
proof (cases "b dvd y")
  case True
  then obtain k where k: "y = b * k" ..
  have "(y - 1) div b = k - 1"
    by (rule int_div_pos_eq [where r = "b - 1"]) (use assms k in \<open>auto simp: algebra_simps\<close>)
  with True k assms show ?thesis by simp
next
  case False
  then have "0 < y mod b" using assms by (simp add: dvd_eq_mod_eq_0 less_le)
  moreover have "y mod b < b" using assms by (rule pos_mod_bound)
  ultimately have "(y - 1) div b = y div b"
    by (intro int_div_pos_eq [where r = "y mod b - 1"]) (auto simp: minus_mult_div_eq_mod [symmetric])
  with False show ?thesis by simp
qed

lemma div_shift: "0 < (b :: int) \<Longrightarrow> (y - b * k) div b = y div b - k"
  using div_mult_self1 [of b y "- k"] by (simp add: mult.commute)

lemma is_leap_iff: "is_leap y \<longleftrightarrow> (4 dvd y \<and> \<not> 100 dvd y) \<or> 400 dvd y"
  by (simp add: is_leap_def smod_0_iff)

text \<open>The closed form with floor division, from March based years and months.\<close>

definition march_month :: "nat \<Rightarrow> int" where
  "march_month m = int ((m + 9) mod 12)"

definition march_year :: "int \<Rightarrow> nat \<Rightarrow> int" where
  "march_year y m = (if m \<le> 2 then y - 1 else y)"

definition march_days :: "int \<Rightarrow> int" where
  "march_days y = 365 * y + y div 4 - y div 100 + y div 400 - 719469"

lemma era_floor: "(if 0 \<le> (y :: int) then y else y - 399) sdiv 400 = y div 400"
proof (cases "0 \<le> y")
  case True
  then show ?thesis by (simp add: sdiv_pos)
next
  case False
  then have "(y - 399) sdiv 400 = - ((399 - y) div 400)"
    by (simp add: signed_divide_int_def sgn_if)
  also have "\<dots> = y div 400" using div_reflect [of 400 y] by simp
  finally show ?thesis using False by simp
qed

lemma days_from_civil_closed:
  "days_from_civil y m d =
     march_days (march_year y m) + (153 * march_month m + 2) div 5 + int d"
proof -
  let ?y = "march_year y m"
  let ?yoe = "?y - (?y div 400) * 400"
  have "?yoe = ?y mod 400" by (simp add: minus_div_mult_eq_mod)
  then have yoe: "0 \<le> ?yoe" "?yoe < 400" by simp_all
  have "days_from_civil y m d =
      (?y div 400) * 146097 + (?yoe * 365 + ?yoe div 4 - ?yoe div 100 +
        ((153 * march_month m + 2) div 5 + int d - 1)) - 719468"
    using yoe by (simp add: days_from_civil_def Let_def era_floor march_year_def march_month_def sdiv_pos)
  moreover have "?yoe div 4 = ?y div 4 - 100 * (?y div 400)"
    "?yoe div 100 = ?y div 100 - 4 * (?y div 400)"
    using div_shift [of 4 ?y "100 * (?y div 400)"] div_shift [of 100 ?y "4 * (?y div 400)"]
    by (simp_all add: mult.commute)
  ultimately show ?thesis by (simp add: march_days_def)
qed

text \<open>A March based year ends on the leap day if the civil year after it is a leap year.\<close>

lemma march_days_step:
  "march_days y - march_days (y - 1) = 365 + (if is_leap y then 1 else 0)"
proof -
  have "(100 :: int) dvd 400" "(4 :: int) dvd 100" by simp_all
  then have "400 dvd y \<Longrightarrow> 100 dvd y" "100 dvd y \<Longrightarrow> 4 dvd y"
    by (blast intro: dvd_trans)+
  moreover have "365 * y + a - b + c - k - (365 * (y - 1) + a' - b' + c' - k) =
      365 + (a - a') - (b - b') + (c - c')" for a b c a' b' c' k :: int
    by simp
  then have "march_days y - march_days (y - 1) =
      365 + (y div 4 - (y - 1) div 4) - (y div 100 - (y - 1) div 100) + (y div 400 - (y - 1) div 400)"
    unfolding march_days_def by this
  moreover have "y div 4 - (y - 1) div 4 = (if 4 dvd y then 1 else 0)"
    "y div 100 - (y - 1) div 100 = (if 100 dvd y then 1 else 0)"
    "y div 400 - (y - 1) div 400 = (if 400 dvd y then 1 else 0)"
    by (rule div_pred, rule zero_less_numeral)+
  ultimately show ?thesis unfolding is_leap_iff by presburger
qed

lemma month_cases:
  assumes "1 \<le> (m :: nat)" "m \<le> 12"
  obtains "m = 1" | "m = 2" | "m = 3" | "m = 4" | "m = 5" | "m = 6"
    | "m = 7" | "m = 8" | "m = 9" | "m = 10" | "m = 11" | "m = 12"
  using assms
proof -
  have "m = 1 \<or> m = 2 \<or> m = 3 \<or> m = 4 \<or> m = 5 \<or> m = 6
      \<or> m = 7 \<or> m = 8 \<or> m = 9 \<or> m = 10 \<or> m = 11 \<or> m = 12"
    using assms by presburger
  then show ?thesis using that by blast
qed

lemma days_from_civil_next:
  assumes "valid_date y m d" and "next_date y m d = (y', m', d')"
  shows "days_from_civil y' m' d' = days_from_civil y m d + 1"
proof (cases "d < days_in_month y m")
  case True
  with assms show ?thesis by (auto simp: next_date_def days_from_civil_closed)
next
  case False
  with assms(1) have d: "d = days_in_month y m" by (simp add: valid_date_def)
  from assms(1) have "1 \<le> m" "m \<le> 12" by (simp_all add: valid_date_def)
  then show ?thesis
  proof (cases rule: month_cases)
    case 2
    with assms False d march_days_step [of y] show ?thesis
      by (auto simp: next_date_def days_in_month_def days_from_civil_closed march_year_def
          march_month_def split: if_splits)
  qed (use assms False d in \<open>auto simp: next_date_def days_in_month_def days_from_civil_closed
          march_year_def march_month_def split: if_splits\<close>)
qed

lemma days_from_civil_origin: "days_from_civil 1970 1 1 = 0"
  by (simp add: days_from_civil_closed march_days_def march_year_def march_month_def)


subsection \<open>Later dates have larger day numbers\<close>

definition month_index :: "int \<Rightarrow> nat \<Rightarrow> nat" where
  "month_index y m = 12 * nat y + (m - 1)"

definition month_start :: "nat \<Rightarrow> int" where
  "month_start k = days_from_civil (int (k div 12)) (k mod 12 + 1) 1"

definition month_length :: "nat \<Rightarrow> nat" where
  "month_length k = days_in_month (int (k div 12)) (k mod 12 + 1)"

lemma days_in_month_pos: "1 \<le> m \<Longrightarrow> m \<le> 12 \<Longrightarrow> 28 \<le> days_in_month y m"
  by (cases m rule: month_cases) (auto simp: days_in_month_def)

lemma month_start_Suc: "month_start (Suc k) = month_start k + int (month_length k)"
proof -
  let ?y = "int (k div 12)" and ?m = "k mod 12 + 1" and ?d = "month_length k"
  have d: "28 \<le> ?d" unfolding month_length_def by (rule days_in_month_pos) simp_all
  then have v: "valid_date ?y ?m ?d"
    using mod_less_divisor [of 12 k] by (simp add: valid_date_def month_length_def Suc_le_eq)
  have "month_start (Suc k) = days_from_civil ?y ?m ?d + 1"
  proof (cases "k mod 12 = 11")
    case True
    then have "Suc k div 12 = Suc (k div 12)" "Suc k mod 12 = 0"
      by (simp_all add: div_Suc mod_Suc)
    with True show ?thesis
      unfolding month_start_def
      by (intro days_from_civil_next [OF v]) (simp add: next_date_def month_length_def)
  next
    case False
    then have "Suc k div 12 = k div 12" "Suc k mod 12 = Suc (k mod 12)"
      by (simp_all add: div_Suc mod_Suc)
    moreover have "?m < 12" using False mod_less_divisor [of 12 k] by linarith
    ultimately show ?thesis
      unfolding month_start_def
      by (intro days_from_civil_next [OF v]) (simp add: next_date_def month_length_def)
  qed
  also have "\<dots> = month_start k + int ?d"
    by (simp add: month_start_def days_from_civil_closed)
  finally show ?thesis .
qed

lemma month_start_mono: "j < k \<Longrightarrow> month_start j + int (month_length j) \<le> month_start k"
proof (induction k)
  case (Suc k)
  have "month_start k \<le> month_start (Suc k)" by (simp add: month_start_Suc)
  with Suc show ?case by (cases "j = k") (auto simp: month_start_Suc)
qed simp

lemma month_index_parts:
  assumes "valid_date y m d"
  shows "days_from_civil y m d = month_start (month_index y m) + int d - 1"
    and "d \<le> month_length (month_index y m)"
proof -
  have "(m - 1) div 12 = 0" "(m - 1) mod 12 = m - 1" using assms by (auto simp: valid_date_def)
  then have "month_index y m div 12 = nat y" "month_index y m mod 12 = m - 1"
    unfolding month_index_def by simp_all
  then show "days_from_civil y m d = month_start (month_index y m) + int d - 1"
    and "d \<le> month_length (month_index y m)"
    using assms by (simp_all add: month_start_def month_length_def valid_date_def days_from_civil_closed)
qed

lemma days_from_civil_less:
  assumes "valid_date y m d" "valid_date y' m' d'"
    and "y < y' \<or> y = y' \<and> (m < m' \<or> m = m' \<and> d < d')"
  shows "days_from_civil y m d < days_from_civil y' m' d'"
proof (cases "month_index y m < month_index y' m'")
  case True
  then show ?thesis
    using month_start_mono [OF True] month_index_parts [OF assms(1)] month_index_parts [OF assms(2)]
      assms(2) by (simp add: valid_date_def)
next
  case False
  then have "y = y' \<and> m = m' \<and> d < d'"
    using assms by (auto simp: month_index_def valid_date_def)
  then show ?thesis by (simp add: days_from_civil_closed)
qed


subsection \<open>On the shortest form, string order is time order\<close>

lemma append_less_iff:
  fixes u v :: string
  assumes "length u = length v"
  shows "u @ r < v @ s \<longleftrightarrow> u < v \<or> u = v \<and> r < s"
  using assms by (induction u v rule: list_induct2) (auto simp: less_list_code)

lemma digits_less_iff:
  assumes "length s = length t" "list_all is_ascii_digit s" "list_all is_ascii_digit t"
  shows "s < t \<longleftrightarrow> digits_val s < digits_val t" and "s = t \<longleftrightarrow> digits_val s = digits_val t"
proof -
  have "(s < t \<longleftrightarrow> digits_val s < digits_val t) \<and> (s = t \<longleftrightarrow> digits_val s = digits_val t)"
    using assms
  proof (induction s t rule: list_induct2)
    case (Cons c s d t)
    have split: "digits_val (e # u) = digit_val e * 10 ^ length u + digits_val u" for e u
      using digits_val_append [of "[e]" u] digits_val_snoc [of "[]" e] by simp
    have small: "digits_val s < 10 ^ length s" "digits_val t < 10 ^ length s"
      using Cons digits_val_lt [of s] digits_val_lt [of t] by simp_all
    have "is_ascii_digit c" "is_ascii_digit d" using Cons.prems by simp_all
    then have order: "c < d \<longleftrightarrow> digit_val c < digit_val d" "c = d \<longleftrightarrow> digit_val c = digit_val d"
      by (auto simp: less_char_def is_ascii_digit_def digit_val_def)
        (metis digit_char_digit_val digit_val_def is_ascii_digit_def)
    have lead: "a * k + x < b * k + y" if "a < b" "x < k" for a b k x y :: nat
    proof -
      have "a * k + x < a * k + k" using that by simp
      also have "\<dots> = Suc a * k" by simp
      also have "\<dots> \<le> b * k" using that by (intro mult_le_mono1) simp
      finally show ?thesis by simp
    qed
    from Cons small order lead [OF _ small(1), of "digit_val c" "digit_val d" "digits_val t"]
      lead [OF _ small(2), of "digit_val d" "digit_val c" "digits_val s"]
    show ?case
      by (cases "digit_val c" "digit_val d" rule: linorder_cases) (auto simp: split less_list_code)
  qed (simp add: less_list_code)
  then show "s < t \<longleftrightarrow> digits_val s < digits_val t" "s = t \<longleftrightarrow> digits_val s = digits_val t"
    by blast+
qed

text \<open>The fields of a timestamp of twenty bytes.\<close>

definition timestamp :: "string \<Rightarrow> string \<Rightarrow> string \<Rightarrow> string \<Rightarrow> string \<Rightarrow> string \<Rightarrow> string" where
  "timestamp y m d h mi se = y @ ''-'' @ m @ ''-'' @ d @ ''T'' @ h @ '':'' @ mi @ '':'' @ se @ ''Z''"

definition timestamp_ok :: "string \<Rightarrow> string \<Rightarrow> string \<Rightarrow> string \<Rightarrow> string \<Rightarrow> string \<Rightarrow> bool" where
  "timestamp_ok y m d h mi se \<longleftrightarrow>
     length y = 4 \<and> length m = 2 \<and> length d = 2 \<and> length h = 2 \<and> length mi = 2 \<and> length se = 2 \<and>
     list_all is_ascii_digit (y @ m @ d @ h @ mi @ se) \<and>
     valid_date (int (digits_val y)) (digits_val m) (digits_val d) \<and>
     digits_val h \<le> 23 \<and> digits_val mi \<le> 59 \<and> digits_val se \<le> 59"

definition timestamp_epoch :: "string \<Rightarrow> string \<Rightarrow> string \<Rightarrow> string \<Rightarrow> string \<Rightarrow> string \<Rightarrow> int" where
  "timestamp_epoch y m d h mi se =
     days_from_civil (int (digits_val y)) (digits_val m) (digits_val d) * 86400 +
     int (digits_val h) * 3600 + int (digits_val mi) * 60 + int (digits_val se)"

lemma explode20:
  assumes "length s = 20"
  obtains a b c d e f g h i j k l m n p q r t u v where
    "s = [a, b, c, d, e, f, g, h, i, j, k, l, m, n, p, q, r, t, u, v]"
  using assms by (auto simp: length_Suc_conv numeral_eq_Suc)

lemma parse_instant_20:
  assumes "length s = 20" "parse_instant s = Some x"
  obtains y m d h mi se where
    "s = timestamp y m d h mi se" "timestamp_ok y m d h mi se" "x = timestamp_epoch y m d h mi se"
proof -
  obtain a b c d e f g h i j k l m n p q r t u v where
    s: "s = [a, b, c, d, e, f, g, h, i, j, k, l, m, n, p, q, r, t, u, v]"
    using assms(1) by (rule explode20)
  have "v = CHR ''Z''"
    using assms(2) by (auto simp: s parse_instant_def instant_tail_ok_def split: if_splits bind_splits)
  with assms(2) show ?thesis
    by (intro that [of "[a, b, c, d]" "[f, g]" "[i, j]" "[l, m]" "[p, q]" "[t, u]"])
      (auto simp: s parse_instant_def digits_at_def slice_def timestamp_def timestamp_ok_def
        timestamp_epoch_def valid_date_def split: if_splits bind_splits)
qed


lemma timestamp_less_iff:
  assumes "timestamp_ok y m d h mi se" "timestamp_ok y' m' d' h' mi' se'"
  shows "timestamp y m d h mi se < timestamp y' m' d' h' mi' se' \<longleftrightarrow>
     y < y' \<or> y = y' \<and> (m < m' \<or> m = m' \<and> (d < d' \<or> d = d' \<and>
       (h < h' \<or> h = h' \<and> (mi < mi' \<or> mi = mi' \<and> se < se'))))"
  using assms by (simp add: timestamp_def timestamp_ok_def append_less_iff)

lemma timestamp_epoch_less:
  assumes ok: "timestamp_ok y m d h mi se" "timestamp_ok y' m' d' h' mi' se'"
    and "timestamp y m d h mi se < timestamp y' m' d' h' mi' se'"
  shows "timestamp_epoch y m d h mi se < timestamp_epoch y' m' d' h' mi' se'"
proof -
  let ?n = digits_val
  let ?D = "days_from_civil (int (?n y)) (?n m) (?n d)"
  let ?D' = "days_from_civil (int (?n y')) (?n m') (?n d')"
  have lex: "?n y < ?n y' \<or> ?n y = ?n y' \<and> (?n m < ?n m' \<or> ?n m = ?n m' \<and> (?n d < ?n d' \<or> ?n d = ?n d' \<and>
       (?n h < ?n h' \<or> ?n h = ?n h' \<and> (?n mi < ?n mi' \<or> ?n mi = ?n mi' \<and> ?n se < ?n se'))))"
    using assms(3) ok unfolding timestamp_less_iff [OF ok]
    by (simp add: timestamp_ok_def digits_less_iff)
  have bound: "?n h \<le> 23" "?n mi \<le> 59" "?n se \<le> 59" "?n h' \<le> 23" "?n mi' \<le> 59" "?n se' \<le> 59"
    using ok by (simp_all add: timestamp_ok_def)
  show ?thesis
  proof (cases "?n y = ?n y' \<and> ?n m = ?n m' \<and> ?n d = ?n d'")
    case True
    with lex bound show ?thesis by (auto simp: timestamp_epoch_def)
  next
    case False
    have "?D < ?D'"
    proof (rule days_from_civil_less)
      show "valid_date (int (?n y)) (?n m) (?n d)" "valid_date (int (?n y')) (?n m') (?n d')"
        using ok by (simp_all add: timestamp_ok_def)
      show "int (?n y) < int (?n y') \<or> int (?n y) = int (?n y') \<and>
          (?n m < ?n m' \<or> ?n m = ?n m' \<and> ?n d < ?n d')"
        using lex False by auto
    qed
    with bound show ?thesis by (simp add: timestamp_epoch_def)
  qed
qed

lemma parse_instant_less:
  assumes "length a = 20" "length b = 20" "parse_instant a = Some x" "parse_instant b = Some y"
  shows "a < b \<Longrightarrow> x < y"
  by (rule parse_instant_20 [OF assms(1,3)], rule parse_instant_20 [OF assms(2,4)])
    (simp add: timestamp_epoch_less)

lemma parse_instant_order:
  assumes "length a = 20" "length b = 20" "parse_instant a = Some x" "parse_instant b = Some y"
  shows "x < y \<longleftrightarrow> a < b"
  using parse_instant_less [OF assms] parse_instant_less [OF assms(2,1,4,3)] assms(3,4)
  by (cases a b rule: linorder_cases) auto

lemma skew_iff:
  "skew a b = Some n \<longleftrightarrow>
     (\<exists>x y. parse_instant a = Some x \<and> parse_instant b = Some y \<and> n = nat \<bar>x - y\<bar>)"
  by (auto simp: skew_def bind_eq_Some_conv)

lemma skew_commute: "skew a b = skew b a"
  by (cases "parse_instant a"; cases "parse_instant b") (simp_all add: skew_def abs_minus_commute)

end
