(* ===== verification/Anchor.thy ===== *)
theory Anchor
  imports Produce Instant
begin

text \<open>
  The anchor chain of \<open>solvency-report/src/anchor.rs\<close>: each anchor names its predecessor by
  digest. \<open>verify_anchors\<close> is the code's \<open>verify_chain\<close>. The lemmas characterise a valid
  history, show how \<open>anchor_report\<close> extends one, and that the last anchor of a history
  determines all of it.
\<close>

definition ANCHOR_FORMAT_VERSION :: string where "ANCHOR_FORMAT_VERSION = ''canton-solvency-anchor-v1''"
definition ANCHOR_DIGEST_DOMAIN :: bytes where "ANCHOR_DIGEST_DOMAIN = ''rocky-solvency-anchor-v1''"

record Anchor =
  anchor_format_version :: string
  anchor_report_digest :: string
  anchor_root_hash :: string
  anchor_snapshot_time :: string
  anchor_ledger_offset :: string
  anchor_publisher :: string
  publisher_key :: string
  prev_anchor :: "string option"

definition anchor_preimage :: "Anchor \<Rightarrow> bytes" where
  "anchor_preimage a =
     ANCHOR_DIGEST_DOMAIN @
     lp (anchor_format_version a) @
     lp (anchor_report_digest a) @
     lp (anchor_root_hash a) @
     lp (anchor_snapshot_time a) @
     lp (anchor_ledger_offset a) @
     lp (anchor_publisher a) @
     lp (publisher_key a) @
     (case prev_anchor a of
        None \<Rightarrow> [CHR 0x00]
      | Some prev \<Rightarrow> CHR 0x01 # lp prev)"

definition anchor_digest :: "crates \<Rightarrow> Anchor \<Rightarrow> b32" where
  "anchor_digest C a = sha256 C (anchor_preimage a)"

definition anchor_digest_hex :: "crates \<Rightarrow> Anchor \<Rightarrow> string" where
  "anchor_digest_hex C a = hex_encode C (arr32 (anchor_digest C a))"

datatype chain_failure =
    NotGenesis
  | Broken nat
  | WentBackwards nat string
  | PublisherChanged nat
  | ChainVersion nat string
  | ReportMismatch nat

text \<open>The body of the loop over \<open>anchors.iter().enumerate()\<close>.\<close>

definition check_anchor :: "crates \<Rightarrow> Anchor list \<Rightarrow> nat \<Rightarrow> Anchor \<Rightarrow> chain_failure + unit" where
  "check_anchor C anchors index anchor =
     and_then (ensure (anchor_format_version anchor = ANCHOR_FORMAT_VERSION)
                 (ChainVersion index (anchor_format_version anchor))) (\<lambda>_.
       (case prev_anchor anchor of
          Some prev \<Rightarrow>
            if index = 0 then Err NotGenesis
            else
              (let previous = anchors ! (index - 1) in
               and_then (ensure (prev = anchor_digest_hex C previous) (Broken index)) (\<lambda>_.
               and_then (ensure (anchor_publisher anchor = anchor_publisher previous) (PublisherChanged index)) (\<lambda>_.
               and_then (ensure (\<not> anchor_snapshot_time anchor \<le> anchor_snapshot_time previous)
                           (WentBackwards index ''snapshot_time'')) (\<lambda>_.
                 ensure (\<not> anchor_ledger_offset anchor < anchor_ledger_offset previous)
                   (WentBackwards index ''ledger_offset'')))))
        | None \<Rightarrow> if index = 0 then Ok () else Err (Broken index)))"

definition verify_anchors :: "crates \<Rightarrow> Anchor list \<Rightarrow> chain_failure + unit" where
  "verify_anchors C anchors = for_each (\<lambda>(index, anchor). check_anchor C anchors index anchor) (List.enumerate 0 anchors)"

definition verify_with_anchor :: "crates \<Rightarrow> SignedReport \<Rightarrow> ProofDocument \<Rightarrow> Anchor \<Rightarrow> verification_failure + unit" where
  "verify_with_anchor C sr doc anchor =
     and_then (ensure (anchor_format_version anchor = ANCHOR_FORMAT_VERSION)
                 (UnsupportedVersion ''anchor.format_version'' (anchor_format_version anchor))) (\<lambda>_.
     and_then (ensure (anchor_report_digest anchor = report_digest_hex C (report sr)) DigestMismatch) (\<lambda>_.
       verify C sr doc (publisher_key anchor)))"

definition verify_anchored_reports :: "crates \<Rightarrow> Anchor list \<Rightarrow> SignedReport list \<Rightarrow> chain_failure + unit" where
  "verify_anchored_reports C anchors reports =
     for_each (\<lambda>(index, anchor, sr).
       ensure (\<not> (anchor_report_digest anchor \<noteq> report_digest_hex C (report sr) \<or>
                  anchor_root_hash anchor \<noteq> root_hash (report sr))) (ReportMismatch index))
       (List.enumerate 0 (zip anchors reports))"

definition anchor_report :: "crates \<Rightarrow> SignedReport \<Rightarrow> Anchor option \<Rightarrow> Anchor" where
  "anchor_report C sr previous = \<lparr>
     anchor_format_version = ANCHOR_FORMAT_VERSION,
     anchor_report_digest = report_digest_hex C (report sr),
     anchor_root_hash = root_hash (report sr),
     anchor_snapshot_time = snapshot_time (report sr),
     anchor_ledger_offset = ledger_offset (report sr),
     anchor_publisher = publisher (report sr),
     publisher_key = public_key (signature sr),
     prev_anchor = map_option (anchor_digest_hex C) previous\<rparr>"

subsection \<open>The anchor digest\<close>

definition fits_anchor :: "Anchor \<Rightarrow> bool" where
  "fits_anchor a \<longleftrightarrow>
     fits (anchor_format_version a) \<and> fits (anchor_report_digest a) \<and> fits (anchor_root_hash a) \<and>
     fits (anchor_snapshot_time a) \<and> fits (anchor_ledger_offset a) \<and> fits (anchor_publisher a) \<and>
     fits (publisher_key a) \<and> (case prev_anchor a of None \<Rightarrow> True | Some p \<Rightarrow> fits p)"

lemma anchor_preimage_inj:
  assumes "fits_anchor x" "fits_anchor y" "anchor_preimage x = anchor_preimage y"
  shows "x = y"
proof -
  have "prev_anchor x = prev_anchor y"
    if "(case prev_anchor x of None \<Rightarrow> [CHR 0x00] | Some prev \<Rightarrow> CHR 0x01 # lp prev) =
        (case prev_anchor y of None \<Rightarrow> [CHR 0x00] | Some prev \<Rightarrow> CHR 0x01 # lp prev)"
    using that assms(1,2)
    by (cases "prev_anchor x"; cases "prev_anchor y") (simp_all add: fits_anchor_def lp_code.injective)
  then show ?thesis
    using assms by (auto simp: anchor_preimage_def fits_anchor_def lp_code.cut_iff intro!: Anchor.equality)
qed

interpretation anchor_code: digest_of anchor_preimage fits_anchor id
  by unfold_locales (simp add: anchor_preimage_inj)

subsection \<open>Valid histories\<close>

text \<open>What the loop establishes of an anchor and its predecessor.\<close>

definition follows :: "crates \<Rightarrow> Anchor \<Rightarrow> Anchor \<Rightarrow> bool" where
  "follows C previous a \<longleftrightarrow>
     prev_anchor a = Some (anchor_digest_hex C previous) \<and>
     anchor_publisher a = anchor_publisher previous \<and>
     anchor_snapshot_time previous < anchor_snapshot_time a \<and>
     anchor_ledger_offset previous \<le> anchor_ledger_offset a"

definition valid_history :: "crates \<Rightarrow> Anchor list \<Rightarrow> bool" where
  "valid_history C anchors \<longleftrightarrow>
     (\<forall>a \<in> set anchors. anchor_format_version a = ANCHOR_FORMAT_VERSION) \<and>
     (anchors \<noteq> [] \<longrightarrow> prev_anchor (hd anchors) = None) \<and>
     successively (follows C) anchors"

lemma check_anchor_Ok_iff:
  "check_anchor C anchors i a = Ok u \<longleftrightarrow>
     anchor_format_version a = ANCHOR_FORMAT_VERSION \<and>
     (if i = 0 then prev_anchor a = None else follows C (anchors ! (i - 1)) a)"
  by (auto simp: check_anchor_def follows_def Let_def not_le not_less split: option.splits)

lemma verify_anchors_Ok_iff: "verify_anchors C anchors = Ok u \<longleftrightarrow> valid_history C anchors"
proof -
  have "verify_anchors C anchors = Ok u \<longleftrightarrow> (\<forall>i < length anchors. check_anchor C anchors i (anchors ! i) = Ok ())"
    by (simp add: verify_anchors_def for_each_enumerate_Ok del: for_each_Ok_iff)
  also have "\<dots> \<longleftrightarrow> (\<forall>a \<in> set anchors. anchor_format_version a = ANCHOR_FORMAT_VERSION) \<and>
      (\<forall>i < length anchors. if i = 0 then prev_anchor (anchors ! i) = None
         else follows C (anchors ! (i - 1)) (anchors ! i))"
    by (auto simp: check_anchor_Ok_iff all_set_conv_all_nth)
  also have "(\<forall>i < length anchors. if i = 0 then prev_anchor (anchors ! i) = None
         else follows C (anchors ! (i - 1)) (anchors ! i)) \<longleftrightarrow>
      (anchors \<noteq> [] \<longrightarrow> prev_anchor (hd anchors) = None) \<and> successively (follows C) anchors"
    (is "?L \<longleftrightarrow> ?R")
  proof
    assume L: ?L
    have "follows C (anchors ! i) (anchors ! Suc i)" if "Suc i < length anchors" for i
      using L [rule_format, of "Suc i"] that by simp
    with L show ?R by (auto simp: successively_conv_nth hd_conv_nth)
  next
    assume R: ?R
    show ?L
    proof (intro allI impI)
      fix i assume "i < length anchors"
      with R show "if i = 0 then prev_anchor (anchors ! i) = None else follows C (anchors ! (i - 1)) (anchors ! i)"
        by (cases i) (auto simp: successively_conv_nth hd_conv_nth)
    qed
  qed
  finally show ?thesis by (simp only: valid_history_def)
qed


lemma verify_with_anchor_Ok_iff:
  "verify_with_anchor C sr doc a = Ok u \<longleftrightarrow>
     anchor_format_version a = ANCHOR_FORMAT_VERSION \<and>
     anchor_report_digest a = report_digest_hex C (report sr) \<and>
     verify C sr doc (publisher_key a) = Ok ()"
  by (auto simp: verify_with_anchor_def)

text \<open>Reports are matched by position, and only as far as the shorter list goes.\<close>

lemma verify_anchored_reports_Ok_iff:
  "verify_anchored_reports C anchors reports = Ok u \<longleftrightarrow>
     (\<forall>(a, sr) \<in> set (zip anchors reports).
        anchor_report_digest a = report_digest_hex C (report sr) \<and> anchor_root_hash a = root_hash (report sr))"
  by (auto simp: verify_anchored_reports_def for_each_enumerate_Ok set_zip simp del: for_each_Ok_iff)

subsection \<open>Extending a history\<close>

lemma valid_history_snoc:
  "valid_history C (anchors @ [a]) \<longleftrightarrow>
     valid_history C anchors \<and> anchor_format_version a = ANCHOR_FORMAT_VERSION \<and>
     (if anchors = [] then prev_anchor a = None else follows C (last anchors) a)"
  by (auto simp: valid_history_def successively_append_iff)

lemma anchor_report_extends:
  assumes "verify_anchors C anchors = Ok ()"
  shows "verify_anchors C (anchors @ [anchor_report C sr (if anchors = [] then None else Some (last anchors))]) = Ok () \<longleftrightarrow>
     anchors = [] \<or>
     publisher (report sr) = anchor_publisher (last anchors) \<and>
     anchor_snapshot_time (last anchors) < snapshot_time (report sr) \<and>
     anchor_ledger_offset (last anchors) \<le> ledger_offset (report sr)"
  using assms by (auto simp: verify_anchors_Ok_iff valid_history_snoc follows_def anchor_report_def)

text \<open>Snapshot times strictly increase along the whole history.\<close>

lemma history_times_sorted:
  assumes "valid_history C anchors"
  shows "sorted_wrt (<) (map anchor_snapshot_time anchors)"
proof -
  have "successively (\<lambda>p a. anchor_snapshot_time p < anchor_snapshot_time a) anchors"
    using assms by (auto simp: valid_history_def follows_def elim: successively_mono)
  then show ?thesis by (simp add: successively_iff_sorted_wrt_strong sorted_wrt_map transp_def)
qed

subsection \<open>The last anchor determines the history\<close>

lemma last_anchor_determines:
  "valid_history C xs \<Longrightarrow> valid_history C ys \<Longrightarrow> xs \<noteq> [] \<Longrightarrow> ys \<noteq> [] \<Longrightarrow>
     list_all fits_anchor xs \<Longrightarrow> list_all fits_anchor ys \<Longrightarrow> hex_spec C \<Longrightarrow>
     anchor_digest_hex C (last xs) = anchor_digest_hex C (last ys) \<Longrightarrow>
     xs = ys \<or> exposes C (map anchor_preimage (rev xs)) (map anchor_preimage (rev ys))"
proof (induction xs arbitrary: ys rule: rev_induct)
  case (snoc x xs)
  obtain ys' y where ys: "ys = ys' @ [y]" using snoc.prems(4) by (cases ys rule: rev_cases) auto
  have fit: "fits_anchor x" "fits_anchor y" using snoc.prems(5,6) by (simp_all add: ys)
  have "hex_encode C (arr32 (sha256 C (anchor_preimage x))) = hex_encode C (arr32 (sha256 C (anchor_preimage y)))"
    using snoc.prems(8) by (simp add: ys anchor_digest_hex_def anchor_digest_def)
  then consider "collides C (anchor_preimage x) (anchor_preimage y)" | "x = y"
    using anchor_code.digest_hex_binds [OF snoc.prems(7) fit] by auto
  then show ?case
  proof cases
    case 1
    then show ?thesis by (simp add: ys)
  next
    case 2
    show ?thesis
    proof (cases "xs = [] \<or> ys' = []")
      case True
      then have "xs = [] \<and> ys' = []"
        using snoc.prems(1,2) 2 by (auto simp: ys valid_history_snoc follows_def split: if_splits)
      then show ?thesis using 2 by (simp add: ys)
    next
      case False
      then have "anchor_digest_hex C (last xs) = anchor_digest_hex C (last ys')"
        using snoc.prems(1,2) 2 by (simp add: ys valid_history_snoc follows_def)
      then have "xs = ys' \<or> exposes C (map anchor_preimage (rev xs)) (map anchor_preimage (rev ys'))"
        using snoc.prems False by (intro snoc.IH) (simp_all add: ys valid_history_snoc)
      then show ?thesis using 2 by (auto simp: ys)
    qed
  qed
qed simp

end
