(* ===== verification/Provenance.thy ===== *)
theory Provenance
  imports Produce
begin

text \<open>
  The provenance graph of \<open>solvency-report/src/provenance.rs\<close>: sources, derivations, their
  digest, the rules of a graph and the check of a graph against declared assurance levels. A
  verified graph is shown to be well formed: every derivation is of a known field and names
  declared sources.
\<close>

definition PROVENANCE_FORMAT_VERSION :: string where
  "PROVENANCE_FORMAT_VERSION = ''canton-solvency-provenance-v1''"
definition PROVENANCE_DIGEST_DOMAIN :: bytes where
  "PROVENANCE_DIGEST_DOMAIN = ''rocky-solvency-provenance-v1''"

datatype source_kind = Participant | Synchronizer | Party | Template | OffLedger

definition on_ledger :: "source_kind \<Rightarrow> bool" where
  "on_ledger k \<longleftrightarrow> k \<noteq> OffLedger"

definition source_kind_str :: "source_kind \<Rightarrow> string" where
  "source_kind_str k = (case k of
     Participant \<Rightarrow> ''participant''
   | Synchronizer \<Rightarrow> ''synchronizer''
   | Party \<Rightarrow> ''party''
   | Template \<Rightarrow> ''template''
   | OffLedger \<Rightarrow> ''off-ledger'')"

record Source =
  source_id :: string
  kind :: source_kind
  source_name :: string
  basis :: "string option"

record Derivation =
  derived_field :: string
  derived_from :: "string list"
  derivation_method :: string

record Provenance =
  prov_format_version :: string
  prov_report_digest :: string
  sources :: "Source list"
  derivations :: "Derivation list"

record SignedProvenance =
  provenance :: Provenance
  prov_signature :: SignatureBlock

subsection \<open>The digest\<close>

definition source_bytes :: "Source \<Rightarrow> bytes" where
  "source_bytes s =
     lp (source_id s) @ lp (source_kind_str (kind s)) @ lp (source_name s) @
     (case basis s of None \<Rightarrow> [CHR 0x00] | Some b \<Rightarrow> CHR 0x01 # lp b)"

definition derivation_bytes :: "Derivation \<Rightarrow> bytes" where
  "derivation_bytes d =
     lp (derived_field d) @
     u64_le (of_nat (length (derived_from d))) @ concat (map lp (derived_from d)) @
     lp (derivation_method d)"

definition provenance_preimage :: "Provenance \<Rightarrow> bytes" where
  "provenance_preimage p =
     PROVENANCE_DIGEST_DOMAIN @
     lp (prov_format_version p) @
     lp (prov_report_digest p) @
     u64_le (of_nat (length (sources p))) @ concat (map source_bytes (sources p)) @
     u64_le (of_nat (length (derivations p))) @ concat (map derivation_bytes (derivations p))"

definition provenance_digest :: "crates \<Rightarrow> Provenance \<Rightarrow> b32" where
  "provenance_digest C p = sha256 C (provenance_preimage p)"

subsection \<open>The rules of a graph\<close>

definition inconsistent :: "string \<Rightarrow> detail \<Rightarrow> verification_failure + 'a" where
  "inconsistent field what = Err (ProvenanceInconsistent field what)"

text \<open>The loop over the sources; \<open>ids\<close> is the set it fills.\<close>

fun check_sources :: "Source list \<Rightarrow> string set \<Rightarrow> verification_failure + string set" where
  "check_sources [] ids = Ok ids"
| "check_sources (s # rest) ids =
     (if source_id s \<in> ids then inconsistent [] (DuplicateSourceId (source_id s))
      else if kind s = OffLedger \<and> \<not> (case basis s of None \<Rightarrow> False | Some b \<Rightarrow> trim b \<noteq> [])
        then inconsistent [] (OffLedgerWithoutBasis (source_id s))
      else check_sources rest (insert (source_id s) ids))"

fun check_derivations :: "string set \<Rightarrow> Derivation list \<Rightarrow> string set \<Rightarrow> verification_failure + unit" where
  "check_derivations ids [] seen_fields = Ok ()"
| "check_derivations ids (d # rest) seen_fields =
     (if derived_field d \<notin> set REPORT_RESIDENT_FIELDS
        then inconsistent (derived_field d) NotAFieldOfTheFormat
      else if derived_field d \<in> seen_fields then inconsistent (derived_field d) DerivedTwice
      else if derived_from d = [] then inconsistent (derived_field d) NamesNoSources
      else and_then (for_each (\<lambda>i. if i \<in> ids then Ok () else inconsistent (derived_field d) (UndeclaredSource i))
                       (derived_from d)) (\<lambda>_.
             check_derivations ids rest (insert (derived_field d) seen_fields)))"

definition verify_provenance ::
  "crates \<Rightarrow> SignedReport \<Rightarrow> SignedProvenance \<Rightarrow> string \<Rightarrow> verification_failure + unit" where
  "verify_provenance C sr sp trusted =
     (let p = provenance sp in
      and_then (ensure (prov_format_version p = PROVENANCE_FORMAT_VERSION)
                  (UnsupportedVersion ''provenance.format_version'' (prov_format_version p))) (\<lambda>_.
      and_then (ensure (prov_report_digest p = report_digest_hex C (report sr)) DigestMismatch) (\<lambda>_.
      and_then (ensure (public_key (prov_signature sp) = trusted) UnknownSigner) (\<lambda>_.
      and_then (ensure (algorithm (prov_signature sp) = SIGNATURE_ALGORITHM)
                  (UnsupportedVersion ''signature.algorithm'' (algorithm (prov_signature sp)))) (\<lambda>_.
      and_then (map_err (\<lambda>_. BadSignature)
                  (verify_signature C trusted (provenance_digest C p) (sig_value (prov_signature sp)))) (\<lambda>_.
      and_then (check_sources (sources p) {}) (\<lambda>ids.
        check_derivations ids (derivations p) {})))))))"

definition check_against_assurance ::
  "Provenance \<Rightarrow> assurance_level bmap \<Rightarrow> verification_failure + unit" where
  "check_against_assurance p claimed =
     (let by_id = bof_list (map (\<lambda>s. (source_id s, s)) (sources p)) in
      for_each (\<lambda>(field, level).
        if level \<noteq> LedgerDerived then Ok ()
        else (case find (\<lambda>d. derived_field d = field) (derivations p) of
                None \<Rightarrow> inconsistent field NoDerivation
              | Some derivation \<Rightarrow>
                  if list_ex (\<lambda>s. on_ledger (kind s)) (List.map_filter (bget by_id) (derived_from derivation))
                  then Ok () else inconsistent field OnlyOffLedger))
        (entries claimed))"


subsection \<open>What the digest covers\<close>

definition fits_source :: "Source \<Rightarrow> bool" where
  "fits_source s \<longleftrightarrow> fits (source_id s) \<and> fits (source_name s) \<and>
     (case basis s of None \<Rightarrow> True | Some b \<Rightarrow> fits b)"

definition fits_derivation :: "Derivation \<Rightarrow> bool" where
  "fits_derivation d \<longleftrightarrow> fits (derived_field d) \<and> fits (derivation_method d) \<and>
     length (derived_from d) < 2 ^ 63 \<and> list_all fits (derived_from d)"

definition fits_provenance :: "Provenance \<Rightarrow> bool" where
  "fits_provenance p \<longleftrightarrow> fits (prov_format_version p) \<and> fits (prov_report_digest p) \<and>
     length (sources p) < 2 ^ 63 \<and> list_all fits_source (sources p) \<and>
     length (derivations p) < 2 ^ 63 \<and> list_all fits_derivation (derivations p)"

lemma source_kind_str_inj [simp]: "source_kind_str k = source_kind_str l \<longleftrightarrow> k = l"
  by (cases k; cases l) (simp_all add: source_kind_str_def)

lemma fits_source_kind [simp]: "fits (source_kind_str k)"
  by (cases k) (simp_all add: source_kind_str_def fits_def)

lemma source_cut:
  assumes "fits_source x" "fits_source y" "source_bytes x @ r = source_bytes y @ s"
  shows "x = y \<and> r = s"
proof -
  have "basis x = basis y \<and> r = s"
    if "(case basis x of None \<Rightarrow> [CHR 0x00] | Some b \<Rightarrow> CHR 0x01 # lp b) @ r =
        (case basis y of None \<Rightarrow> [CHR 0x00] | Some b \<Rightarrow> CHR 0x01 # lp b) @ s"
    using that assms(1,2) by (cases "basis x"; cases "basis y") (simp_all add: fits_source_def lp_code.cut_iff)
  then show ?thesis
    using assms by (auto simp: source_bytes_def fits_source_def lp_code.cut_iff intro!: Source.equality)
qed

interpretation source_code: prefix_code source_bytes fits_source
  by unfold_locales (rule source_cut)

lemma derivation_cut:
  assumes "fits_derivation x" "fits_derivation y" "derivation_bytes x @ r = derivation_bytes y @ s"
  shows "x = y \<and> r = s"
proof -
  have lens: "length (derived_from x) < 2 ^ 64" "length (derived_from y) < 2 ^ 64"
    and ok: "list_all fits (derived_from x)" "list_all fits (derived_from y)"
    using assms(1,2) by (simp_all add: fits_derivation_def)
  have field: "derived_field x = derived_field y"
    and rest: "counted lp (derived_from x) @ lp (derivation_method x) @ r =
      counted lp (derived_from y) @ lp (derivation_method y) @ s"
    using assms by (simp_all add: derivation_bytes_def fits_derivation_def lp_code.cut_iff counted_def)
  from lp_code.counted_cut [OF lens(1) ok(1) lens(2) ok(2) rest]
  have "derived_from x = derived_from y" "lp (derivation_method x) @ r = lp (derivation_method y) @ s"
    by simp_all
  with field assms(1,2) show ?thesis
    by (auto simp: fits_derivation_def lp_code.cut_iff intro!: Derivation.equality)
qed

interpretation derivation_code: prefix_code derivation_bytes fits_derivation
  by unfold_locales (rule derivation_cut)

lemma provenance_preimage_inj:
  assumes "fits_provenance x" "fits_provenance y" "provenance_preimage x = provenance_preimage y"
  shows "x = y"
proof -
  have lens: "length (sources x) < 2 ^ 64" "length (sources y) < 2 ^ 64"
    "length (derivations x) < 2 ^ 64" "length (derivations y) < 2 ^ 64"
    and ok: "list_all fits_source (sources x)" "list_all fits_source (sources y)"
    "list_all fits_derivation (derivations x)" "list_all fits_derivation (derivations y)"
    using assms(1,2) by (simp_all add: fits_provenance_def)
  have head: "prov_format_version x = prov_format_version y" "prov_report_digest x = prov_report_digest y"
    and rest: "counted source_bytes (sources x) @ counted derivation_bytes (derivations x) @ [] =
      counted source_bytes (sources y) @ counted derivation_bytes (derivations y) @ []"
    using assms by (simp_all add: provenance_preimage_def fits_provenance_def lp_code.cut_iff counted_def)
  have srcs: "sources x = sources y"
    and tail: "counted derivation_bytes (derivations x) @ [] = counted derivation_bytes (derivations y) @ []"
    using source_code.counted_cut [OF lens(1) ok(1) lens(2) ok(2) rest] by simp_all
  have "derivations x = derivations y"
    using derivation_code.counted_cut [OF lens(3) ok(3) lens(4) ok(4) tail] by simp
  with head srcs show ?thesis by (auto intro!: Provenance.equality)
qed

interpretation provenance_code: digest_of provenance_preimage fits_provenance id
  by unfold_locales (simp add: provenance_preimage_inj)

subsection \<open>Verified graphs\<close>

definition source_explained :: "Source \<Rightarrow> bool" where
  "source_explained s \<longleftrightarrow> (kind s = OffLedger \<longrightarrow> (\<exists>b. basis s = Some b \<and> trim b \<noteq> []))"

definition graph_ok :: "Provenance \<Rightarrow> bool" where
  "graph_ok p \<longleftrightarrow>
     distinct (map source_id (sources p)) \<and> (\<forall>s \<in> set (sources p). source_explained s) \<and>
     distinct (map derived_field (derivations p)) \<and>
     (\<forall>d \<in> set (derivations p).
        derived_field d \<in> set REPORT_RESIDENT_FIELDS \<and> derived_from d \<noteq> [] \<and>
        set (derived_from d) \<subseteq> source_id ` set (sources p))"

lemma inconsistent_simps [simp]:
  "inconsistent f w \<noteq> Ok x" "(if b then Ok v else inconsistent f w) = Ok x \<longleftrightarrow> b \<and> x = v"
  "(if b then inconsistent f w else r) = Ok x \<longleftrightarrow> \<not> b \<and> r = Ok x"
  by (auto simp: inconsistent_def)

lemma check_sources_Ok_iff:
  "check_sources ss ids = Ok ids' \<longleftrightarrow>
     distinct (map source_id ss) \<and> source_id ` set ss \<inter> ids = {} \<and> (\<forall>s \<in> set ss. source_explained s) \<and>
     ids' = ids \<union> source_id ` set ss"
proof (induction ss ids rule: check_sources.induct)
  case (2 s rest ids)
  have "kind s = OffLedger \<and> \<not> (case basis s of None \<Rightarrow> False | Some b \<Rightarrow> trim b \<noteq> []) \<longleftrightarrow> \<not> source_explained s"
    by (auto simp: source_explained_def split: option.splits)
  with 2 show ?case by (cases "source_id s \<in> ids"; cases "source_explained s") auto
qed auto

lemma check_derivations_Ok_iff:
  "check_derivations ids ds seen = Ok u \<longleftrightarrow>
     distinct (map derived_field ds) \<and> derived_field ` set ds \<inter> seen = {} \<and>
     (\<forall>d \<in> set ds. derived_field d \<in> set REPORT_RESIDENT_FIELDS \<and> derived_from d \<noteq> [] \<and>
        set (derived_from d) \<subseteq> ids)"
  by (induction ids ds seen rule: check_derivations.induct) auto

lemma verify_provenance_Ok_iff:
  "verify_provenance C sr sp trusted = Ok u \<longleftrightarrow>
     prov_format_version (provenance sp) = PROVENANCE_FORMAT_VERSION \<and>
     prov_report_digest (provenance sp) = report_digest_hex C (report sr) \<and>
     public_key (prov_signature sp) = trusted \<and>
     algorithm (prov_signature sp) = SIGNATURE_ALGORITHM \<and>
     verify_signature C trusted (provenance_digest C (provenance sp)) (sig_value (prov_signature sp)) = Ok () \<and>
     graph_ok (provenance sp)"
  by (auto simp: verify_provenance_def Let_def check_sources_Ok_iff check_derivations_Ok_iff graph_ok_def)

text \<open>On a graph that is in order, the two readings of \<open>ledger-derived\<close> agree.\<close>

definition names_ledger_source :: "Provenance \<Rightarrow> string \<Rightarrow> bool" where
  "names_ledger_source p field \<longleftrightarrow>
     (\<exists>d \<in> set (derivations p). derived_field d = field \<and>
        (\<exists>s \<in> set (sources p). source_id s \<in> set (derived_from d) \<and> on_ledger (kind s)))"

lemma find_derivation:
  "graph_ok p \<Longrightarrow> find (\<lambda>d. derived_field d = field) (derivations p) = Some d \<longleftrightarrow>
     d \<in> set (derivations p) \<and> derived_field d = field"
  by (simp add: graph_ok_def find_key)

lemma bget_by_id:
  assumes "graph_ok p"
  shows "bget (bof_list (map (\<lambda>s. (source_id s, s)) (sources p))) i = Some s \<longleftrightarrow>
     s \<in> set (sources p) \<and> source_id s = i"
proof -
  have "distinct (map fst (map (\<lambda>s. (source_id s, s)) (sources p)))"
    using assms by (simp add: graph_ok_def comp_def)
  then show ?thesis by (auto simp: bget_bof_list)
qed

lemma check_against_assurance_Ok_iff:
  assumes "graph_ok p"
  shows "check_against_assurance p claimed = Ok u \<longleftrightarrow>
     (\<forall>field. bget claimed field = Some LedgerDerived \<longrightarrow> names_ledger_source p field)"
proof -
  let ?by_id = "bof_list (map (\<lambda>s. (source_id s, s)) (sources p))"
  have one: "(case find (\<lambda>d. derived_field d = field) (derivations p) of
                None \<Rightarrow> inconsistent field NoDerivation
              | Some derivation \<Rightarrow>
                  if list_ex (\<lambda>s. on_ledger (kind s)) (List.map_filter (bget ?by_id) (derived_from derivation))
                  then Ok () else inconsistent field OnlyOffLedger) = Ok () \<longleftrightarrow> names_ledger_source p field" for field
  proof (cases "find (\<lambda>d. derived_field d = field) (derivations p)")
    case None
    then have "\<not> names_ledger_source p field" by (auto simp: find_None_iff names_ledger_source_def)
    then show ?thesis by (simp add: None)
  next
    case (Some d)
    then have d: "d \<in> set (derivations p) \<and> derived_field d = field"
      using find_derivation [OF assms] by blast
    have only: "d' = d" if "d' \<in> set (derivations p)" "derived_field d' = field" for d'
      using that Some find_derivation [OF assms, of field d'] by simp
    have "list_ex (\<lambda>s. on_ledger (kind s)) (List.map_filter (bget ?by_id) (derived_from d)) \<longleftrightarrow>
        (\<exists>s \<in> set (sources p). source_id s \<in> set (derived_from d) \<and> on_ledger (kind s))"
      by (auto simp: list_ex_iff set_map_filter_iff bget_by_id [OF assms])
    also have "\<dots> \<longleftrightarrow> names_ledger_source p field"
      using d only by (auto simp: names_ledger_source_def)
    finally show ?thesis by (simp add: Some)
  qed
  have "check_against_assurance p claimed = Ok u \<longleftrightarrow>
      (\<forall>(field, level) \<in> set (entries claimed). level = LedgerDerived \<longrightarrow> names_ledger_source p field)"
    unfolding check_against_assurance_def Let_def for_each_Ok_iff split_beta
    by (rule ball_cong [OF refl]) (simp add: one)
  then show ?thesis by (auto simp: bm.get_Some_iff)
qed

end
