(* ===== verification/Assurance.thy ===== *)
theory Assurance
  imports Anchor Provenance
begin

text \<open>
  Assurance statements, \<open>solvency-report/src/assurance.rs\<close>: what evidence a verifier can
  \<open>establish\<close> for each field of a report, and \<open>verify_assurance\<close>, which refuses a
  declaration that outruns it. The lemmas say for each level which evidence establishes it.
\<close>

definition ASSURANCE_FORMAT_VERSION :: string where
  "ASSURANCE_FORMAT_VERSION = ''canton-solvency-assurance-v1''"
definition ATTESTATION_FORMAT_VERSION :: string where
  "ATTESTATION_FORMAT_VERSION = ''canton-solvency-attestation-v1''"
definition ATTESTATION_DIGEST_DOMAIN :: bytes where
  "ATTESTATION_DIGEST_DOMAIN = ''rocky-solvency-attestation-v1''"

datatype attestor_role = Issuer | ThirdParty

record Attestation =
  att_format_version :: string
  att_report_digest :: string
  att_field :: string
  role :: attestor_role
  attestor :: string
  att_basis :: string

record SignedAttestation =
  attestation :: Attestation
  att_signature :: SignatureBlock

record AssuranceStatement =
  stmt_format_version :: string
  stmt_report_digest :: string
  declared_levels :: "assurance_level bmap"

record Evidence =
  ev_proof :: "ProofDocument option"
  ev_anchor :: "Anchor option"
  ev_attestations :: "SignedAttestation list"
  ev_provenance :: "Provenance option"

record TrustedKeys =
  trusted_publisher :: string
  trusted_attestors :: "attestor_role bmap"

subsection \<open>Attestations\<close>

definition role_str :: "attestor_role \<Rightarrow> string" where
  "role_str r = (case r of Issuer \<Rightarrow> ''issuer'' | ThirdParty \<Rightarrow> ''third-party'')"

definition attestation_preimage :: "Attestation \<Rightarrow> bytes" where
  "attestation_preimage a =
     ATTESTATION_DIGEST_DOMAIN @
     lp (att_format_version a) @
     lp (att_report_digest a) @
     lp (att_field a) @
     lp (role_str (role a)) @
     lp (attestor a) @
     lp (att_basis a)"

definition attestation_digest :: "crates \<Rightarrow> Attestation \<Rightarrow> b32" where
  "attestation_digest C a = sha256 C (attestation_preimage a)"

subsection \<open>Evidence\<close>

definition withheld :: "Report \<Rightarrow> string \<Rightarrow> bool" where
  "withheld r field \<longleftrightarrow>
     (case manifest r of None \<Rightarrow> False | Some m \<Rightarrow> bget (manifest_fields m) field = Some Withheld) \<and>
     \<not> carries_data r field"

text \<open>The code's \<open>anchors(report, anchor, digest)\<close>.\<close>

definition anchors_report :: "Report \<Rightarrow> Anchor \<Rightarrow> string \<Rightarrow> bool" where
  "anchors_report r a digest \<longleftrightarrow>
     anchor_format_version a = ANCHOR_FORMAT_VERSION \<and>
     anchor_report_digest a = digest \<and>
     anchor_root_hash a = root_hash r \<and>
     anchor_snapshot_time a = snapshot_time r \<and>
     anchor_ledger_offset a = ledger_offset r \<and>
     anchor_publisher a = publisher r"

definition derives_from_ledger :: "Provenance \<Rightarrow> string \<Rightarrow> bool" where
  "derives_from_ledger p field \<longleftrightarrow>
     (case find (\<lambda>d. derived_field d = field) (derivations p) of
        None \<Rightarrow> False
      | Some derivation \<Rightarrow>
          list_ex (\<lambda>i. list_ex (\<lambda>s. source_id s = i \<and> on_ledger (kind s)) (sources p)) (derived_from derivation))"

text \<open>The body of the loop over the attestations, for one field.\<close>

definition attested_level ::
  "crates \<Rightarrow> string \<Rightarrow> string \<Rightarrow> TrustedKeys \<Rightarrow> SignedAttestation \<Rightarrow> assurance_level option" where
  "attested_level C digest field trusted sa =
     (let a = attestation sa; sig = att_signature sa in
      if att_format_version a \<noteq> ATTESTATION_FORMAT_VERSION \<or> att_field a \<noteq> field \<or> att_report_digest a \<noteq> digest
        then None
      else if bget (trusted_attestors trusted) (public_key sig) \<noteq> Some (role a) then None
      else if algorithm sig \<noteq> SIGNATURE_ALGORITHM then None
      else if is_ok (verify_signature C (public_key sig) (attestation_digest C a) (sig_value sig))
        then Some (case role a of Issuer \<Rightarrow> IssuerAttested | ThirdParty \<Rightarrow> ThirdPartyAttested)
      else None)"

definition field_levels ::
  "crates \<Rightarrow> SignedReport \<Rightarrow> Evidence \<Rightarrow> TrustedKeys \<Rightarrow> string \<Rightarrow> assurance_level set" where
  "field_levels C sr ev trusted field =
     (let r = report sr; digest = report_digest_hex C r in
      if withheld r field then {NotDisclosed}
      else
        (let ls = {ClaimedOnly};
             ls = (if field = ''root_sums'' \<and>
                      (case ev_proof ev of None \<Rightarrow> False | Some p \<Rightarrow> is_ok (verify C sr p (trusted_publisher trusted)))
                   then insert CryptographicallyVerified ls else ls);
             ls = (if (case ev_anchor ev of None \<Rightarrow> False | Some a \<Rightarrow> anchors_report r a digest) \<and>
                      (case ev_provenance ev of None \<Rightarrow> False | Some p \<Rightarrow> derives_from_ledger p field)
                   then insert LedgerDerived ls else ls)
         in fold (\<lambda>sa acc. case attested_level C digest field trusted sa of None \<Rightarrow> acc | Some l \<Rightarrow> insert l acc)
              (ev_attestations ev) ls))"

definition establish :: "crates \<Rightarrow> SignedReport \<Rightarrow> Evidence \<Rightarrow> TrustedKeys \<Rightarrow> assurance_level set bmap" where
  "establish C sr ev trusted =
     bof_list (map (\<lambda>field. (field, field_levels C sr ev trusted field)) REPORT_RESIDENT_FIELDS)"

subsection \<open>Declarations against evidence\<close>

fun accept_levels ::
  "assurance_level set bmap \<Rightarrow> (string \<times> assurance_level) list \<Rightarrow> assurance_level bmap \<Rightarrow>
     verification_failure + assurance_level bmap" where
  "accept_levels established [] accepted = Ok accepted"
| "accept_levels established ((field, declared) # rest) accepted =
     (let supported = (case bget established field of None \<Rightarrow> {} | Some ls \<Rightarrow> ls) in
      if declared \<notin> supported then Err (OverClaimed field declared (sorted_list_of_set supported))
      else accept_levels established rest (binsert field declared accepted))"

definition verify_assurance ::
  "crates \<Rightarrow> SignedReport \<Rightarrow> AssuranceStatement \<Rightarrow> Evidence \<Rightarrow> TrustedKeys \<Rightarrow>
     verification_failure + assurance_level bmap" where
  "verify_assurance C sr stmt ev trusted =
     and_then (ensure (stmt_format_version stmt = ASSURANCE_FORMAT_VERSION)
                 (UnsupportedVersion ''assurance.format_version'' (stmt_format_version stmt))) (\<lambda>_.
     and_then (ensure (stmt_report_digest stmt = report_digest_hex C (report sr)) DigestMismatch) (\<lambda>_.
     and_then (ensure (public_key (signature sr) = trusted_publisher trusted) UnknownSigner) (\<lambda>_.
     and_then (map_err (\<lambda>_. BadSignature)
                 (verify_signature C (trusted_publisher trusted) (report_digest C (report sr)) (sig_value (signature sr)))) (\<lambda>_.
     and_then (for_each (\<lambda>field. ensure (field \<in> set REPORT_RESIDENT_FIELDS) (Malformed (UnsubstantiableField field)))
                 (bkeys (declared_levels stmt))) (\<lambda>_.
       accept_levels (establish C sr ev trusted) (entries (declared_levels stmt)) bempty)))))"

subsection \<open>The attestation digest\<close>

definition fits_attestation :: "Attestation \<Rightarrow> bool" where
  "fits_attestation a \<longleftrightarrow> fits (att_format_version a) \<and> fits (att_report_digest a) \<and> fits (att_field a) \<and>
     fits (attestor a) \<and> fits (att_basis a)"

lemma role_str_inj [simp]: "role_str r = role_str s \<longleftrightarrow> r = s"
  by (cases r; cases s) (simp_all add: role_str_def)

lemma fits_role [simp]: "fits (role_str r)"
  by (cases r) (simp_all add: role_str_def fits_def)

interpretation attestation_code: digest_of attestation_preimage fits_attestation id
  by unfold_locales
    (auto simp: attestation_preimage_def fits_attestation_def lp_code.cut_iff lp_code.injective
      intro!: Attestation.equality)

subsection \<open>Which evidence establishes which level\<close>

definition vouches :: "crates \<Rightarrow> SignedReport \<Rightarrow> TrustedKeys \<Rightarrow> string \<Rightarrow> attestor_role \<Rightarrow> SignedAttestation \<Rightarrow> bool" where
  "vouches C sr trusted field r sa \<longleftrightarrow>
     att_format_version (attestation sa) = ATTESTATION_FORMAT_VERSION \<and>
     att_field (attestation sa) = field \<and>
     att_report_digest (attestation sa) = report_digest_hex C (report sr) \<and>
     role (attestation sa) = r \<and>
     bget (trusted_attestors trusted) (public_key (att_signature sa)) = Some r \<and>
     algorithm (att_signature sa) = SIGNATURE_ALGORITHM \<and>
     verify_signature C (public_key (att_signature sa)) (attestation_digest C (attestation sa))
       (sig_value (att_signature sa)) = Ok ()"

lemma attested_level_Some:
  "attested_level C (report_digest_hex C (report sr)) field trusted sa = Some l \<longleftrightarrow>
     (\<exists>r. vouches C sr trusted field r sa \<and> l = (case r of Issuer \<Rightarrow> IssuerAttested | ThirdParty \<Rightarrow> ThirdPartyAttested))"
  by (auto simp: attested_level_def vouches_def Let_def is_ok_iff)

lemma fold_insert_option:
  "fold (\<lambda>x acc. case f x of None \<Rightarrow> acc | Some l \<Rightarrow> insert l acc) xs acc = acc \<union> {l. \<exists>x \<in> set xs. f x = Some l}"
  by (induction xs arbitrary: acc) (auto split: option.splits)

lemma field_levels_withheld: "withheld (report sr) field \<Longrightarrow> field_levels C sr ev trusted field = {NotDisclosed}"
  by (simp add: field_levels_def)

lemma field_levels_iff:
  assumes "\<not> withheld (report sr) field"
  shows "NotDisclosed \<notin> field_levels C sr ev trusted field"
    and "ClaimedOnly \<in> field_levels C sr ev trusted field"
    and "CryptographicallyVerified \<in> field_levels C sr ev trusted field \<longleftrightarrow>
      field = ''root_sums'' \<and> (\<exists>p. ev_proof ev = Some p \<and> verify C sr p (trusted_publisher trusted) = Ok ())"
    and "LedgerDerived \<in> field_levels C sr ev trusted field \<longleftrightarrow>
      (\<exists>a. ev_anchor ev = Some a \<and> anchors_report (report sr) a (report_digest_hex C (report sr))) \<and>
      (\<exists>p. ev_provenance ev = Some p \<and> derives_from_ledger p field)"
    and "IssuerAttested \<in> field_levels C sr ev trusted field \<longleftrightarrow>
      (\<exists>sa \<in> set (ev_attestations ev). vouches C sr trusted field Issuer sa)"
    and "ThirdPartyAttested \<in> field_levels C sr ev trusted field \<longleftrightarrow>
      (\<exists>sa \<in> set (ev_attestations ev). vouches C sr trusted field ThirdParty sa)"
proof -
  define recomputed where "recomputed \<longleftrightarrow> field = ''root_sums'' \<and>
      (\<exists>p. ev_proof ev = Some p \<and> verify C sr p (trusted_publisher trusted) = Ok ())"
  define on_chain where "on_chain \<longleftrightarrow>
      (\<exists>a. ev_anchor ev = Some a \<and> anchors_report (report sr) a (report_digest_hex C (report sr))) \<and>
      (\<exists>p. ev_provenance ev = Some p \<and> derives_from_ledger p field)"
  define level :: "attestor_role \<Rightarrow> assurance_level" where
    "level r = (case r of Issuer \<Rightarrow> IssuerAttested | ThirdParty \<Rightarrow> ThirdPartyAttested)" for r
  have proof_iff: "(case ev_proof ev of None \<Rightarrow> False | Some p \<Rightarrow> is_ok (verify C sr p (trusted_publisher trusted)))
      \<longleftrightarrow> (\<exists>p. ev_proof ev = Some p \<and> verify C sr p (trusted_publisher trusted) = Ok ())"
    by (cases "ev_proof ev") (auto simp: is_ok_iff)
  have anchor_iff: "(case ev_anchor ev of None \<Rightarrow> False | Some a \<Rightarrow> anchors_report (report sr) a d) \<longleftrightarrow>
      (\<exists>a. ev_anchor ev = Some a \<and> anchors_report (report sr) a d)" for d
    by (cases "ev_anchor ev") auto
  have graph_iff: "(case ev_provenance ev of None \<Rightarrow> False | Some p \<Rightarrow> derives_from_ledger p field) \<longleftrightarrow>
      (\<exists>p. ev_provenance ev = Some p \<and> derives_from_ledger p field)"
    by (cases "ev_provenance ev") auto
  have levels: "field_levels C sr ev trusted field =
      {ClaimedOnly} \<union> {l. l = CryptographicallyVerified \<and> recomputed} \<union> {l. l = LedgerDerived \<and> on_chain} \<union>
      {l. \<exists>sa \<in> set (ev_attestations ev). \<exists>r. vouches C sr trusted field r sa \<and> l = level r}"
    using assms
    unfolding field_levels_def Let_def fold_insert_option attested_level_Some proof_iff anchor_iff graph_iff
      recomputed_def on_chain_def level_def
    by auto
  have "level r \<noteq> NotDisclosed" "level r \<noteq> ClaimedOnly" "level r \<noteq> CryptographicallyVerified"
    "level r \<noteq> LedgerDerived" "IssuerAttested = level r \<longleftrightarrow> r = Issuer"
    "ThirdPartyAttested = level r \<longleftrightarrow> r = ThirdParty" for r
    by (cases r; simp add: level_def)+
  note facts = this this(1-4) [symmetric]
  show "NotDisclosed \<notin> field_levels C sr ev trusted field"
    "ClaimedOnly \<in> field_levels C sr ev trusted field"
    "IssuerAttested \<in> field_levels C sr ev trusted field \<longleftrightarrow>
      (\<exists>sa \<in> set (ev_attestations ev). vouches C sr trusted field Issuer sa)"
    "ThirdPartyAttested \<in> field_levels C sr ev trusted field \<longleftrightarrow>
      (\<exists>sa \<in> set (ev_attestations ev). vouches C sr trusted field ThirdParty sa)"
    "CryptographicallyVerified \<in> field_levels C sr ev trusted field \<longleftrightarrow>
      field = ''root_sums'' \<and> (\<exists>p. ev_proof ev = Some p \<and> verify C sr p (trusted_publisher trusted) = Ok ())"
    "LedgerDerived \<in> field_levels C sr ev trusted field \<longleftrightarrow>
      (\<exists>a. ev_anchor ev = Some a \<and> anchors_report (report sr) a (report_digest_hex C (report sr))) \<and>
      (\<exists>p. ev_provenance ev = Some p \<and> derives_from_ledger p field)"
    unfolding levels by (simp_all add: facts recomputed_def on_chain_def)
qed

lemma bget_establish:
  "field \<in> set REPORT_RESIDENT_FIELDS \<Longrightarrow>
     bget (establish C sr ev trusted) field = Some (field_levels C sr ev trusted field)"
  "field \<notin> set REPORT_RESIDENT_FIELDS \<Longrightarrow> bget (establish C sr ev trusted) field = None"
proof -
  have "distinct (map fst (map (\<lambda>field. (field, field_levels C sr ev trusted field)) REPORT_RESIDENT_FIELDS))"
    by (simp add: REPORT_RESIDENT_FIELDS_def)
  then have "bget (establish C sr ev trusted) =
      map_of (map (\<lambda>field. (field, field_levels C sr ev trusted field)) REPORT_RESIDENT_FIELDS)"
    unfolding establish_def by (rule bget_bof_list)
  moreover have "map_of (map (\<lambda>field. (field, field_levels C sr ev trusted field)) xs) field =
      (if field \<in> set xs then Some (field_levels C sr ev trusted field) else None)" for xs
    by (induction xs) auto
  ultimately show "field \<in> set REPORT_RESIDENT_FIELDS \<Longrightarrow>
      bget (establish C sr ev trusted) field = Some (field_levels C sr ev trusted field)"
    "field \<notin> set REPORT_RESIDENT_FIELDS \<Longrightarrow> bget (establish C sr ev trusted) field = None"
    by simp_all
qed


lemma derives_from_ledger_iff:
  assumes "graph_ok p"
  shows "derives_from_ledger p field \<longleftrightarrow> names_ledger_source p field"
proof (cases "find (\<lambda>d. derived_field d = field) (derivations p)")
  case None
  then have "\<not> names_ledger_source p field" by (auto simp: find_None_iff names_ledger_source_def)
  then show ?thesis by (simp add: derives_from_ledger_def None)
next
  case (Some d)
  then have d: "d \<in> set (derivations p) \<and> derived_field d = field"
    using find_derivation [OF assms] by blast
  have only: "d' = d" if "d' \<in> set (derivations p)" "derived_field d' = field" for d'
    using that Some find_derivation [OF assms, of field d'] by simp
  have "derives_from_ledger p field \<longleftrightarrow>
      (\<exists>s \<in> set (sources p). source_id s \<in> set (derived_from d) \<and> on_ledger (kind s))"
    by (auto simp: derives_from_ledger_def Some list_ex_iff)
  also have "\<dots> \<longleftrightarrow> names_ledger_source p field"
    using d only by (auto simp: names_ledger_source_def)
  finally show ?thesis .
qed

subsection \<open>Accepted declarations\<close>

lemma accept_levels_Ok_iff:
  "accept_levels established xs accepted = Ok out \<longleftrightarrow>
     (\<forall>(field, l) \<in> set xs. \<exists>ls. bget established field = Some ls \<and> l \<in> ls) \<and>
     out = fold (\<lambda>(k, v). binsert k v) xs accepted"
  by (induction established xs accepted rule: accept_levels.induct) (auto simp: Let_def split: option.splits)

lemma accept_levels_fail:
  "accept_levels established xs accepted = Err e \<Longrightarrow>
     \<exists>field l. (field, l) \<in> set xs \<and>
       e = OverClaimed field l (sorted_list_of_set (case bget established field of None \<Rightarrow> {} | Some ls \<Rightarrow> ls))"
  by (induction established xs accepted rule: accept_levels.induct) (auto simp: Let_def split: if_splits)

definition statement_supported ::
  "crates \<Rightarrow> SignedReport \<Rightarrow> AssuranceStatement \<Rightarrow> Evidence \<Rightarrow> TrustedKeys \<Rightarrow> bool" where
  "statement_supported C sr stmt ev trusted \<longleftrightarrow>
     (\<forall>field l. bget (declared_levels stmt) field = Some l \<longrightarrow>
        field \<in> set REPORT_RESIDENT_FIELDS \<and> l \<in> field_levels C sr ev trusted field)"

lemma verify_assurance_Ok_iff:
  "verify_assurance C sr stmt ev trusted = Ok out \<longleftrightarrow>
     stmt_format_version stmt = ASSURANCE_FORMAT_VERSION \<and>
     stmt_report_digest stmt = report_digest_hex C (report sr) \<and>
     report_authentic C sr (trusted_publisher trusted) \<and>
     statement_supported C sr stmt ev trusted \<and> out = declared_levels stmt"
proof -
  let ?L = "declared_levels stmt"
  have "(\<forall>field \<in> set (bkeys ?L). field \<in> set REPORT_RESIDENT_FIELDS) \<and>
      (\<forall>(field, l) \<in> set (entries ?L). \<exists>ls. bget (establish C sr ev trusted) field = Some ls \<and> l \<in> ls)
      \<longleftrightarrow> statement_supported C sr stmt ev trusted"
  proof -
    have "(\<exists>ls. bget (establish C sr ev trusted) field = Some ls \<and> l \<in> ls) \<longleftrightarrow>
        field \<in> set REPORT_RESIDENT_FIELDS \<and> l \<in> field_levels C sr ev trusted field" for field l
      using bget_establish [of field C sr ev trusted] by (cases "field \<in> set REPORT_RESIDENT_FIELDS") simp_all
    then show ?thesis
      by (auto simp: statement_supported_def bkeys_bget bm.get_Some_iff)
  qed
  moreover have "fold (\<lambda>(k, v). binsert k v) (entries ?L) bempty = ?L"
    using bof_list_entries [of ?L] by (simp add: bof_list_def)
  ultimately show ?thesis
    by (auto simp: verify_assurance_def accept_levels_Ok_iff report_authentic_def)
qed

text \<open>More evidence never takes a level away.\<close>

definition more_evidence :: "Evidence \<Rightarrow> Evidence \<Rightarrow> bool" where
  "more_evidence ev ev' \<longleftrightarrow>
     (ev_proof ev \<noteq> None \<longrightarrow> ev_proof ev' = ev_proof ev) \<and>
     (ev_anchor ev \<noteq> None \<longrightarrow> ev_anchor ev' = ev_anchor ev) \<and>
     (ev_provenance ev \<noteq> None \<longrightarrow> ev_provenance ev' = ev_provenance ev) \<and>
     set (ev_attestations ev) \<subseteq> set (ev_attestations ev')"

lemma field_levels_mono:
  assumes "more_evidence ev ev'"
  shows "field_levels C sr ev trusted field \<subseteq> field_levels C sr ev' trusted field"
proof (cases "withheld (report sr) field")
  case True
  then show ?thesis by (simp add: field_levels_withheld)
next
  case False
  show ?thesis
  proof
    fix l assume "l \<in> field_levels C sr ev trusted field"
    with assms False show "l \<in> field_levels C sr ev' trusted field"
      by (cases l) (auto simp: field_levels_iff more_evidence_def)
  qed
qed

subsection \<open>What a declared level promises\<close>

text \<open>The specification of the six levels, in terms of the evidence alone.\<close>

definition substantiates ::
  "crates \<Rightarrow> SignedReport \<Rightarrow> Evidence \<Rightarrow> TrustedKeys \<Rightarrow> string \<Rightarrow> assurance_level \<Rightarrow> bool" where
  "substantiates C sr ev trusted field l \<longleftrightarrow> (case l of
     NotDisclosed \<Rightarrow> withheld (report sr) field
   | ClaimedOnly \<Rightarrow> \<not> withheld (report sr) field
   | IssuerAttested \<Rightarrow> \<not> withheld (report sr) field \<and>
       (\<exists>sa \<in> set (ev_attestations ev). vouches C sr trusted field Issuer sa)
   | ThirdPartyAttested \<Rightarrow> \<not> withheld (report sr) field \<and>
       (\<exists>sa \<in> set (ev_attestations ev). vouches C sr trusted field ThirdParty sa)
   | LedgerDerived \<Rightarrow> \<not> withheld (report sr) field \<and>
       (\<exists>a. ev_anchor ev = Some a \<and> anchors_report (report sr) a (report_digest_hex C (report sr))) \<and>
       (\<exists>p. ev_provenance ev = Some p \<and> derives_from_ledger p field)
   | CryptographicallyVerified \<Rightarrow> \<not> withheld (report sr) field \<and> field = ''root_sums'' \<and>
       (\<exists>p. ev_proof ev = Some p \<and> verify C sr p (trusted_publisher trusted) = Ok ()))"

lemma field_levels_substantiates: "l \<in> field_levels C sr ev trusted field \<longleftrightarrow> substantiates C sr ev trusted field l"
proof (cases "withheld (report sr) field")
  case True
  then show ?thesis by (cases l) (simp_all add: field_levels_withheld substantiates_def)
next
  case False
  then show ?thesis by (cases l) (simp_all add: field_levels_iff substantiates_def)
qed

definition statement_substantiated ::
  "crates \<Rightarrow> SignedReport \<Rightarrow> AssuranceStatement \<Rightarrow> Evidence \<Rightarrow> TrustedKeys \<Rightarrow> bool" where
  "statement_substantiated C sr stmt ev trusted \<longleftrightarrow>
     stmt_format_version stmt = ASSURANCE_FORMAT_VERSION \<and>
     stmt_report_digest stmt = report_digest_hex C (report sr) \<and>
     report_authentic C sr (trusted_publisher trusted) \<and>
     (\<forall>field l. bget (declared_levels stmt) field = Some l \<longrightarrow>
        field \<in> set REPORT_RESIDENT_FIELDS \<and> substantiates C sr ev trusted field l)"

lemma verify_assurance_refines:
  "verify_assurance C sr stmt ev trusted = Ok out \<longleftrightarrow>
     statement_substantiated C sr stmt ev trusted \<and> out = declared_levels stmt"
  by (auto simp: verify_assurance_Ok_iff statement_substantiated_def statement_supported_def
      field_levels_substantiates)

text \<open>A statement of one level about one field.\<close>

definition one_level :: "crates \<Rightarrow> SignedReport \<Rightarrow> string \<Rightarrow> assurance_level \<Rightarrow> AssuranceStatement" where
  "one_level C sr field l = \<lparr>
     stmt_format_version = ASSURANCE_FORMAT_VERSION,
     stmt_report_digest = report_digest_hex C (report sr),
     declared_levels = bof_list [(field, l)]\<rparr>"

lemma one_level_accepted:
  "verify_assurance C sr (one_level C sr field l) ev trusted = Ok (bof_list [(field, l)]) \<longleftrightarrow>
     report_authentic C sr (trusted_publisher trusted) \<and> field \<in> set REPORT_RESIDENT_FIELDS \<and>
     substantiates C sr ev trusted field l"
  by (auto simp: verify_assurance_refines statement_substantiated_def one_level_def bget_bof_list)

lemma not_withheld_v1: "manifest r = None \<Longrightarrow> \<not> withheld r field"
  by (simp add: withheld_def)

text \<open>A level taken from a graph needs nothing of the graph but its lists.\<close>

lemma unsigned_graph_accepted:
  assumes "field \<in> set REPORT_RESIDENT_FIELDS" "\<not> withheld (report sr) field" "report_authentic C sr key"
    and "derives_from_ledger p field"
    and "prov_report_digest p \<noteq> report_digest_hex C (report sr)"
  shows "verify_assurance C sr (one_level C sr field LedgerDerived)
      \<lparr>ev_proof = None, ev_anchor = Some (anchor_report C sr None), ev_attestations = [], ev_provenance = Some p\<rparr>
      \<lparr>trusted_publisher = key, trusted_attestors = bempty\<rparr> = Ok (bof_list [(field, LedgerDerived)])"
    and "provenance sp = p \<Longrightarrow> verify_provenance C sr sp k \<noteq> Ok u"
  using assms
  by (auto simp: one_level_accepted substantiates_def verify_provenance_Ok_iff anchors_report_def anchor_report_def)

end
