(* ===== verification/Coverage_Check.thy ===== *)
theory Coverage_Check
  imports Produce Instant
begin

text \<open>
  Coverage statements, \<open>solvency-report/src/coverage.rs\<close>: a custody report against a
  liabilities report, bound by digest, by signature and in time. The outcome is shown to be full
  coverage exactly when every asset owed is held in at least that amount.
\<close>

definition COVERAGE_FORMAT_VERSION :: string where
  "COVERAGE_FORMAT_VERSION = ''canton-solvency-coverage-v1''"

record CoverageStatement =
  cov_format_version :: string
  custody_report_digest :: string
  liabilities_report_digest :: string
  custody_basis :: string

record AssetCoverage =
  cov_asset :: string
  held :: u128
  owed :: u128

definition asset_covered :: "AssetCoverage \<Rightarrow> bool" where
  "asset_covered a \<longleftrightarrow> owed a \<le> held a"

definition shortfall :: "AssetCoverage \<Rightarrow> u128" where
  "shortfall a = saturating_sub (owed a) (held a)"

record CoverageOutcome =
  assets :: "AssetCoverage list"

definition fully_covered :: "CoverageOutcome \<Rightarrow> bool" where
  "fully_covered out \<longleftrightarrow> list_all asset_covered (assets out)"

definition shortfalls :: "CoverageOutcome \<Rightarrow> AssetCoverage list" where
  "shortfalls out = filter (\<lambda>a. \<not> asset_covered a) (assets out)"

definition EXACT :: u64 where "EXACT = 0"
definition SAME_RUN :: u64 where "SAME_RUN = 300"

definition expect_profile :: "SignedReport \<Rightarrow> string \<Rightarrow> verification_failure + unit" where
  "expect_profile sr wanted =
     (if profile (report sr) = wanted then Ok ()
      else Err (Profile (ExpectedProfile wanted (profile (report sr)))))"

definition check_signature :: "crates \<Rightarrow> SignedReport \<Rightarrow> string \<Rightarrow> verification_failure + unit" where
  "check_signature C sr trusted =
     and_then (ensure (public_key (signature sr) = trusted) UnknownSigner) (\<lambda>_.
       map_err signature_failure
         (verify_signature C trusted (report_digest C (report sr)) (sig_value (signature sr))))"

definition verify_coverage ::
  "crates \<Rightarrow> SignedReport \<Rightarrow> SignedReport \<Rightarrow> CoverageStatement \<Rightarrow> string \<Rightarrow> string \<Rightarrow> u64 \<Rightarrow>
     verification_failure + CoverageOutcome" where
  "verify_coverage C custody liabilities stmt custody_key liabilities_key max_skew =
     and_then (expect_version ''coverage.format_version'' (cov_format_version stmt) COVERAGE_FORMAT_VERSION) (\<lambda>_.
     and_then (expect_profile custody ''coverage.custody'') (\<lambda>_.
     and_then (expect_profile liabilities ''solvency.liabilities'') (\<lambda>_.
     and_then (ensure (report_digest_hex C (report custody) = custody_report_digest stmt) DigestMismatch) (\<lambda>_.
     and_then (ensure (report_digest_hex C (report liabilities) = liabilities_report_digest stmt) DigestMismatch) (\<lambda>_.
     and_then (check_signature C custody custody_key) (\<lambda>_.
     and_then (check_signature C liabilities liabilities_key) (\<lambda>_.
     and_then (ok_or (skew (snapshot_time (report custody)) (snapshot_time (report liabilities)))
                 (Malformed (NotTimestamps (snapshot_time (report custody)) (snapshot_time (report liabilities))))) (\<lambda>apart.
     and_then (ensure (\<not> unat max_skew < apart)
                 (TemporalMismatch (Apart (snapshot_time (report custody)) (snapshot_time (report liabilities))
                    apart max_skew))) (\<lambda>_.
       Ok \<lparr>assets = map (\<lambda>(asset, owed).
              \<lparr>cov_asset = asset, held = get0 (root_sums (report custody)) (qualified_key ''held'' asset), owed = owed\<rparr>)
              (entries (root_sums (report liabilities)))\<rparr>)))))))))"

subsection \<open>What an outcome says\<close>

lemma unat_shortfall: "unat (shortfall a) = unat (owed a) - unat (held a)"
  by (simp add: shortfall_def unat_saturating_sub)

lemma shortfall_0_iff: "shortfall a = 0 \<longleftrightarrow> asset_covered a"
  by (simp add: asset_covered_def word_le_nat_alt unat_shortfall flip: unat_inj)

lemma check_signature_Ok_iff: "check_signature C sr key = Ok u \<longleftrightarrow> report_authentic C sr key"
  by (auto simp: check_signature_def report_authentic_def)

lemma expect_profile_Ok_iff: "expect_profile sr wanted = Ok u \<longleftrightarrow> profile (report sr) = wanted"
  by (simp add: expect_profile_def)

definition coverage_bound ::
  "crates \<Rightarrow> SignedReport \<Rightarrow> SignedReport \<Rightarrow> CoverageStatement \<Rightarrow> string \<Rightarrow> string \<Rightarrow> u64 \<Rightarrow> bool" where
  "coverage_bound C custody liabilities stmt ck lk max_skew \<longleftrightarrow>
     cov_format_version stmt = COVERAGE_FORMAT_VERSION \<and>
     profile (report custody) = ''coverage.custody'' \<and> profile (report liabilities) = ''solvency.liabilities'' \<and>
     custody_report_digest stmt = report_digest_hex C (report custody) \<and>
     liabilities_report_digest stmt = report_digest_hex C (report liabilities) \<and>
     report_authentic C custody ck \<and> report_authentic C liabilities lk \<and>
     (\<exists>x y. parse_instant (snapshot_time (report custody)) = Some x \<and>
        parse_instant (snapshot_time (report liabilities)) = Some y \<and> nat \<bar>x - y\<bar> \<le> unat max_skew)"

lemma verify_coverage_Ok_iff:
  "verify_coverage C custody liabilities stmt ck lk max_skew = Ok out \<longleftrightarrow>
     coverage_bound C custody liabilities stmt ck lk max_skew \<and>
     out = \<lparr>assets = map (\<lambda>(asset, owed).
       \<lparr>cov_asset = asset, held = get0 (root_sums (report custody)) (qualified_key ''held'' asset), owed = owed\<rparr>)
       (entries (root_sums (report liabilities)))\<rparr>"
  by (auto simp: verify_coverage_def coverage_bound_def expect_version_Ok_iff expect_profile_Ok_iff
      check_signature_Ok_iff skew_iff not_less)

lemma fully_covered_iff:
  assumes "verify_coverage C custody liabilities stmt ck lk max_skew = Ok out"
  shows "fully_covered out \<longleftrightarrow>
     (\<forall>a. amount_of (root_sums (report liabilities)) a \<le>
          amount_of (root_sums (report custody)) (qualified_key ''held'' a))"
proof -
  let ?L = "root_sums (report liabilities)" and ?C = "root_sums (report custody)"
  have "fully_covered out \<longleftrightarrow> (\<forall>(a, v) \<in> set (entries ?L). v \<le> get0 ?C (qualified_key ''held'' a))"
    using assms by (auto simp: verify_coverage_Ok_iff fully_covered_def asset_covered_def list_all_iff)
  also have "\<dots> \<longleftrightarrow> (\<forall>a. get0 ?L a \<le> get0 ?C (qualified_key ''held'' a))"
    by (rule entries_le_iff)
  finally show ?thesis by (simp add: amount_of_def word_le_nat_alt)
qed

lemma shortfalls_empty_iff: "shortfalls out = [] \<longleftrightarrow> fully_covered out"
  by (auto simp: shortfalls_def fully_covered_def list_all_iff filter_empty_conv)

end
