(* ===== verification/Pack.thy ===== *)
theory Pack
  imports Produce
begin

text \<open>
  Evidence packs, \<open>solvency-report/src/pack.rs\<close>: a signed index of member files. The lemmas
  show that assembling does not depend on order, that a built pack verifies, and that a verified
  pack pins the delivery: exactly the named members, byte for byte up to a collision.
\<close>

definition PACK_FORMAT_VERSION :: string where "PACK_FORMAT_VERSION = ''canton-solvency-pack-v1''"
definition PACK_DIGEST_DOMAIN :: bytes where "PACK_DIGEST_DOMAIN = ''rocky-solvency-pack-v1''"

record PackEntry =
  entry_name :: string
  entry_sha256 :: string

record Pack =
  pack_format_version :: string
  pack_publisher :: string
  pack_snapshot_time :: string
  pack_report_digest :: string
  pack_entries :: "PackEntry list"

record SignedPack =
  pack :: Pack
  pack_signature :: SignatureBlock

datatype pack_failure =
    PackUnsupportedVersion string
  | DuplicateEntry string
  | UnsafeName string
  | Missing string
  | Altered string
  | Unlisted string
  | PackReportMismatch
  | PackUnknownSigner
  | PackBadSignature

definition safe_file_name :: "string \<Rightarrow> bool" where
  "safe_file_name name \<longleftrightarrow>
     \<not> (name = [] \<or> CHR ''/'' \<in> set name \<or> CHR 0x5C \<in> set name \<or> name = ''.'' \<or> name = ''..'')"

definition check_name :: "string \<Rightarrow> pack_failure + unit" where
  "check_name name = ensure (safe_file_name name) (UnsafeName name)"

definition member_digest :: "crates \<Rightarrow> bytes \<Rightarrow> string" where
  "member_digest C bs = hex_encode C (arr32 (sha256 C bs))"

definition pack_entry_bytes :: "PackEntry \<Rightarrow> bytes" where
  "pack_entry_bytes e = lp (entry_name e) @ lp (entry_sha256 e)"

definition pack_preimage :: "Pack \<Rightarrow> bytes" where
  "pack_preimage p =
     PACK_DIGEST_DOMAIN @
     lp (pack_format_version p) @
     lp (pack_publisher p) @
     lp (pack_snapshot_time p) @
     lp (pack_report_digest p) @
     u64_le (of_nat (length (pack_entries p))) @ concat (map pack_entry_bytes (pack_entries p))"

definition pack_digest :: "crates \<Rightarrow> Pack \<Rightarrow> b32" where
  "pack_digest C p = sha256 C (pack_preimage p)"

text \<open>The loop that fills the ordered index.\<close>

fun index_members :: "crates \<Rightarrow> (string \<times> bytes) list \<Rightarrow> string bmap \<Rightarrow> pack_failure + string bmap" where
  "index_members C [] es = Ok es"
| "index_members C ((name, bs) # rest) es =
     and_then (check_name name) (\<lambda>_.
     and_then (ensure (\<not> bcontains es name) (DuplicateEntry name)) (\<lambda>_.
       index_members C rest (binsert name (member_digest C bs) es)))"

definition build_pack ::
  "crates \<Rightarrow> string \<Rightarrow> string \<Rightarrow> string \<Rightarrow> (string \<times> bytes) list \<Rightarrow> ReportSigner \<Rightarrow>
     pack_failure + SignedPack" where
  "build_pack C pub time digest members signer =
     and_then (index_members C members bempty) (\<lambda>es.
       (let p = \<lparr>pack_format_version = PACK_FORMAT_VERSION,
                 pack_publisher = pub,
                 pack_snapshot_time = time,
                 pack_report_digest = digest,
                 pack_entries = map (\<lambda>(name, d). \<lparr>entry_name = name, entry_sha256 = d\<rparr>) (entries es)\<rparr>
        in Ok \<lparr>pack = p,
               pack_signature = \<lparr>algorithm = ''ed25519'',
                                 public_key = public_key_hex C signer,
                                 sig_value = sign_digest C signer (pack_digest C p)\<rparr>\<rparr>))"

definition check_entry :: "crates \<Rightarrow> bytes bmap \<Rightarrow> PackEntry \<Rightarrow> pack_failure + unit" where
  "check_entry C members e =
     and_then (check_name (entry_name e)) (\<lambda>_.
     and_then (ok_or (bget members (entry_name e)) (Missing (entry_name e))) (\<lambda>bs.
       ensure (eq_ignore_ascii_case (member_digest C bs) (entry_sha256 e)) (Altered (entry_name e))))"

definition verify_pack :: "crates \<Rightarrow> SignedPack \<Rightarrow> string \<Rightarrow> bytes bmap \<Rightarrow> pack_failure + unit" where
  "verify_pack C sp trusted members =
     and_then (ensure (pack_format_version (pack sp) = PACK_FORMAT_VERSION)
                 (PackUnsupportedVersion (pack_format_version (pack sp)))) (\<lambda>_.
     and_then (ensure (eq_ignore_ascii_case (public_key (pack_signature sp)) (trim trusted)) PackUnknownSigner) (\<lambda>_.
     and_then (map_err (\<lambda>_. PackBadSignature)
                 (verify_signature C (trim trusted) (pack_digest C (pack sp)) (sig_value (pack_signature sp)))) (\<lambda>_.
     and_then (for_each (check_entry C members) (pack_entries (pack sp))) (\<lambda>_.
       for_each (\<lambda>name. ensure (list_ex (\<lambda>e. entry_name e = name) (pack_entries (pack sp))) (Unlisted name))
         (bkeys members)))))"

subsection \<open>The pack digest\<close>

definition fits_entry :: "PackEntry \<Rightarrow> bool" where
  "fits_entry e \<longleftrightarrow> fits (entry_name e) \<and> fits (entry_sha256 e)"

definition fits_pack :: "Pack \<Rightarrow> bool" where
  "fits_pack p \<longleftrightarrow> fits (pack_format_version p) \<and> fits (pack_publisher p) \<and> fits (pack_snapshot_time p) \<and>
     fits (pack_report_digest p) \<and> length (pack_entries p) < 2 ^ 63 \<and> list_all fits_entry (pack_entries p)"

lemma pack_entry_cut:
  assumes "fits_entry x" "fits_entry y" "pack_entry_bytes x @ r = pack_entry_bytes y @ s"
  shows "x = y \<and> r = s"
  using assms by (auto simp: pack_entry_bytes_def fits_entry_def lp_code.cut_iff intro!: PackEntry.equality)

interpretation pack_entry_code: prefix_code pack_entry_bytes fits_entry
  by unfold_locales (rule pack_entry_cut)

lemma pack_preimage_inj:
  assumes "fits_pack x" "fits_pack y" "pack_preimage x = pack_preimage y"
  shows "x = y"
proof -
  have lens: "length (pack_entries x) < 2 ^ 64" "length (pack_entries y) < 2 ^ 64"
    and ok: "list_all fits_entry (pack_entries x)" "list_all fits_entry (pack_entries y)"
    using assms(1,2) by (simp_all add: fits_pack_def)
  have head: "pack_format_version x = pack_format_version y" "pack_publisher x = pack_publisher y"
    "pack_snapshot_time x = pack_snapshot_time y" "pack_report_digest x = pack_report_digest y"
    and rest: "counted pack_entry_bytes (pack_entries x) @ [] = counted pack_entry_bytes (pack_entries y) @ []"
    using assms by (simp_all add: pack_preimage_def fits_pack_def lp_code.cut_iff counted_def)
  from pack_entry_code.counted_cut [OF lens(1) ok(1) lens(2) ok(2) rest] head
  show ?thesis by (auto intro!: Pack.equality)
qed

interpretation pack_code: digest_of pack_preimage fits_pack id
  by unfold_locales (simp add: pack_preimage_inj)

subsection \<open>Building\<close>

lemma index_members_Ok_iff:
  "index_members C ms es = Ok out \<longleftrightarrow>
     distinct (map fst ms) \<and> (\<forall>n \<in> fst ` set ms. safe_file_name n \<and> bget es n = None) \<and>
     out = fold (\<lambda>(k, v). binsert k v) (map (\<lambda>(n, bs). (n, member_digest C bs)) ms) es"
proof (induction C ms es rule: index_members.induct)
  case (2 C name bs rest es)
  let ?es = "binsert name (member_digest C bs) es"
  show ?case
  proof (cases "safe_file_name name \<and> bget es name = None")
    case True
    then have "check_name name = Ok ()" "ensure (\<not> bcontains es name) (DuplicateEntry name) = Ok ()"
      by (simp_all add: check_name_def bcontains_def)
    note IH = "2.IH" [OF this]
    have "(\<forall>n \<in> fst ` set rest. safe_file_name n \<and> bget ?es n = None) \<longleftrightarrow>
        name \<notin> fst ` set rest \<and> (\<forall>n \<in> fst ` set rest. safe_file_name n \<and> bget es n = None)"
      by (metis (full_types) bget_binsert option.distinct(1))
    with True IH show ?thesis by (auto simp: check_name_def bcontains_def)
  next
    case False
    then show ?thesis by (auto simp: check_name_def bcontains_def)
  qed
qed auto

definition built_pack ::
  "crates \<Rightarrow> string \<Rightarrow> string \<Rightarrow> string \<Rightarrow> (string \<times> bytes) list \<Rightarrow> Pack" where
  "built_pack C pub time digest ms =
     \<lparr>pack_format_version = PACK_FORMAT_VERSION, pack_publisher = pub, pack_snapshot_time = time,
      pack_report_digest = digest,
      pack_entries = map (\<lambda>(name, d). \<lparr>entry_name = name, entry_sha256 = d\<rparr>)
        (entries (bmap_values (member_digest C) (bof_list ms)))\<rparr>"

lemma bof_list_digests:
  assumes "distinct (map fst ms)"
  shows "bof_list (map (\<lambda>(n, bs). (n, f bs)) ms) = bmap_values f (bof_list ms)"
proof (rule bm.ext, rule ext)
  fix k
  have keys: "map fst (map (\<lambda>(n, bs). (n, f bs)) ms) = map fst ms" by (induction ms) auto
  have "map_of (map (\<lambda>(n, bs). (n, f bs)) ms) k = map_option f (map_of ms k)"
    by (induction ms) auto
  moreover have "bget (bof_list (map (\<lambda>(n, bs). (n, f bs)) ms)) = map_of (map (\<lambda>(n, bs). (n, f bs)) ms)"
    by (rule bget_bof_list) (use assms keys in argo)
  ultimately show "bget (bof_list (map (\<lambda>(n, bs). (n, f bs)) ms)) k = bget (bmap_values f (bof_list ms)) k"
    using bget_bof_list [OF assms] by (simp add: bget_bmap_values)
qed

lemma index_members_empty:
  "index_members C ms bempty = Ok out \<longleftrightarrow>
     distinct (map fst ms) \<and> (\<forall>n \<in> fst ` set ms. safe_file_name n) \<and>
     out = bmap_values (member_digest C) (bof_list ms)"
  using bof_list_digests [of ms "member_digest C"] by (auto simp: index_members_Ok_iff bof_list_def)

lemma build_pack_Ok_iff:
  "build_pack C pub time digest ms signer = Ok sp \<longleftrightarrow>
     distinct (map fst ms) \<and> (\<forall>n \<in> fst ` set ms. safe_file_name n) \<and>
     sp = \<lparr>pack = built_pack C pub time digest ms,
           pack_signature = \<lparr>algorithm = ''ed25519'', public_key = public_key_hex C signer,
             sig_value = sign_digest C signer (pack_digest C (built_pack C pub time digest ms))\<rparr>\<rparr>"
  by (auto simp: build_pack_def index_members_empty Let_def built_pack_def)

text \<open>The same files in another order give the same pack.\<close>

lemma build_pack_order:
  assumes "distinct (map fst ms)" "distinct (map fst ms')" "set ms = set ms'"
    and "build_pack C pub time digest ms signer = Ok sp"
  shows "build_pack C pub time digest ms' signer = Ok sp"
proof -
  have "bof_list ms = bof_list ms'"
    unfolding bof_list_def using assms(1-3) by (rule bm.fold_insert_order)
  then have "built_pack C pub time digest ms = built_pack C pub time digest ms'"
    by (simp add: built_pack_def)
  then show ?thesis using assms by (simp add: build_pack_Ok_iff)
qed

subsection \<open>Verifying\<close>

definition delivery_matches :: "crates \<Rightarrow> Pack \<Rightarrow> bytes bmap \<Rightarrow> bool" where
  "delivery_matches C p members \<longleftrightarrow>
     set (bkeys members) = entry_name ` set (pack_entries p) \<and>
     (\<forall>e \<in> set (pack_entries p). safe_file_name (entry_name e) \<and>
        (\<exists>bs. bget members (entry_name e) = Some bs \<and>
           eq_ignore_ascii_case (member_digest C bs) (entry_sha256 e)))"

definition pack_authentic :: "crates \<Rightarrow> SignedPack \<Rightarrow> string \<Rightarrow> bool" where
  "pack_authentic C sp trusted \<longleftrightarrow>
     pack_format_version (pack sp) = PACK_FORMAT_VERSION \<and>
     eq_ignore_ascii_case (public_key (pack_signature sp)) (trim trusted) \<and>
     verify_signature C (trim trusted) (pack_digest C (pack sp)) (sig_value (pack_signature sp)) = Ok ()"

lemma verify_pack_Ok_iff:
  "verify_pack C sp trusted members = Ok u \<longleftrightarrow>
     pack_authentic C sp trusted \<and> delivery_matches C (pack sp) members"
proof -
  have "(\<forall>e \<in> set (pack_entries (pack sp)). check_entry C members e = Ok ()) \<and>
      (\<forall>n \<in> set (bkeys members). list_ex (\<lambda>e. entry_name e = n) (pack_entries (pack sp)))
      \<longleftrightarrow> delivery_matches C (pack sp) members"
    by (auto simp: delivery_matches_def check_entry_def check_name_def list_ex_iff bkeys_bget)
  then show ?thesis by (auto simp: verify_pack_def pack_authentic_def)
qed

text \<open>Two deliveries one pack accepts have the same files, up to a collision of two of them.\<close>

lemma eq_ignore_case_trans:
  "eq_ignore_ascii_case a c \<Longrightarrow> eq_ignore_ascii_case b c \<Longrightarrow> eq_ignore_ascii_case a b"
  by (simp add: eq_ignore_ascii_case_def)

lemma hex_lower_digit:
  assumes "hex_lower C" "c \<in> set (hex_encode C bs)"
  shows "plain_char c \<and> to_ascii_lowercase c = c"
proof -
  have "c \<in> set ''0123456789abcdef''" using assms by (auto simp only: hex_lower_def)
  moreover have "list_all (\<lambda>c. plain_char c \<and> to_ascii_lowercase c = c) ''0123456789abcdef''"
    by code_simp
  ultimately show ?thesis unfolding list_all_iff by blast
qed

lemma hex_lower_case:
  assumes "hex_lower C"
  shows "eq_ignore_ascii_case (hex_encode C a) (hex_encode C b) \<longleftrightarrow> hex_encode C a = hex_encode C b"
proof -
  have "map to_ascii_lowercase (hex_encode C x) = hex_encode C x" for x
    by (rule map_idI) (simp add: hex_lower_digit [OF assms])
  then show ?thesis by (simp add: eq_ignore_ascii_case_def)
qed

lemma pack_pins_delivery:
  assumes "hex_spec C" "hex_lower C"
    and "verify_pack C sp k1 m1 = Ok ()" "verify_pack C sp k2 m2 = Ok ()"
  shows "m1 = m2 \<or> (\<exists>n x y. bget m1 n = Some x \<and> bget m2 n = Some y \<and> collides C x y)"
proof (rule disjCI)
  assume no: "\<not> (\<exists>n x y. bget m1 n = Some x \<and> bget m2 n = Some y \<and> collides C x y)"
  have d: "delivery_matches C (pack sp) m1" "delivery_matches C (pack sp) m2"
    using assms(3,4) by (simp_all add: verify_pack_Ok_iff)
  show "m1 = m2"
  proof (rule bm.ext, rule ext)
    fix n
    show "bget m1 n = bget m2 n"
    proof (cases "n \<in> entry_name ` set (pack_entries (pack sp))")
      case True
      then obtain e where "e \<in> set (pack_entries (pack sp))" "n = entry_name e" by blast
      with d obtain x y where e: "bget m1 n = Some x" "bget m2 n = Some y"
          "eq_ignore_ascii_case (member_digest C x) (entry_sha256 e)"
          "eq_ignore_ascii_case (member_digest C y) (entry_sha256 e)"
        unfolding delivery_matches_def by metis
      from eq_ignore_case_trans [OF e(3,4)] have "member_digest C x = member_digest C y"
        unfolding member_digest_def by (simp only: hex_lower_case [OF assms(2)])
      then have "sha256 C x = sha256 C y"
        using assms(1) by (simp add: member_digest_def hex_inj arr32_inject)
      with no e show ?thesis by (auto dest: sha256_eqD)
    next
      case False
      then have "bget m1 n = None" "bget m2 n = None"
        using d by (simp_all add: delivery_matches_def bget_None_iff)
      then show ?thesis by simp
    qed
  qed
qed

text \<open>Leaving a file out of an accepted delivery is reported as that file missing.\<close>

lemma dropped_member_reported:
  assumes "verify_pack C sp trusted members = Ok ()" "n \<in> set (bkeys members)"
    and "\<And>k. bget members' k = (if k = n then None else bget members k)"
  shows "verify_pack C sp trusted members' = Err (Missing n)"
proof -
  have d: "delivery_matches C (pack sp) members" and a: "pack_authentic C sp trusted"
    using assms(1) by (simp_all add: verify_pack_Ok_iff)
  have check: "check_entry C members' e = (if entry_name e = n then Err (Missing n) else Ok ())"
    if "e \<in> set (pack_entries (pack sp))" for e
    using d that by (auto simp: delivery_matches_def check_entry_def check_name_def assms(3))
  have "for_each f es = Err (Missing n)"
    if "n \<in> entry_name ` set es" "\<forall>e \<in> set es. f e = (if entry_name e = n then Err (Missing n) else Ok ())"
    for f :: "PackEntry \<Rightarrow> pack_failure + unit" and es
    using that by (induction es) auto
  moreover have "n \<in> entry_name ` set (pack_entries (pack sp))"
    using d assms(2) by (simp add: delivery_matches_def)
  ultimately have "for_each (check_entry C members') (pack_entries (pack sp)) = Err (Missing n)"
    using check by simp
  then show ?thesis using a by (simp add: verify_pack_def pack_authentic_def)
qed

text \<open>A built pack verifies against what it was built from.\<close>

lemma trim_hex:
  assumes "hex_lower C"
  shows "trim (hex_encode C a) = hex_encode C a"
  by (rule trim_plain) (simp add: list_all_iff hex_lower_digit [OF assms])

lemma built_pack_verifies:
  assumes "hex_spec C" "hex_lower C" "ed25519_spec C" "build_pack C pub time digest ms signer = Ok sp"
  shows "verify_pack C sp (public_key_hex C signer) (bof_list ms) = Ok ()"
proof -
  have sp: "distinct (map fst ms)" "\<forall>n \<in> fst ` set ms. safe_file_name n"
    "sp = \<lparr>pack = built_pack C pub time digest ms,
       pack_signature = \<lparr>algorithm = ''ed25519'', public_key = public_key_hex C signer,
         sig_value = sign_digest C signer (pack_digest C (built_pack C pub time digest ms))\<rparr>\<rparr>"
    using assms(4) by (simp_all add: build_pack_Ok_iff)
  have key: "trim (public_key_hex C signer) = public_key_hex C signer"
    using assms(2) by (simp add: public_key_hex_def trim_hex)
  have "pack_authentic C sp (public_key_hex C signer)"
    using assms(1,3)
    by (simp add: pack_authentic_def sp(3) key own_signature_verifies built_pack_def eq_ignore_ascii_case_def)
  moreover have "delivery_matches C (pack sp) (bof_list ms)"
    unfolding delivery_matches_def
  proof (intro conjI ballI)
    show "set (bkeys (bof_list ms)) = entry_name ` set (pack_entries (pack sp))"
      by (simp add: sp(3) built_pack_def bkeys_def image_image split_beta)
  next
    fix e assume "e \<in> set (pack_entries (pack sp))"
    then obtain n bs where e: "e = \<lparr>entry_name = n, entry_sha256 = member_digest C bs\<rparr>"
        and "(n, bs) \<in> set (entries (bof_list ms))"
      by (auto simp: sp(3) built_pack_def)
    then have got: "bget (bof_list ms) n = Some bs" by (simp add: bm.get_Some_iff)
    then show "\<exists>bs. bget (bof_list ms) (entry_name e) = Some bs \<and>
        eq_ignore_ascii_case (member_digest C bs) (entry_sha256 e)"
      by (simp add: e eq_ignore_ascii_case_def)
    from got have "(n, bs) \<in> set ms" using bget_bof_list [OF sp(1)] sp(1) by simp
    then show "safe_file_name (entry_name e)" using sp(2) by (force simp: e)
  qed
  ultimately show ?thesis by (simp add: verify_pack_Ok_iff)
qed

end
