(* ===== verification/Json_Value.thy ===== *)
theory Json_Value
  imports Ordered_Map
begin

text \<open>
  The values of \<open>serde_json\<close>, which the code reads field by field where a document has no
  Rust type of its own: a corpus manifest, a participant's responses, the bodies of a Scan
  instance. An object is a
  map ordered by key, so it lists each key once. A number is kept as the text it prints as.
\<close>

datatype json =
    JNull
  | JBool bool
  | JNumber string
  | JString string
  | JArray "json list"
  | JObject "(string \<times> json) list"

text \<open>\<open>json!({ ... })\<close> and \<open>collect::<serde_json::Map<_, _>>()\<close>: a later entry of a key
  replaces an earlier one.\<close>

definition json_object :: "(string \<times> json) list \<Rightarrow> json" where
  "json_object kvs = JObject (entries (bof_list kvs))"

definition json_get :: "string \<Rightarrow> json \<Rightarrow> json option" where
  "json_get key v = (case v of JObject kvs \<Rightarrow> map_of kvs key | _ \<Rightarrow> None)"

text \<open>Indexing, null when there is nothing.\<close>

definition json_index :: "json \<Rightarrow> string \<Rightarrow> json" where
  "json_index v k = (case json_get k v of None \<Rightarrow> JNull | Some w \<Rightarrow> w)"

text \<open>\<open>pointer\<close>, for tokens that are no array index.\<close>

definition json_pointer :: "string list \<Rightarrow> json \<Rightarrow> json option" where
  "json_pointer path v = fold (\<lambda>key found. Option.bind found (json_get key)) path (Some v)"

definition as_str :: "json \<Rightarrow> string option" where
  "as_str v = (case v of JString s \<Rightarrow> Some s | _ \<Rightarrow> None)"

definition as_array :: "json \<Rightarrow> json list option" where
  "as_array v = (case v of JArray xs \<Rightarrow> Some xs | _ \<Rightarrow> None)"

lemma json_get_object: "json_get key (json_object kvs) = bget (bof_list kvs) key"
  by (simp add: json_get_def json_object_def bget_def)

lemma json_get_object_distinct:
  "distinct (map fst kvs) \<Longrightarrow> json_get key (json_object kvs) = map_of kvs key"
  by (simp add: json_get_object bget_bof_list)

lemma as_str_Some [simp]: "as_str v = Some s \<longleftrightarrow> v = JString s"
  by (cases v) (auto simp: as_str_def)

lemma as_array_Some [simp]: "as_array v = Some xs \<longleftrightarrow> v = JArray xs"
  by (cases v) (auto simp: as_array_def)

text \<open>\<open>serde_json::from_str\<close> and \<open>to_string\<close>, which are not under \<open>src\<close>.\<close>

record json_text =
  from_text :: "bytes \<Rightarrow> json option"
  to_text :: "json \<Rightarrow> bytes"

text \<open>Parsing reads back what was printed.\<close>

definition json_text_spec :: "json_text \<Rightarrow> bool" where
  "json_text_spec J \<longleftrightarrow> (\<forall>v. from_text J (to_text J v) = Some v)"

end
