(* ===== verification/Compat.thy ===== *)
theory Compat
  imports Assurance Group Coverage_Check Pack Json_Value
begin

text \<open>
  Compatibility statements, \<open>solvency-report/src/compat.rs\<close>: the digest of a corpus, one case
  of it dispatched to the verifier of its kind, the statement an implementation makes over a corpus
  and the defects a reader finds in one. The files of a case directory are a map from names to
  contents; the decoders \<open>serde_json\<close> generates for the documents are the record
  \<open>decoders\<close>, an argument of what reads files. The lemmas show that a statement built here has
  no defect and says what running its cases gives.
\<close>

text \<open>\<open>env!("CARGO_PKG_VERSION")\<close>, from \<open>solvency-report/Cargo.toml\<close>.\<close>

definition CARGO_PKG_VERSION :: string where "CARGO_PKG_VERSION = ''0.2.1''"

definition COMPAT_FORMAT_VERSION :: string where "COMPAT_FORMAT_VERSION = ''canton-solvency-compat-v1''"
definition CORPUS_DIGEST_DOMAIN :: bytes where "CORPUS_DIGEST_DOMAIN = ''rocky-solvency-corpus-v1''"

definition SUPPORTED :: "string list" where
  "SUPPORTED =
     [''anchor-v1'', ''assurance-v1'', ''provenance-v1'', ''coverage-v1'', ''group-v1'', ''leaf-v2'',
      ''manifest'', ''pack-v1'', ''proof-v1'', ''proof-v2'', ''report-v1'', ''report-v2'']"

record CaseResult =
  result_id :: string
  expected :: string
  outcome :: string

record Statement =
  compat_format_version :: string
  implementation :: string
  impl_version :: string
  supports :: "string list"
  statement_corpus_digest :: string
  results :: "CaseResult list"

record CaseSpec =
  case_id :: string
  expect :: string
  requires :: "string list"

subsection \<open>The corpus digest\<close>

definition case_bytes :: "CaseSpec \<Rightarrow> bytes" where
  "case_bytes c =
     lp (case_id c) @ lp (expect c) @ u64_le (of_nat (length (requires c))) @ concat (map lp (requires c))"

definition corpus_preimage :: "CaseSpec list \<Rightarrow> bytes" where
  "corpus_preimage cases = CORPUS_DIGEST_DOMAIN @ u64_le (of_nat (length cases)) @ concat (map case_bytes cases)"

definition corpus_digest :: "crates \<Rightarrow> CaseSpec list \<Rightarrow> string" where
  "corpus_digest C cases = hex_encode C (arr32 (sha256 C (corpus_preimage cases)))"

subsection \<open>The corpus manifest\<close>

definition as_str_or_default :: "json \<Rightarrow> string" where
  "as_str_or_default v = (case v of JString s \<Rightarrow> s | _ \<Rightarrow> [])"

definition read_case :: "json \<Rightarrow> CaseSpec" where
  "read_case c =
     \<lparr>case_id = as_str_or_default (json_index c ''id''),
      expect = as_str_or_default (json_index c ''expect''),
      requires = (case as_array (json_index c ''requires'') of
                    None \<Rightarrow> []
                  | Some vs \<Rightarrow> map as_str_or_default vs)\<rparr>"

definition read_cases :: "json \<Rightarrow> string + CaseSpec list" where
  "read_cases corpus_manifest =
     and_then (ok_or (as_array (json_index corpus_manifest ''cases'')) ''the manifest has no cases'') (\<lambda>cs.
       Ok (map read_case cs))"

subsection \<open>What a reader checks\<close>

definition case_defect :: "Statement \<Rightarrow> CaseSpec \<Rightarrow> string list" where
  "case_defect st c =
     (case find (\<lambda>r. result_id r = case_id c) (results st) of
        None \<Rightarrow> [case_id c @ '': no result reported'']
      | Some r \<Rightarrow>
          (let claimed = list_all (\<lambda>n. n \<in> set (supports st)) (requires c);
               skipped = (outcome r = ''skip'')
           in (if claimed \<and> skipped
                 then [case_id c @ '': claims '' @ join '', '' (requires c) @ '' but skipped the case''] else []) @
              (if \<not> claimed \<and> \<not> skipped
                 then [case_id c @ '': reported '' @ outcome r @ '' but does not claim '' @
                       join '', '' (filter (\<lambda>n. n \<notin> set (supports st)) (requires c))] else [])))"

definition defects :: "Statement \<Rightarrow> CaseSpec list \<Rightarrow> string list" where
  "defects st cases = concat (map (case_defect st) cases)"

subsection \<open>Running a case\<close>

record decoders =
  de_report :: "bytes \<Rightarrow> string + SignedReport"
  de_proof :: "bytes \<Rightarrow> string + ProofDocument"
  de_proof_v2 :: "bytes \<Rightarrow> string + ProofDocumentV2"
  de_membership :: "bytes \<Rightarrow> string + GroupMembershipDocument"
  de_coverage :: "bytes \<Rightarrow> string + CoverageStatement"
  de_anchor :: "bytes \<Rightarrow> string + Anchor"
  de_anchors :: "bytes \<Rightarrow> string + Anchor list"
  de_provenance :: "bytes \<Rightarrow> string + SignedProvenance"
  de_assurance :: "bytes \<Rightarrow> string + AssuranceStatement"
  de_attestations :: "bytes \<Rightarrow> string + SignedAttestation list"
  de_attestors :: "bytes \<Rightarrow> string + attestor_role bmap"
  de_pack :: "bytes \<Rightarrow> string + SignedPack"
  de_version :: "bytes \<Rightarrow> string + string"
  de_dump :: "bytes \<Rightarrow> string + (string \<times> string \<times> string bmap) list"

text \<open>The last two read the \<open>format_version\<close> of a document and the entries (salt, user,
  balances) of a leaf dump, for the command line.

  The failure whose text \<open>to_string\<close> renders:\<close>

datatype case_failure =
    LoadFailed string
  | CaseVerification verification_failure
  | CaseGroupChain verification_failure
  | CaseAnchors chain_failure
  | CasePack pack_failure
  | CaseShortfall
  | UnknownKind string

definition load :: "(bytes \<Rightarrow> string + 'a) \<Rightarrow> bytes bmap \<Rightarrow> string \<Rightarrow> case_failure + 'a" where
  "load parse dir name =
     and_then (ok_or (bget dir name) (LoadFailed ''No such file or directory'')) (\<lambda>text.
     and_then (ensure (valid_utf8 text) (LoadFailed ''stream did not contain valid UTF-8'')) (\<lambda>_.
       map_err LoadFailed (parse text)))"

text \<open>\<open>.ok()\<close> and \<open>.unwrap_or_default()\<close>\<close>

definition ok :: "'e + 'a \<Rightarrow> 'a option" where
  "ok r = (case r of Inl _ \<Rightarrow> None | Inr a \<Rightarrow> Some a)"

definition unwrap_or :: "'e + 'a \<Rightarrow> 'a \<Rightarrow> 'a" where
  "unwrap_or r d = (case r of Inl _ \<Rightarrow> d | Inr a \<Rightarrow> a)"

definition run_proof_case :: "crates \<Rightarrow> decoders \<Rightarrow> bytes bmap \<Rightarrow> string \<Rightarrow> case_failure + unit" where
  "run_proof_case C D dir key =
     and_then (load (de_report D) dir ''report.json'') (\<lambda>sr.
     and_then (load (de_proof D) dir ''proof.json'') (\<lambda>proof.
       map_err CaseVerification (verify C sr proof key)))"

definition run_proof_v2_case :: "crates \<Rightarrow> decoders \<Rightarrow> bytes bmap \<Rightarrow> string \<Rightarrow> case_failure + unit" where
  "run_proof_v2_case C D dir key =
     and_then (load (de_report D) dir ''report.json'') (\<lambda>sr.
     and_then (load (de_proof_v2 D) dir ''proof.json'') (\<lambda>proof.
       map_err CaseVerification (verify_v2 C sr proof key)))"

definition run_chain_case :: "crates \<Rightarrow> decoders \<Rightarrow> bytes bmap \<Rightarrow> string \<Rightarrow> case_failure + unit" where
  "run_chain_case C D dir key =
     and_then (load (de_report D) dir ''group-report.json'') (\<lambda>group.
     and_then (load (de_membership D) dir ''membership.json'') (\<lambda>membership.
     and_then (load (de_report D) dir ''entity-report.json'') (\<lambda>entity.
     and_then (load (de_proof D) dir ''proof.json'') (\<lambda>proof.
       map_err CaseGroupChain (verify_chain C group membership entity proof key key)))))"

definition run_membership_case :: "crates \<Rightarrow> decoders \<Rightarrow> bytes bmap \<Rightarrow> string \<Rightarrow> case_failure + unit" where
  "run_membership_case C D dir key =
     and_then (load (de_report D) dir ''group-report.json'') (\<lambda>sr.
     and_then (load (de_membership D) dir ''membership.json'') (\<lambda>membership.
       map_err CaseVerification (verify_membership C sr membership key)))"

definition run_coverage_case :: "crates \<Rightarrow> decoders \<Rightarrow> bytes bmap \<Rightarrow> string \<Rightarrow> case_failure + unit" where
  "run_coverage_case C D dir key =
     and_then (load (de_report D) dir ''custody.json'') (\<lambda>custody.
     and_then (load (de_report D) dir ''liabilities.json'') (\<lambda>liabilities.
     and_then (load (de_coverage D) dir ''statement.json'') (\<lambda>stmt.
     and_then (map_err CaseVerification (verify_coverage C custody liabilities stmt key key SAME_RUN)) (\<lambda>out.
       ensure (fully_covered out) CaseShortfall))))"

definition run_provenance_case :: "crates \<Rightarrow> decoders \<Rightarrow> bytes bmap \<Rightarrow> string \<Rightarrow> case_failure + unit" where
  "run_provenance_case C D dir key =
     and_then (load (de_report D) dir ''report.json'') (\<lambda>sr.
     and_then (load (de_provenance D) dir ''provenance.json'') (\<lambda>signed.
     and_then (map_err CaseVerification (verify_provenance C sr signed key)) (\<lambda>_.
       (case ok (load (de_assurance D) dir ''assurance.json'') of
          None \<Rightarrow> Ok ()
        | Some stmt \<Rightarrow>
            map_err CaseVerification (check_against_assurance (provenance signed) (declared_levels stmt))))))"

definition run_assurance_case :: "crates \<Rightarrow> decoders \<Rightarrow> bytes bmap \<Rightarrow> string \<Rightarrow> case_failure + unit" where
  "run_assurance_case C D dir key =
     and_then (load (de_report D) dir ''report.json'') (\<lambda>sr.
     and_then (load (de_assurance D) dir ''assurance.json'') (\<lambda>stmt.
     (let ev = \<lparr>ev_proof = ok (load (de_proof D) dir ''proof.json''),
                ev_anchor = ok (load (de_anchor D) dir ''anchor.json''),
                ev_attestations = unwrap_or (load (de_attestations D) dir ''attestations.json'') [],
                ev_provenance = map_option provenance (ok (load (de_provenance D) dir ''provenance.json''))\<rparr>;
          trusted = \<lparr>trusted_publisher = key,
                     trusted_attestors = unwrap_or (load (de_attestors D) dir ''attestors.json'') bempty\<rparr>
      in and_then (map_err CaseVerification (verify_assurance C sr stmt ev trusted)) (\<lambda>_. Ok ()))))"

definition run_pack_case :: "crates \<Rightarrow> decoders \<Rightarrow> bytes bmap \<Rightarrow> string \<Rightarrow> case_failure + unit" where
  "run_pack_case C D dir key =
     and_then (load (de_pack D) dir ''pack.json'') (\<lambda>signed.
       map_err CasePack
         (verify_pack C signed key (bof_list (filter (\<lambda>(name, bs). name \<noteq> ''pack.json'') (entries dir)))))"

definition run_case :: "crates \<Rightarrow> decoders \<Rightarrow> bytes bmap \<Rightarrow> string \<Rightarrow> string \<Rightarrow> case_failure + unit" where
  "run_case C D dir k key =
     (if k = ''proof'' then run_proof_case C D dir key
      else if k = ''proof-v2'' then run_proof_v2_case C D dir key
      else if k = ''chain'' then run_chain_case C D dir key
      else if k = ''membership'' then run_membership_case C D dir key
      else if k = ''coverage'' then run_coverage_case C D dir key
      else if k = ''anchors'' then
        and_then (load (de_anchors D) dir ''history.json'') (\<lambda>history.
          map_err CaseAnchors (verify_anchors C history))
      else if k = ''provenance'' then run_provenance_case C D dir key
      else if k = ''assurance'' then run_assurance_case C D dir key
      else if k = ''pack'' then run_pack_case C D dir key
      else Err (UnknownKind k))"

subsection \<open>Building a statement\<close>

text \<open>
  The corpus directory is its parsed \<open>manifest.json\<close> and, for a case id, the files of the
  directory of that name.
\<close>

definition case_outcome ::
  "crates \<Rightarrow> decoders \<Rightarrow> string list \<Rightarrow> (string \<Rightarrow> bytes bmap) \<Rightarrow> string bmap \<Rightarrow> string \<Rightarrow> CaseSpec \<Rightarrow> string" where
  "case_outcome C D supported dirs kinds key c =
     (if \<not> list_all (\<lambda>r. r \<in> set supported) (requires c) then ''skip''
      else
        (let k = (case bget kinds (case_id c) of None \<Rightarrow> [] | Some k \<Rightarrow> k) in
         case run_case C D (dirs (case_id c)) k key of
           Inr _ \<Rightarrow> ''accept''
         | Inl _ \<Rightarrow> ''reject''))"

definition build_statement ::
  "crates \<Rightarrow> decoders \<Rightarrow> string \<Rightarrow> string list \<Rightarrow> json \<Rightarrow> (string \<Rightarrow> bytes bmap) \<Rightarrow> string + Statement" where
  "build_statement C D impl supported corpus_manifest dirs =
     and_then (read_cases corpus_manifest) (\<lambda>cases.
     and_then (ok_or (as_array (json_index corpus_manifest ''cases'')) ''called Option::unwrap() on a None value'') (\<lambda>cs.
     (let key = as_str_or_default (json_index corpus_manifest ''trusted_key'');
          kinds = bof_list (map (\<lambda>c. (as_str_or_default (json_index c ''id''), as_str_or_default (json_index c ''kind''))) cs)
      in Ok \<lparr>compat_format_version = COMPAT_FORMAT_VERSION,
             implementation = impl,
             impl_version = CARGO_PKG_VERSION,
             supports = supported,
             statement_corpus_digest = corpus_digest C cases,
             results = map (\<lambda>c. \<lparr>result_id = case_id c, expected = expect c,
                                  outcome = case_outcome C D supported dirs kinds key c\<rparr>) cases\<rparr>)))"

subsection \<open>Properties\<close>

definition fits_case :: "CaseSpec \<Rightarrow> bool" where
  "fits_case c \<longleftrightarrow> fits (case_id c) \<and> fits (expect c) \<and> length (requires c) < 2 ^ 63 \<and> list_all fits (requires c)"

definition fits_corpus :: "CaseSpec list \<Rightarrow> bool" where
  "fits_corpus cases \<longleftrightarrow> length cases < 2 ^ 63 \<and> list_all fits_case cases"

lemma case_cut:
  assumes "fits_case x" "fits_case y" "case_bytes x @ r = case_bytes y @ s"
  shows "x = y \<and> r = s"
proof -
  have ok: "length (requires x) < 2 ^ 64" "list_all fits (requires x)"
    "length (requires y) < 2 ^ 64" "list_all fits (requires y)"
    using assms(1,2) by (simp_all add: fits_case_def)
  have "case_id x = case_id y" "expect x = expect y"
    and "counted lp (requires x) @ r = counted lp (requires y) @ s"
    using assms by (simp_all add: case_bytes_def fits_case_def lp_code.cut_iff counted_def)
  moreover from lp_code.counted_cut [OF ok this(3)] have "requires x = requires y" "r = s" by simp_all
  ultimately show ?thesis by (auto intro!: CaseSpec.equality)
qed

interpretation case_code: prefix_code case_bytes fits_case
  by unfold_locales (rule case_cut)

interpretation corpus_code: digest_of corpus_preimage fits_corpus id
proof unfold_locales
  fix x y assume fit: "fits_corpus x" "fits_corpus y" and eq: "corpus_preimage x = corpus_preimage y"
  have ok: "length x < 2 ^ 64" "list_all fits_case x" "length y < 2 ^ 64" "list_all fits_case y"
    using fit by (simp_all add: fits_corpus_def)
  have "counted case_bytes x @ [] = counted case_bytes y @ []"
    using eq by (simp add: corpus_preimage_def counted_def)
  from case_code.counted_cut [OF ok this] show "id x = id y" by simp
qed

definition claims :: "Statement \<Rightarrow> CaseSpec \<Rightarrow> bool" where
  "claims st c \<longleftrightarrow> set (requires c) \<subseteq> set (supports st)"

lemma case_defect_Nil_iff:
  "case_defect st c = [] \<longleftrightarrow>
     (\<exists>r. find (\<lambda>r. result_id r = case_id c) (results st) = Some r \<and> (outcome r = ''skip'' \<longleftrightarrow> \<not> claims st c))"
  by (auto simp: case_defect_def claims_def list_all_iff Let_def split: option.splits)

lemma defects_Nil_iff:
  "defects st cases = [] \<longleftrightarrow>
     (\<forall>c \<in> set cases. \<exists>r. find (\<lambda>r. result_id r = case_id c) (results st) = Some r \<and>
        (outcome r = ''skip'' \<longleftrightarrow> \<not> claims st c))"
  by (auto simp: defects_def case_defect_Nil_iff)

lemma case_outcome_cases:
  "case_outcome C D supported dirs kinds key c =
     (if \<not> set (requires c) \<subseteq> set supported then ''skip''
      else if is_ok (run_case C D (dirs (case_id c)) (case bget kinds (case_id c) of None \<Rightarrow> [] | Some k \<Rightarrow> k) key)
        then ''accept'' else ''reject'')"
  by (auto simp: case_outcome_def list_all_iff subset_iff is_ok_def Let_def split: sum.split)

lemma find_result:
  assumes "distinct (map case_id cases)" "c \<in> set cases" "\<And>d. result_id (f d) = case_id d"
  shows "find (\<lambda>r. result_id r = case_id c) (map f cases) = Some (f c)"
  using assms(1,2) by (induction cases) (auto simp: assms(3))

lemma built_statement_sound:
  assumes "build_statement C D impl supported corpus_manifest dirs = Ok st"
    and "read_cases corpus_manifest = Ok cases" "distinct (map case_id cases)"
  shows "defects st cases = []"
proof -
  let ?key = "as_str_or_default (json_index corpus_manifest ''trusted_key'')"
  obtain cs where cs: "as_array (json_index corpus_manifest ''cases'') = Some cs"
    using assms(1) by (auto simp: build_statement_def)
  let ?kinds = "bof_list (map (\<lambda>c. (as_str_or_default (json_index c ''id''),
    as_str_or_default (json_index c ''kind''))) cs)"
  have st: "supports st = supported"
    "results st = map (\<lambda>c. \<lparr>result_id = case_id c, expected = expect c,
       outcome = case_outcome C D supported dirs ?kinds ?key c\<rparr>) cases"
    using assms(1,2) by (auto simp: build_statement_def Let_def cs)
  show ?thesis
    unfolding defects_Nil_iff st(2)
    by (auto simp: find_result [OF assms(3)] claims_def st(1) case_outcome_cases)
qed

end
