(* ===== verification/Evidence_Samples.thy ===== *)
theory Evidence_Samples
  imports Samples Compat
begin

text \<open>
  Small documents on which the properties of the evidence layer are evaluated: two days of one
  venue and their anchors, custody and liabilities of one asset, a provenance graph, a delivery of
  two files and a corpus of one case.
\<close>

definition day_report :: "string \<Rightarrow> Report" where
  "day_report time = (report_of sample_crates venue_meta ''solvency.liabilities'' 1
     \<lparr>hash = mk32 [], sums = bof_list [(''BTC'', 7)]\<rparr>)\<lparr>snapshot_time := time\<rparr>"

definition day :: "string \<Rightarrow> SignedReport" where
  "day time = sign_report sample_crates venue_signer (day_report time)"

definition anchor1 :: Anchor where
  "anchor1 = anchor_report sample_crates (day ''2026-01-01T00:00:00Z'') None"

definition anchor2 :: Anchor where
  "anchor2 = anchor_report sample_crates (day ''2026-01-02T00:00:00Z'') (Some anchor1)"

lemma day_simps:
  "report (day t) = day_report t" "snapshot_time (day_report t) = t" "publisher (day_report t) = ''venue''"
  "ledger_offset (day_report t) = ''000042''" "manifest (day_report t) = None"
  by (simp_all add: day_def day_report_def sign_report_def report_of_def venue_meta_def)

lemma anchor_simps:
  "anchor_snapshot_time anchor1 = ''2026-01-01T00:00:00Z''" "anchor_snapshot_time anchor2 = ''2026-01-02T00:00:00Z''"
  "anchor_publisher anchor1 = ''venue''" "anchor_ledger_offset anchor1 = ''000042''"
  by (simp_all add: anchor1_def anchor2_def anchor_report_def day_simps)

lemma later_day: "(''2026-01-01T00:00:00Z'' :: string) < ''2026-01-02T00:00:00Z''"
  by (simp add: less_list_code)

lemma sample_history: "verify_anchors sample_crates [anchor1] = Ok ()" "verify_anchors sample_crates [anchor1, anchor2] = Ok ()"
proof -
  show one: "verify_anchors sample_crates [anchor1] = Ok ()"
    by (simp add: verify_anchors_Ok_iff valid_history_def anchor1_def anchor_report_def)
  show "verify_anchors sample_crates [anchor1, anchor2] = Ok ()"
    using anchor_report_extends [OF one, of "day ''2026-01-02T00:00:00Z''"] later_day
    by (simp add: anchor2_def [symmetric] anchor_simps day_simps)
qed

lemma day_authentic: "report_authentic sample_crates (day t) (public_key_hex sample_crates venue_signer)"
  unfolding day_def by (rule own_report_authentic [OF sample_hex_spec sample_ed25519_spec])

text \<open>Sizes.\<close>

lemma sample_fits_hex: "fits (hex_encode sample_crates (arr32 h))" "fits (public_key_hex sample_crates s)"
  by (simp_all add: fits_def sample_crates_def length_hex_of public_key_hex_def)

lemma sample_anchors_fit: "list_all fits_anchor [anchor1, anchor2]"
  using sample_fits_hex
  by (simp add: fits_anchor_def anchor1_def anchor2_def anchor_report_def day_simps anchor_digest_hex_def
      report_digest_hex_def)
    (simp add: fits_def ANCHOR_FORMAT_VERSION_def day_def sign_report_def day_report_def report_of_def del: arr32_mk32)

text \<open>A graph: one participant, from which the totals come.\<close>

definition sample_graph :: Provenance where
  "sample_graph = \<lparr>
     prov_format_version = PROVENANCE_FORMAT_VERSION,
     prov_report_digest = ''another report'',
     sources = [\<lparr>source_id = ''p1'', kind = Participant, source_name = ''venue participant'', basis = None\<rparr>],
     derivations = [\<lparr>derived_field = ''root_sums'', derived_from = [''p1''], derivation_method = ''sum''\<rparr>]\<rparr>"

lemma sample_graph_derives: "derives_from_ledger sample_graph ''root_sums''"
  by (simp add: derives_from_ledger_def sample_graph_def on_ledger_def)

text \<open>The same graph bound to a report and signed.\<close>

definition bound_graph :: SignedProvenance where
  "bound_graph = (let p = sample_graph\<lparr>prov_report_digest := report_digest_hex sample_crates (day_report ''2026-01-01T00:00:00Z'')\<rparr> in
     \<lparr>provenance = p,
      prov_signature = \<lparr>algorithm = SIGNATURE_ALGORITHM, public_key = public_key_hex sample_crates venue_signer,
        sig_value = sign_digest sample_crates venue_signer (provenance_digest sample_crates p)\<rparr>\<rparr>)"

lemma bound_graph_verifies:
  "verify_provenance sample_crates (day ''2026-01-01T00:00:00Z'') bound_graph (public_key_hex sample_crates venue_signer) = Ok ()"
  by (simp add: verify_provenance_Ok_iff bound_graph_def Let_def sample_graph_def day_simps graph_ok_def
      source_explained_def REPORT_RESIDENT_FIELDS_def own_signature_verifies sample_hex_spec sample_ed25519_spec)

text \<open>A delivery.\<close>

definition sample_files :: "(string \<times> bytes) list" where
  "sample_files = [(''report.json'', ''{}''), (''proof-alice.json'', ''{1}'')]"

lemma sample_pack:
  "\<exists>sp. build_pack sample_crates ''venue'' ''2026-01-01T00:00:00Z'' ''aa11'' sample_files venue_signer = Ok sp"
  by (simp add: build_pack_Ok_iff sample_files_def safe_file_name_def)

text \<open>Decoders that know a report, a pack and a dump, and refuse everything else.\<close>

definition sample_decoders ::
  "SignedReport \<Rightarrow> string + SignedPack \<Rightarrow> (string \<times> string \<times> string bmap) list \<Rightarrow> decoders" where
  "sample_decoders sr sp dump = \<lparr>
     de_report = (\<lambda>_. Ok sr),
     de_proof = (\<lambda>_. Err []),
     de_proof_v2 = (\<lambda>_. Err []),
     de_membership = (\<lambda>_. Err []),
     de_coverage = (\<lambda>_. Err []),
     de_anchor = (\<lambda>_. Err []),
     de_anchors = (\<lambda>_. Err []),
     de_provenance = (\<lambda>_. Err []),
     de_assurance = (\<lambda>_. Err []),
     de_attestations = (\<lambda>_. Err []),
     de_attestors = (\<lambda>_. Err []),
     de_pack = (\<lambda>_. sp),
     de_version = (\<lambda>_. Err []),
     de_dump = (\<lambda>_. Ok dump)\<rparr>"

end
