(* ===== verification/Evidence_Properties.thy ===== *)
theory Evidence_Properties
  imports Evidence_Samples
begin

text \<open>
  The properties of the evidence layer: anchored histories, coverage, assurance levels and the
  provenance graph behind them, evidence packs, manifests over time and compatibility statements.
\<close>

subsection \<open>Histories\<close>

text \<open>
  C14. The anchor of a new report extends an accepted history exactly when the report is of the
  same publisher, of a later snapshot time and of a ledger offset that does not go back, where
  times and offsets are compared as strings; the first anchor is always accepted.
\<close>

theorem anchor_extends_history:
  assumes "verify_anchors C anchors = Ok ()"
  shows "verify_anchors C (anchors @ [anchor_report C sr (if anchors = [] then None else Some (last anchors))]) = Ok () \<longleftrightarrow>
    anchors = [] \<or>
    publisher (report sr) = anchor_publisher (last anchors) \<and>
    anchor_snapshot_time (last anchors) < snapshot_time (report sr) \<and>
    anchor_ledger_offset (last anchors) \<le> ledger_offset (report sr)"
  by (rule anchor_report_extends [OF assms])

theorem anchor_extends_history_witness:
  "verify_anchors sample_crates [anchor1, anchor2] = Ok ()"
  using anchor_extends_history [OF sample_history(1), of "day ''2026-01-02T00:00:00Z''"] later_day
  by (simp add: anchor2_def [symmetric] anchor_simps day_simps)

text \<open>
  C15. The digest of the last anchor determines the whole history: two accepted histories whose
  last anchors have one digest are equal anchor by anchor, or walking back through them exposes a
  collision of SHA-256. A publisher cannot drop or edit a day and keep its latest anchor.
\<close>

theorem last_anchor_binds_history:
  assumes "hex_spec C" "verify_anchors C xs = Ok ()" "verify_anchors C ys = Ok ()" "xs \<noteq> []" "ys \<noteq> []"
    and "list_all fits_anchor xs" "list_all fits_anchor ys"
    and "anchor_digest_hex C (last xs) = anchor_digest_hex C (last ys)"
  shows "xs = ys \<or> exposes C (map anchor_preimage (rev xs)) (map anchor_preimage (rev ys))"
  using assms by (intro last_anchor_determines) (simp_all add: verify_anchors_Ok_iff)

theorem last_anchor_binds_history_witness:
  "[anchor1, anchor2] = [anchor1, anchor2] \<or>
     exposes sample_crates (map anchor_preimage (rev [anchor1, anchor2])) (map anchor_preimage (rev [anchor1, anchor2]))"
  by (rule last_anchor_binds_history [OF sample_hex_spec sample_history(2) sample_history(2)])
    (use sample_anchors_fit in simp_all)

text \<open>
  An accepted history moves forward in time: when its snapshot times are timestamps of whole
  seconds in UTC, the instants they denote strictly increase from each anchor to every later one,
  although the code compares the strings.
\<close>

theorem history_moves_forward:
  assumes "verify_anchors C anchors = Ok ()" "i < j" "j < length anchors"
    and "\<forall>a \<in> set anchors. length (anchor_snapshot_time a) = 20"
    and "parse_instant (anchor_snapshot_time (anchors ! i)) = Some x"
    and "parse_instant (anchor_snapshot_time (anchors ! j)) = Some y"
  shows "x < y"
proof -
  have "sorted_wrt (<) (map anchor_snapshot_time anchors)"
    using assms(1) history_times_sorted by (simp add: verify_anchors_Ok_iff)
  then have "anchor_snapshot_time (anchors ! i) < anchor_snapshot_time (anchors ! j)"
    using assms(2,3) sorted_wrt_nth_less by fastforce
  with parse_instant_order [OF _ _ assms(5,6)] assms(2-4) show ?thesis by simp
qed

theorem history_moves_forward_witness:
  "(the (parse_instant ''2026-01-01T00:00:00Z'')) < the (parse_instant ''2026-01-02T00:00:00Z'')"
proof -
  have "parse_instant ''2026-01-01T00:00:00Z'' \<noteq> None" "parse_instant ''2026-01-02T00:00:00Z'' \<noteq> None"
    by code_simp+
  then obtain x y where xy: "parse_instant ''2026-01-01T00:00:00Z'' = Some x"
      "parse_instant ''2026-01-02T00:00:00Z'' = Some y"
    by auto
  have "x < y"
    by (rule history_moves_forward [OF sample_history(2), of 0 1]) (simp_all add: anchor_simps xy)
  then show ?thesis by (simp add: xy)
qed

subsection \<open>Coverage\<close>

text \<open>
  A coverage check accepts and finds everything covered exactly when the statement names both
  reports by digest, both are authentic and of the right profile, their snapshots are no further
  apart than the verifier tolerates, and each asset owed is held in at least that amount: a
  surplus of one asset never makes up for another.
\<close>

theorem coverage_exact:
  "(\<exists>out. verify_coverage C custody liabilities stmt ck lk max_skew = Ok out \<and> fully_covered out) \<longleftrightarrow>
     coverage_bound C custody liabilities stmt ck lk max_skew \<and>
     (\<forall>a. amount_of (root_sums (report liabilities)) a \<le>
          amount_of (root_sums (report custody)) (qualified_key ''held'' a))"
  using fully_covered_iff [of C custody liabilities stmt ck lk max_skew]
  by (auto simp: verify_coverage_Ok_iff)

subsection \<open>Assurance\<close>

text \<open>
  C16. A declaration of assurance levels is accepted exactly when it names the report, the report
  is authentic, and every declared level is substantiated by its own kind of evidence; what is
  accepted is what was declared. The specification of a level mentions the evidence only.
\<close>

theorem assurance_refines_levels:
  "verify_assurance C sr stmt ev trusted = Ok out \<longleftrightarrow>
     statement_substantiated C sr stmt ev trusted \<and> out = declared_levels stmt"
  by (rule verify_assurance_refines)

text \<open>
  \<open>ledger-derived\<close> needs no verified provenance graph: a graph of another report, which no
  signature makes acceptable to \<open>verify_provenance\<close>, still establishes the level together with
  an anchor of the report.
\<close>

theorem unsigned_graph_establishes:
  assumes "field \<in> set REPORT_RESIDENT_FIELDS" "manifest (report sr) = None" "report_authentic C sr key"
    and "derives_from_ledger p field" "prov_report_digest p \<noteq> report_digest_hex C (report sr)"
  shows "verify_assurance C sr (one_level C sr field LedgerDerived)
      \<lparr>ev_proof = None, ev_anchor = Some (anchor_report C sr None), ev_attestations = [], ev_provenance = Some p\<rparr>
      \<lparr>trusted_publisher = key, trusted_attestors = bempty\<rparr> = Ok (bof_list [(field, LedgerDerived)]) \<and>
    verify_provenance C sr \<lparr>provenance = p, prov_signature = sig\<rparr> k \<noteq> Ok ()"
  using unsigned_graph_accepted [OF assms(1) not_withheld_v1 [OF assms(2)] assms(3-5)] by simp

theorem unsigned_graph_establishes_witness:
  "\<exists>sr levels. verify_assurance sample_crates sr (one_level sample_crates sr ''root_sums'' LedgerDerived)
      \<lparr>ev_proof = None, ev_anchor = Some (anchor_report sample_crates sr None), ev_attestations = [],
       ev_provenance = Some sample_graph\<rparr>
      \<lparr>trusted_publisher = public_key_hex sample_crates venue_signer, trusted_attestors = bempty\<rparr> = Ok levels"
proof -
  let ?sr = "day ''2026-01-01T00:00:00Z''"
  have "length (prov_report_digest sample_graph) \<noteq> length (report_digest_hex sample_crates (report ?sr))"
    by (simp add: sample_graph_def report_digest_hex_def sample_crates_def length_hex_of)
  then have "prov_report_digest sample_graph \<noteq> report_digest_hex sample_crates (report ?sr)" by metis
  from unsigned_graph_establishes [OF _ _ day_authentic sample_graph_derives this] show ?thesis
    by (auto simp: REPORT_RESIDENT_FIELDS_def day_simps)
qed

text \<open>
  \<open>cryptographically-verified\<close> is accepted for totals that understate the liabilities: any
  totals that dominate each of two customers separately can be published, both customers' proofs
  verify, and either proof substantiates the level for the totals.
\<close>

theorem understated_totals_rated_verified:
  fixes meta :: ReportMetadata and a b :: LeafInput
  assumes "hex_spec C" "ed25519_spec C"
    and "meta_profile meta = ''solvency.liabilities''" "meta_manifest meta = None" "\<not> bis_empty S"
    and "set (bkeys (in_balances a)) \<subseteq> set (bkeys S)" "set (bkeys (in_balances b)) \<subseteq> set (bkeys S)"
    and "\<And>x. amount_of (in_balances a) x \<le> amount_of S x" "\<And>x. amount_of (in_balances b) x \<le> amount_of S x"
  shows "\<exists>sr docA docB. root_sums (report sr) = S \<and>
    balances (proof_leaf docA) = in_balances a \<and> balances (proof_leaf docB) = in_balances b \<and>
    (\<forall>doc \<in> {docA, docB}.
       verify_assurance C sr (one_level C sr ''root_sums'' CryptographicallyVerified)
         \<lparr>ev_proof = Some doc, ev_anchor = None, ev_attestations = [], ev_provenance = None\<rparr>
         \<lparr>trusted_publisher = public_key_hex C signer, trusted_attestors = bempty\<rparr> =
       Ok (bof_list [(''root_sums'', CryptographicallyVerified)]))"
proof -
  let ?sr = "understating_report C meta signer a b S"
  let ?docA = "input_document C (report ?sr) a [understating_step C a b S False]"
  let ?docB = "input_document C (report ?sr) b [understating_step C b a S True]"
  note verified = understated_proofs_verify [OF assms, of signer]
  have "root_sums (report ?sr) = S" "manifest (report ?sr) = None"
    using assms(4) by (simp_all add: understating_report_def sign_report_def report_of_def forged_node_def)
  moreover from verified(1) have "report_authentic C ?sr (public_key_hex C signer)" by (simp add: verify_Ok_iff)
  moreover have "balances (proof_leaf ?docA) = in_balances a" "balances (proof_leaf ?docB) = in_balances b"
    by (simp_all add: input_document_def)
  ultimately show ?thesis
    using verified
    by (intro exI [of _ ?sr] exI [of _ ?docA] exI [of _ ?docB])
      (simp add: one_level_accepted substantiates_def REPORT_RESIDENT_FIELDS_def not_withheld_v1)
qed

theorem understated_totals_rated_verified_witness:
  "\<exists>sr doc. root_sums (report sr) = in_balances alice \<and>
     verify_assurance sample_crates sr (one_level sample_crates sr ''root_sums'' CryptographicallyVerified)
       \<lparr>ev_proof = Some doc, ev_anchor = None, ev_attestations = [], ev_provenance = None\<rparr>
       \<lparr>trusted_publisher = public_key_hex sample_crates venue_signer, trusted_attestors = bempty\<rparr> =
     Ok (bof_list [(''root_sums'', CryptographicallyVerified)]) \<and> balances (proof_leaf doc) = in_balances bob"
  using understated_totals_rated_verified [OF sample_hex_spec sample_ed25519_spec _ _ alice_nonempty order_refl
      alice_dominates(1) order_refl alice_dominates(2), of venue_meta venue_signer]
  by (force simp: venue_meta_def)

subsection \<open>Provenance\<close>

text \<open>
  On a graph that verifies, the check of declared levels against the graph and the reading of
  the graph that establishes \<open>ledger-derived\<close> agree: the declaration passes exactly when every
  field declared ledger-derived is derived from the ledger by that reading.
\<close>

theorem graph_check_agrees:
  assumes "verify_provenance C sr sp trusted = Ok ()"
  shows "check_against_assurance (provenance sp) claimed = Ok () \<longleftrightarrow>
    {field. bget claimed field = Some LedgerDerived} \<subseteq> {field. derives_from_ledger (provenance sp) field}"
proof -
  have "graph_ok (provenance sp)" using assms by (simp add: verify_provenance_Ok_iff)
  then show ?thesis by (auto simp: check_against_assurance_Ok_iff derives_from_ledger_iff)
qed

theorem graph_check_agrees_witness:
  "check_against_assurance (provenance bound_graph) (bof_list [(''root_sums'', LedgerDerived)]) = Ok ()"
proof -
  have "derives_from_ledger (provenance bound_graph) ''root_sums''"
    using sample_graph_derives by (simp add: derives_from_ledger_def bound_graph_def Let_def sample_graph_def)
  then show ?thesis
    by (simp add: graph_check_agrees [OF bound_graph_verifies] bget_bof_list)
qed

subsection \<open>Deliveries\<close>

text \<open>
  C17. A pack does not depend on the order its files are listed in, and verifies against exactly
  the files it was built from, under the key that built it.
\<close>

theorem pack_built_verifies:
  assumes "hex_spec C" "hex_lower C" "ed25519_spec C"
    and "build_pack C pub time digest ms signer = Ok sp"
    and "distinct (map fst ms')" "set ms' = set ms"
  shows "build_pack C pub time digest ms' signer = Ok sp \<and>
    verify_pack C sp (public_key_hex C signer) (bof_list ms') = Ok ()"
proof -
  have "distinct (map fst ms)" using assms(4) by (simp add: build_pack_Ok_iff)
  from build_pack_order [OF this assms(5) assms(6) [symmetric] assms(4)]
  have "build_pack C pub time digest ms' signer = Ok sp" .
  with built_pack_verifies [OF assms(1-3) this] show ?thesis by simp
qed

theorem pack_built_verifies_witness:
  "\<exists>sp. build_pack sample_crates ''venue'' ''2026-01-01T00:00:00Z'' ''aa11'' (rev sample_files) venue_signer = Ok sp \<and>
     verify_pack sample_crates sp (public_key_hex sample_crates venue_signer) (bof_list (rev sample_files)) = Ok ()"
proof -
  obtain sp where "build_pack sample_crates ''venue'' ''2026-01-01T00:00:00Z'' ''aa11'' sample_files venue_signer = Ok sp"
    using sample_pack by blast
  from pack_built_verifies [OF sample_hex_spec sample_hex_lower sample_ed25519_spec this, of "rev sample_files"]
  show ?thesis by (auto simp: sample_files_def)
qed

text \<open>
  C18. A pack pins a delivery: two deliveries accepted for one pack consist of the same files with
  the same contents, or two contents of one name collide under SHA-256. And leaving a file out of
  an accepted delivery is refused, by the name of that file.
\<close>

theorem pack_pins_files:
  assumes "hex_spec C" "hex_lower C" "verify_pack C sp key m1 = Ok ()"
  shows "(verify_pack C sp key' m2 = Ok () \<longrightarrow>
      m1 = m2 \<or> (\<exists>n x y. bget m1 n = Some x \<and> bget m2 n = Some y \<and> collides C x y)) \<and>
    (n \<in> set (bkeys m1) \<and> (\<forall>k. bget m3 k = (if k = n then None else bget m1 k)) \<longrightarrow>
      verify_pack C sp key m3 = Err (Missing n))"
  using pack_pins_delivery [OF assms, of key' m2] dropped_member_reported [OF assms(3), of n m3] by blast

theorem pack_pins_files_witness:
  "\<exists>sp. verify_pack sample_crates sp (public_key_hex sample_crates venue_signer) (bof_list sample_files) = Ok () \<and>
     verify_pack sample_crates sp (public_key_hex sample_crates venue_signer)
       (bof_list [(''report.json'', ''{}'')]) = Err (Missing ''proof-alice.json'')"
proof -
  obtain sp where "build_pack sample_crates ''venue'' ''2026-01-01T00:00:00Z'' ''aa11'' sample_files venue_signer = Ok sp"
    using sample_pack by blast
  from built_pack_verifies [OF sample_hex_spec sample_hex_lower sample_ed25519_spec this]
  have ok: "verify_pack sample_crates sp (public_key_hex sample_crates venue_signer) (bof_list sample_files) = Ok ()" .
  moreover have "verify_pack sample_crates sp (public_key_hex sample_crates venue_signer)
      (bof_list [(''report.json'', ''{}'')]) = Err (Missing ''proof-alice.json'')"
    by (rule pack_pins_files [OF sample_hex_spec sample_hex_lower ok, THEN conjunct2, rule_format])
      (auto simp: sample_files_def bkeys_bget bget_bof_list)
  ultimately show ?thesis by blast
qed

subsection \<open>Disclosure over time\<close>

text \<open>
  Comparing two manifests loses nothing and hides nothing: the changes, read as a patch, turn
  the previous manifest into the current one, and a field is reported as a reduction exactly when
  it was published and no longer is.
\<close>

theorem manifest_diff_exact:
  "patched (diff p c) (bget (manifest_fields p)) = bget (manifest_fields c) \<and>
   ((\<exists>ch \<in> set (diff p c). change_path ch = path \<and> is_reduction ch) \<longleftrightarrow>
     bget (manifest_fields p) path = Some Published \<and> bget (manifest_fields c) path \<noteq> Some Published)"
  by (simp add: diff_patches diff_reduction_iff)

subsection \<open>Compatibility statements\<close>

text \<open>
  A statement built over a corpus whose cases have distinct ids has no defect a reader can
  find: every case has a result, a case outside the claimed features is skipped, a case inside
  them is run and never skipped.
\<close>

theorem built_statement_has_no_defects:
  assumes "build_statement C D impl supported corpus_manifest dirs = Ok st"
    and "read_cases corpus_manifest = Ok cases" "distinct (map case_id cases)"
  shows "defects st cases = []"
  by (rule built_statement_sound [OF assms])

definition sample_refusal :: decoders where
  "sample_refusal = sample_decoders (day ''2026-01-01T00:00:00Z'') (Err []) []"

definition sample_corpus :: json where
  "sample_corpus = JObject [(''trusted_key'', JString ''00''), (''cases'', JArray
     [JObject [(''id'', JString ''a''), (''kind'', JString ''proof''), (''expect'', JString ''accept''),
               (''requires'', JArray [JString ''proof-v1''])],
      JObject [(''id'', JString ''b''), (''kind'', JString ''pack''), (''expect'', JString ''reject''),
               (''requires'', JArray [JString ''pack-v9''])]])]"

theorem built_statement_has_no_defects_witness:
  "\<exists>st cases. build_statement sample_crates sample_refusal ''impl'' SUPPORTED sample_corpus (\<lambda>_. bempty) = Ok st \<and>
     read_cases sample_corpus = Ok cases \<and> length cases = 2 \<and> defects st cases = []"
proof -
  have cases: "read_cases sample_corpus = Ok
      [\<lparr>case_id = ''a'', expect = ''accept'', requires = [''proof-v1'']\<rparr>,
       \<lparr>case_id = ''b'', expect = ''reject'', requires = [''pack-v9'']\<rparr>]" (is "_ = Ok ?cases")
    by (simp add: read_cases_def sample_corpus_def json_index_def json_get_def as_array_def read_case_def as_str_or_default_def)
  moreover obtain st where "build_statement sample_crates sample_refusal ''impl'' SUPPORTED sample_corpus (\<lambda>_. bempty) = Ok st"
    using cases by (auto simp: build_statement_def Let_def sample_corpus_def json_index_def json_get_def as_array_def)
  ultimately show ?thesis
    using built_statement_has_no_defects [of sample_crates sample_refusal "''impl''" SUPPORTED sample_corpus "\<lambda>_. bempty" st ?cases]
    by auto
qed

end
