(* ===== verification/Custody.thy ===== *)
theory Custody
  imports Json_Value Produce "HOL-Library.Multiset"
begin

text \<open>
  Reading custody holdings from a participant and committing them as a \<open>coverage.custody\<close>
  report: \<open>reserve-attest/src/lib.rs\<close>, \<open>build.rs\<close> and \<open>curl.rs\<close>. The socket is the record
  \<open>transport\<close>, the text of JSON the record \<open>json_text\<close>. The lemmas say which responses are
  read and to what, and that the report commits exactly the holdings read, whatever order the
  participant listed them in.
\<close>

subsection \<open>Positions and queries\<close>

definition LEDGER_END_PATH :: string where "LEDGER_END_PATH = ''/state/ledger-end''"
definition ACTIVE_CONTRACTS_PATH :: string where "ACTIVE_CONTRACTS_PATH = ''/state/active-contracts''"

record CustodyPosition =
  contract_id :: string
  pos_asset :: string
  pos_amount :: u128

record transport =
  http_get :: "string \<Rightarrow> bytes option"
  http_post :: "string \<Rightarrow> bytes \<Rightarrow> bytes option"

record HoldingFields =
  asset_field :: string
  amount_field :: string

record HoldingsQuery =
  custody_parties :: "string list"
  template_id :: string
  active_at_offset :: json

datatype attest_error =
    NotJson
  | NoOffset
  | NoParties
  | PackageIdQualified string
  | Unpinned
  | NotAnArray
  | NoCreatedEvent
  | NoContractId
  | ContractTwice string
  | NoCreateArgument string
  | NoAssetField string string
  | NoAmountField string string
  | BadAmount string merkle_error
  | TotalOverflows string
  | TransportFailed string
  | NoPositions
  | OtherOffset string string
  | NotCustody string
  | CustodyPublish publish_error

definition offset_string :: "json_text \<Rightarrow> HoldingsQuery \<Rightarrow> string" where
  "offset_string J q = (case active_at_offset q of JString s \<Rightarrow> s | other \<Rightarrow> to_text J other)"

definition parse_ledger_end :: "json_text \<Rightarrow> bytes \<Rightarrow> attest_error + json" where
  "parse_ledger_end J body =
     and_then (ok_or (from_text J body) NotJson) (\<lambda>parsed. ok_or (json_get ''offset'' parsed) NoOffset)"

definition is_package_name_qualified :: "string \<Rightarrow> bool" where
  "is_package_name_qualified t = (case split_once CHR '':'' t of
     Some (prefix, _) \<Rightarrow> \<not> (length prefix = 64 \<and> list_all is_ascii_hexdigit prefix)
   | None \<Rightarrow> False)"

definition active_contracts_request :: "HoldingsQuery \<Rightarrow> attest_error + json" where
  "active_contracts_request q =
     and_then (ensure (custody_parties q \<noteq> []) NoParties) (\<lambda>_.
     and_then (ensure (is_package_name_qualified (template_id q)) (PackageIdQualified (template_id q))) (\<lambda>_.
     and_then (ensure (active_at_offset q \<noteq> JNull) Unpinned) (\<lambda>_.
     (let party_filter = json_object [(''cumulative'', JArray [json_object [(''identifierFilter'',
            json_object [(''TemplateFilter'', json_object [(''value'', json_object
              [(''templateId'', JString (template_id q)), (''includeCreatedEventBlob'', JBool False)])])])]])]
      in Ok (json_object [
           (''filter'', json_object [(''filtersByParty'',
              json_object (map (\<lambda>p. (p, party_filter)) (custody_parties q)))]),
           (''verbose'', JBool True),
           (''activeAtOffset'', active_at_offset q)])))))"

text \<open>One entry of the response, up to its contract id, and then to a position.\<close>

definition created_event :: "json \<Rightarrow> attest_error + json \<times> string" where
  "created_event item =
     and_then (ok_or (json_pointer [''contractEntry'', ''JsActiveContract'', ''createdEvent''] item) NoCreatedEvent)
       (\<lambda>created.
     and_then (ok_or (Option.bind (json_get ''contractId'' created) as_str) NoContractId) (\<lambda>cid.
       Ok (created, cid)))"

definition position_of :: "HoldingFields \<Rightarrow> json \<Rightarrow> string \<Rightarrow> attest_error + CustodyPosition" where
  "position_of hf created cid =
     and_then (ok_or (json_get ''createArgument'' created) (NoCreateArgument cid)) (\<lambda>arguments.
     and_then (ok_or (Option.bind (json_get (asset_field hf) arguments) as_str) (NoAssetField cid (asset_field hf))) (\<lambda>a.
     and_then (ok_or (Option.bind (json_get (amount_field hf) arguments) as_str) (NoAmountField cid (amount_field hf))) (\<lambda>raw.
     and_then (map_err (BadAmount cid) (parse_amount_18dp raw)) (\<lambda>v.
       Ok \<lparr>contract_id = cid, pos_asset = a, pos_amount = v\<rparr>))))"

fun read_positions :: "HoldingFields \<Rightarrow> string set \<Rightarrow> json list \<Rightarrow> attest_error + CustodyPosition list" where
  "read_positions hf seen [] = Ok []"
| "read_positions hf seen (item # rest) =
     and_then (created_event item) (\<lambda>(created, cid).
     and_then (ensure (cid \<notin> seen) (ContractTwice cid)) (\<lambda>_.
     and_then (position_of hf created cid) (\<lambda>p.
     and_then (read_positions hf (insert cid seen) rest) (\<lambda>ps.
       Ok (p # ps)))))"

definition parse_holdings :: "json_text \<Rightarrow> bytes \<Rightarrow> HoldingFields \<Rightarrow> attest_error + CustodyPosition list" where
  "parse_holdings J body hf =
     and_then (ok_or (from_text J body) NotJson) (\<lambda>parsed.
     and_then (ok_or (as_array parsed) NotAnArray) (\<lambda>items.
       read_positions hf {} items))"

definition read_holdings ::
  "json_text \<Rightarrow> transport \<Rightarrow> string list \<Rightarrow> string \<Rightarrow> HoldingFields \<Rightarrow>
     attest_error + CustodyPosition list \<times> json" where
  "read_holdings J T parties template hf =
     and_then (ok_or (http_get T LEDGER_END_PATH) (TransportFailed LEDGER_END_PATH)) (\<lambda>end_body.
     and_then (parse_ledger_end J end_body) (\<lambda>offset.
     and_then (active_contracts_request
                 \<lparr>custody_parties = parties, template_id = template, active_at_offset = offset\<rparr>) (\<lambda>request.
     and_then (ok_or (http_post T ACTIVE_CONTRACTS_PATH (to_text J request)) (TransportFailed ACTIVE_CONTRACTS_PATH))
       (\<lambda>body.
     and_then (parse_holdings J body hf) (\<lambda>ps. Ok (ps, offset))))))"

fun add_positions :: "CustodyPosition list \<Rightarrow> u128 bmap \<Rightarrow> attest_error + u128 bmap" where
  "add_positions [] out = Ok out"
| "add_positions (p # rest) out =
     (case checked_add (get0 out (pos_asset p)) (pos_amount p) of
        None \<Rightarrow> Err (TotalOverflows (pos_asset p))
      | Some s \<Rightarrow> add_positions rest (binsert (pos_asset p) s out))"

definition totals :: "CustodyPosition list \<Rightarrow> attest_error + u128 bmap" where
  "totals positions = add_positions positions bempty"

subsection \<open>The custody report\<close>

definition position_leaf :: "crates \<Rightarrow> bytes \<Rightarrow> CustodyPosition \<Rightarrow> LeafInputV2" where
  "position_leaf C master_salt p = \<lparr>
     in2_salt = leaf_salt C master_salt (contract_id p),
     in2_subject_id = contract_id p,
     in2_maps = bof_list [(''held'', binsert (pos_asset p) (pos_amount p) bempty)]\<rparr>"

definition build_custody_report ::
  "crates \<Rightarrow> CustodyPosition list \<Rightarrow> ReportMetadata \<Rightarrow> string \<Rightarrow> bytes \<Rightarrow> ReportSigner \<Rightarrow>
     attest_error + SignedReport" where
  "build_custody_report C positions meta snapshot_offset master_salt signer =
     and_then (ensure (positions \<noteq> []) NoPositions) (\<lambda>_.
     and_then (ensure (meta_ledger_offset meta = snapshot_offset)
                 (OtherOffset (meta_ledger_offset meta) snapshot_offset)) (\<lambda>_.
     and_then (ensure (meta_profile meta = ''coverage.custody'') (NotCustody (meta_profile meta))) (\<lambda>_.
     (let sorted = sort_key contract_id positions;
          leaves = map (position_leaf C master_salt) sorted in
      and_then (map_err CustodyPublish (publish_v2 C leaves meta signer)) (\<lambda>pub.
        Ok (signed_report_v2 pub))))))"

subsection \<open>The transport over curl\<close>

record CurlTransport =
  base_url :: string
  token :: string
  timeout_seconds :: "32 word"

definition trim_end_slashes :: "string \<Rightarrow> string" where
  "trim_end_slashes s = rev (dropWhile (\<lambda>c. c = CHR ''/'') (rev s))"

definition new_curl :: "string \<Rightarrow> string \<Rightarrow> CurlTransport" where
  "new_curl url tok = \<lparr>base_url = trim_end_slashes url, token = tok, timeout_seconds = 30\<rparr>"

definition curl_args :: "CurlTransport \<Rightarrow> string \<Rightarrow> string option \<Rightarrow> string list" where
  "curl_args t path body =
     [''--silent'', ''--show-error'', ''--fail'', ''--max-time'', show_nat (unat (timeout_seconds t)),
      ''--header'', ''@-''] @
     (case body of None \<Rightarrow> [] | Some b \<Rightarrow> [''--header'', ''Content-Type: application/json'', ''--data-binary'', b]) @
     [base_url t @ path]"

text \<open>A run of the program \<open>curl\<close>: its arguments and standard input give its exit success and
  standard output, or it cannot be spawned.\<close>

definition curl_run :: "(string list \<Rightarrow> bytes \<Rightarrow> (bool \<times> bytes) option) \<Rightarrow> CurlTransport \<Rightarrow> string \<Rightarrow> string option \<Rightarrow> bytes option" where
  "curl_run process t path body =
     (case process (curl_args t path body) (''Authorization: Bearer '' @ token t @ [CHR 0x0A]) of
        None \<Rightarrow> None
      | Some (success, out) \<Rightarrow> if success \<and> valid_utf8 out then Some out else None)"

definition curl_transport :: "(string list \<Rightarrow> bytes \<Rightarrow> (bool \<times> bytes) option) \<Rightarrow> CurlTransport \<Rightarrow> transport" where
  "curl_transport process t = \<lparr>
     http_get = (\<lambda>path. curl_run process t path None),
     http_post = (\<lambda>path body. curl_run process t path (Some body))\<rparr>"

subsection \<open>What is read\<close>

text \<open>A response entry reads to a position.\<close>

definition entry_reads :: "HoldingFields \<Rightarrow> json \<Rightarrow> CustodyPosition \<Rightarrow> bool" where
  "entry_reads hf item p \<longleftrightarrow>
     (\<exists>created arguments raw.
        json_pointer [''contractEntry'', ''JsActiveContract'', ''createdEvent''] item = Some created \<and>
        json_get ''contractId'' created = Some (JString (contract_id p)) \<and>
        json_get ''createArgument'' created = Some arguments \<and>
        json_get (asset_field hf) arguments = Some (JString (pos_asset p)) \<and>
        json_get (amount_field hf) arguments = Some (JString raw) \<and>
        parse_amount_18dp raw = Ok (pos_amount p))"

lemma created_event_Ok_iff:
  "created_event item = Ok (created, cid) \<longleftrightarrow>
     json_pointer [''contractEntry'', ''JsActiveContract'', ''createdEvent''] item = Some created \<and>
     json_get ''contractId'' created = Some (JString cid)"
  by (auto simp: created_event_def bind_eq_Some_conv)

lemma position_of_Ok_iff:
  "position_of hf created cid = Ok p \<longleftrightarrow>
     (\<exists>arguments raw. json_get ''createArgument'' created = Some arguments \<and>
        json_get (asset_field hf) arguments = Some (JString (pos_asset p)) \<and>
        json_get (amount_field hf) arguments = Some (JString raw) \<and>
        parse_amount_18dp raw = Ok (pos_amount p) \<and> contract_id p = cid)"
  by (cases p) (auto simp: position_of_def bind_eq_Some_conv)

lemma read_positions_Ok_iff:
  "read_positions hf seen items = Ok ps \<longleftrightarrow>
     list_all2 (entry_reads hf) items ps \<and> distinct (map contract_id ps) \<and>
     (\<forall>p \<in> set ps. contract_id p \<notin> seen)"
proof (induction items arbitrary: seen ps)
  case (Cons item rest)
  have step: "read_positions hf seen (item # rest) = Ok ps \<longleftrightarrow>
      (\<exists>p ps'. ps = p # ps' \<and> entry_reads hf item p \<and> contract_id p \<notin> seen \<and>
         read_positions hf (insert (contract_id p) seen) rest = Ok ps')"
    by (fastforce simp: created_event_Ok_iff position_of_Ok_iff entry_reads_def)
  show ?case unfolding step Cons.IH list_all2_Cons1 by (auto simp: image_iff) metis+
qed auto

lemma parse_holdings_Ok_iff:
  "parse_holdings J body hf = Ok ps \<longleftrightarrow>
     (\<exists>items. from_text J body = Some (JArray items) \<and> list_all2 (entry_reads hf) items ps \<and>
        distinct (map contract_id ps))"
  by (auto simp: parse_holdings_def read_positions_Ok_iff)

subsection \<open>Totals\<close>

definition held_of :: "CustodyPosition list \<Rightarrow> string \<Rightarrow> nat" where
  "held_of ps a = (\<Sum>p \<leftarrow> ps. if pos_asset p = a then unat (pos_amount p) else 0)"

lemma add_positions_Ok_iff:
  "(\<exists>m. add_positions ps out = Ok m) \<longleftrightarrow>
     (\<forall>a. amount_of out a + held_of ps a < 2 ^ 128)"
  "add_positions ps out = Ok m \<Longrightarrow> amount_of m a = amount_of out a + held_of ps a"
  "add_positions ps out = Ok m \<Longrightarrow> set (bkeys m) = set (bkeys out) \<union> pos_asset ` set ps"
proof -
  show "(\<exists>m. add_positions ps out = Ok m) \<longleftrightarrow> (\<forall>a. amount_of out a + held_of ps a < 2 ^ 128)"
  proof (induction ps arbitrary: out)
    case Nil
    have "amount_of out a + held_of [] a < 2 ^ 128" for a
      using amount_of_lt [of out a] by (simp add: held_of_def)
    then show ?case by simp
  next
    case (Cons p rest)
    show ?case
    proof (cases "checked_add (get0 out (pos_asset p)) (pos_amount p)")
      case None
      then have "\<not> amount_of out (pos_asset p) + held_of (p # rest) (pos_asset p) < 2 ^ 128"
        by (simp add: checked_add_None amount_of_def held_of_def)
      then show ?thesis using None by auto
    next
      case (Some s)
      then have "unat s = amount_of out (pos_asset p) + unat (pos_amount p)"
        by (simp add: checked_add_Some amount_of_def)
      then have "amount_of (binsert (pos_asset p) s out) a + held_of rest a = amount_of out a + held_of (p # rest) a" for a
        by (simp add: amount_of_binsert held_of_def)
      then show ?thesis by (simp add: Some Cons.IH)
    qed
  qed
  show "add_positions ps out = Ok m \<Longrightarrow> amount_of m a = amount_of out a + held_of ps a"
    by (induction ps arbitrary: out)
      (auto simp: held_of_def get0_binsert checked_add_Some amount_of_def split: option.splits if_splits)
  show "add_positions ps out = Ok m \<Longrightarrow> set (bkeys m) = set (bkeys out) \<union> pos_asset ` set ps"
    by (induction ps arbitrary: out)
      (auto simp: bkeys_bget bget_binsert split: option.splits if_splits)
qed

lemma totals_Ok_iff: "(\<exists>m. totals ps = Ok m) \<longleftrightarrow> (\<forall>a. held_of ps a < 2 ^ 128)"
  by (simp add: totals_def add_positions_Ok_iff(1))

lemma totals_exact:
  assumes "totals ps = Ok m"
  shows "amount_of m a = held_of ps a" "set (bkeys m) = pos_asset ` set ps"
  using add_positions_Ok_iff(2,3) [of ps bempty m] assms by (simp_all add: totals_def bkeys_def)

subsection \<open>What is committed\<close>

lemma position_maps:
  "flatten_maps (in2_maps (position_leaf C s p)) = bof_list [(qualified_key ''held'' (pos_asset p), pos_amount p)]"
  "safe_maps (in2_maps (position_leaf C s p)) \<longleftrightarrow> is_safe_name (pos_asset p)"
  by (simp_all add: flatten_maps_bof_list flat_listing_def position_leaf_def safe_maps_def bkeys_def
      is_safe_name_def [of "''held''"] is_ascii_alphanumeric_def)

lemma qualified_held: "qualified_key ''held'' a = qualified_key ''held'' b \<longleftrightarrow> a = b"
  by (simp add: qualified_key_def)

lemma held_of_sort: "held_of (sort_key contract_id ps) a = held_of ps a"
  unfolding held_of_def sum_mset_sum_list [symmetric] mset_map by simp

lemma position_total:
  "(\<Sum>l \<leftarrow> map (position_leaf C s) ps. amount_of (flatten_maps (in2_maps l)) (qualified_key ''held'' a)) = held_of ps a"
  by (induction ps) (auto simp: position_maps amount_of_single held_of_def qualified_held)

lemma build_custody_Ok_iff:
  "build_custody_report C ps meta off slt signer = Ok sr \<longleftrightarrow>
     ps \<noteq> [] \<and> meta_ledger_offset meta = off \<and> meta_profile meta = ''coverage.custody'' \<and>
     (\<exists>pub. publish_v2 C (map (position_leaf C slt) (sort_key contract_id ps)) meta signer = Ok pub \<and>
        sr = signed_report_v2 pub)"
  by (auto simp: build_custody_report_def Let_def)

lemma position_total_bounded:
  "(\<forall>k. (\<Sum>l \<leftarrow> map (position_leaf C s) ps. amount_of (flatten_maps (in2_maps l)) k) < 2 ^ 128) \<longleftrightarrow>
     (\<forall>a. held_of ps a < 2 ^ 128)"
proof -
  have "(\<Sum>l \<leftarrow> map (position_leaf C s) ps. amount_of (flatten_maps (in2_maps l)) k) = 0"
    if "\<nexists>a. k = qualified_key ''held'' a" for k
    using that by (induction ps) (auto simp: position_maps amount_of_single)
  then show ?thesis by (metis position_total zero_less_numeral zero_less_power)
qed

lemma custody_succeeds_iff:
  "(\<exists>sr. build_custody_report C ps meta off slt signer = Ok sr) \<longleftrightarrow>
     ps \<noteq> [] \<and> meta_ledger_offset meta = off \<and> meta_profile meta = ''coverage.custody'' \<and>
     (\<forall>p \<in> set ps. is_safe_name (pos_asset p)) \<and> (\<forall>a. held_of ps a < 2 ^ 128)"
proof -
  let ?leaves = "map (position_leaf C slt) (sort_key contract_id ps)"
  have "(\<exists>pub. publish_v2 C ?leaves meta signer = Ok pub) \<longleftrightarrow>
      ps \<noteq> [] \<and> (\<forall>p \<in> set ps. is_safe_name (pos_asset p)) \<and> (\<forall>a. held_of ps a < 2 ^ 128)"
  proof -
    have "?leaves \<noteq> [] \<longleftrightarrow> ps \<noteq> []" by (metis length_0_conv length_map length_sort)
    moreover have "(\<forall>l \<in> set ?leaves. safe_maps (in2_maps l)) \<longleftrightarrow> (\<forall>p \<in> set ps. is_safe_name (pos_asset p))"
      by (simp add: position_maps)
    ultimately show ?thesis
      by (simp only: publish_v2_succeeds_iff position_total_bounded held_of_sort)
  qed
  then show ?thesis by (auto simp: build_custody_Ok_iff)
qed

lemma custody_report_holds:
  assumes "build_custody_report C ps meta off slt signer = Ok sr"
  shows "amount_of (root_sums (report sr)) (qualified_key ''held'' a) = held_of ps a"
    and "set (bkeys (root_sums (report sr))) = qualified_key ''held'' ` pos_asset ` set ps"
    and "leaf_count (report sr) = of_nat (length ps)"
    and "profile (report sr) = ''coverage.custody''"
    and "snapshot_time (report sr) = meta_snapshot_time meta"
    and "hex_spec C \<Longrightarrow> ed25519_spec C \<Longrightarrow> report_authentic C sr (public_key_hex C signer)"
proof -
  obtain pub where pub: "publish_v2 C (map (position_leaf C slt) (sort_key contract_id ps)) meta signer = Ok pub"
      and sr: "sr = signed_report_v2 pub" and meta: "meta_profile meta = ''coverage.custody''"
    using assms by (auto simp: build_custody_Ok_iff)
  note facts = published_report_v2 [OF pub]
  show "amount_of (root_sums (report sr)) (qualified_key ''held'' a) = held_of ps a"
    unfolding sr facts(5) position_total held_of_sort ..
  show "set (bkeys (root_sums (report sr))) = qualified_key ''held'' ` pos_asset ` set ps"
    unfolding sr facts(4) by (auto simp: position_maps)
  show "leaf_count (report sr) = of_nat (length ps)"
    by (simp add: sr facts(6))
  show "profile (report sr) = ''coverage.custody''"
    by (simp add: sr facts(2) meta)
  obtain r where r: "sr = sign_report C signer r" "snapshot_time r = meta_snapshot_time meta"
    using pub by (auto simp: sr publish_v2_Ok_iff report_of_def)
  then show "snapshot_time (report sr) = meta_snapshot_time meta"
    by (simp add: sign_report_def)
  show "report_authentic C sr (public_key_hex C signer)" if "hex_spec C" "ed25519_spec C"
    unfolding r(1) using that by (rule own_report_authentic)
qed

text \<open>The order of the response does not matter.\<close>

lemma sort_contracts_unique:
  assumes "mset ps = mset qs" "distinct (map contract_id ps)"
  shows "sort_key contract_id ps = sort_key contract_id qs"
proof (rule map_sorted_distinct_set_unique)
  have sets: "set ps = set qs" using assms(1) by (rule mset_eq_setD)
  have "mset (map contract_id qs) = mset (map contract_id ps)" using assms(1) by simp
  then have "distinct (map contract_id qs)" using assms(2) by (metis mset_eq_imp_distinct_iff)
  then show "distinct (map contract_id (sort_key contract_id qs))"
    by (simp add: distinct_map)
  show "distinct (map contract_id (sort_key contract_id ps))"
    using assms(2) by (simp add: distinct_map)
  show "inj_on contract_id (set (sort_key contract_id ps) \<union> set (sort_key contract_id qs))"
    using assms(2) sets by (simp add: distinct_map)
  show "set (sort_key contract_id ps) = set (sort_key contract_id qs)"
    using sets by simp
qed simp_all

lemma custody_report_order:
  assumes "mset ps = mset qs" "distinct (map contract_id ps)"
  shows "build_custody_report C ps meta off slt signer = build_custody_report C qs meta off slt signer"
proof -
  have "ps = [] \<longleftrightarrow> qs = []" using assms(1) by (metis mset_zero_iff)
  then show ?thesis
    unfolding build_custody_report_def sort_contracts_unique [OF assms] by simp
qed

subsection \<open>Secrets stay off the command line\<close>

lemma curl_args_tokenless: "curl_args (t\<lparr>token := x\<rparr>) path body = curl_args t path body"
  by (simp add: curl_args_def)

end
