(* ===== verification/Keystore.thy ===== *)
theory Keystore
  imports Sign
begin

text \<open>
  The signing seeds of the hosted console, \<open>solvency-service/src/keystore.rs\<close>: one sealed file
  per organisation, created on first use. A request is modelled twice, as the function the code
  is and as the sequence of file operations it performs, so that requests the server handles at
  the same time can interleave. The lemmas show that a key once on disk is the key every later
  request gets, under any interleaving; creation itself is not atomic.
\<close>

subsection \<open>Files and the cipher\<close>

typedef b12 = "{bs :: bytes. length bs = 12}"
  morphisms arr12 mk12
  by (rule exI [of _ "replicate 12 CHR 0x00"]) simp

lemma length_arr12 [simp]: "length (arr12 n) = 12"
  using arr12 [of n] by simp

record store =
  files :: "string \<Rightarrow> bytes option"
  writable :: "string \<Rightarrow> bool"

text \<open>ChaCha20-Poly1305: key, nonce, message and associated data. Opening needs the same key,
  nonce and data; the tag is sixteen bytes.\<close>

record aead =
  aead_encrypt :: "b32 \<Rightarrow> bytes \<Rightarrow> bytes \<Rightarrow> bytes \<Rightarrow> bytes option"
  aead_decrypt :: "b32 \<Rightarrow> bytes \<Rightarrow> bytes \<Rightarrow> bytes \<Rightarrow> bytes option"

definition aead_spec :: "aead \<Rightarrow> bool" where
  "aead_spec A \<longleftrightarrow> (\<forall>key nonce msg aad c. aead_encrypt A key nonce msg aad = Some c \<longrightarrow>
     aead_decrypt A key nonce c aad = Some msg \<and> length c = length msg + 16)"

datatype keystore_error =
    KekNotHex
  | KekLength nat
  | NotWritable string
  | BadOrgId
  | SealFailed
  | WriteFailed string
  | RenameFailed string
  | ReadFailed string
  | TooShort string
  | CannotUnseal string
  | SeedLength

definition write_file :: "string \<Rightarrow> bytes \<Rightarrow> store \<Rightarrow> keystore_error + store" where
  "write_file path bs S =
     (if writable S path then Ok (S\<lparr>files := (files S)(path := Some bs)\<rparr>) else Err (WriteFailed path))"

definition remove_file :: "string \<Rightarrow> store \<Rightarrow> store" where
  "remove_file path S = S\<lparr>files := (files S)(path := None)\<rparr>"

definition rename_file :: "string \<Rightarrow> string \<Rightarrow> store \<Rightarrow> keystore_error + store" where
  "rename_file src dst S = (case files S src of
     None \<Rightarrow> Err (RenameFailed dst)
   | Some bs \<Rightarrow> Ok (S\<lparr>files := (files S)(src := None, dst := Some bs)\<rparr>))"

subsection \<open>The keystore\<close>

definition NONCE_LEN :: nat where "NONCE_LEN = 12"

record Keystore =
  ks_dir :: string
  kek :: b32

definition open_keystore :: "crates \<Rightarrow> string \<Rightarrow> string \<Rightarrow> store \<Rightarrow> keystore_error + Keystore \<times> store" where
  "open_keystore C dir kek_hex S =
     and_then (ok_or (hex_decode C (trim kek_hex)) KekNotHex) (\<lambda>raw.
     and_then (ensure (length raw = 32) (KekLength (length raw))) (\<lambda>_.
     (let probe = join_path dir ''.write-test'' in
      and_then (map_err (\<lambda>_. NotWritable dir) (write_file probe [] S)) (\<lambda>S'.
      and_then (ok_or (try32 raw) (KekLength (length raw))) (\<lambda>key.
        Ok (\<lparr>ks_dir = dir, kek = key\<rparr>, remove_file probe S'))))))"

definition path_for :: "Keystore \<Rightarrow> string \<Rightarrow> keystore_error + string" where
  "path_for K org =
     and_then (ensure (org \<noteq> [] \<and> list_all (\<lambda>c. is_ascii_alphanumeric c \<or> c = CHR ''-'' \<or> c = CHR ''_'') org)
                 BadOrgId) (\<lambda>_.
       Ok (join_path (ks_dir K) (org @ ''.key'')))"

text \<open>\<open>path.with_extension("key.tmp")\<close> of a path that ends in \<open>.key\<close>.\<close>

definition tmp_path :: "string \<Rightarrow> string" where "tmp_path path = path @ ''.tmp''"

definition sealed_seed :: "aead \<Rightarrow> Keystore \<Rightarrow> string \<Rightarrow> b32 \<Rightarrow> b12 \<Rightarrow> keystore_error + bytes" where
  "sealed_seed A K org s nonce =
     and_then (ok_or (aead_encrypt A (kek K) (arr12 nonce) (arr32 s) org) SealFailed) (\<lambda>c.
       Ok (arr12 nonce @ c))"

definition seal :: "aead \<Rightarrow> Keystore \<Rightarrow> string \<Rightarrow> string \<Rightarrow> b32 \<Rightarrow> b12 \<Rightarrow> store \<Rightarrow> (keystore_error + unit) \<times> store" where
  "seal A K path org s nonce S =
     (case sealed_seed A K org s nonce of
        Inl e \<Rightarrow> (Err e, S)
      | Inr out \<Rightarrow>
          (case write_file (tmp_path path) out S of
             Inl e \<Rightarrow> (Err e, S)
           | Inr S' \<Rightarrow>
               (case rename_file (tmp_path path) path S' of
                  Inl e \<Rightarrow> (Err e, S')
                | Inr S'' \<Rightarrow> (Ok (), S''))))"

definition unseal :: "aead \<Rightarrow> Keystore \<Rightarrow> string \<Rightarrow> string \<Rightarrow> store \<Rightarrow> keystore_error + b32" where
  "unseal A K path org S =
     and_then (ok_or (files S path) (ReadFailed path)) (\<lambda>bs.
     and_then (ensure (\<not> length bs < NONCE_LEN + 16) (TooShort path)) (\<lambda>_.
     and_then (ok_or (aead_decrypt A (kek K) (take NONCE_LEN bs) (drop NONCE_LEN bs) org) (CannotUnseal path)) (\<lambda>s.
       ok_or (try32 s) SeedLength)))"

text \<open>\<open>signer_for\<close>, with the random draws a first use makes.\<close>

record request =
  req_org :: string
  req_seed :: b32
  req_nonce :: b12

definition signer_for :: "aead \<Rightarrow> Keystore \<Rightarrow> request \<Rightarrow> store \<Rightarrow> (keystore_error + ReportSigner) \<times> store" where
  "signer_for A K r S = (case path_for K (req_org r) of
     Inl e \<Rightarrow> (Err e, S)
   | Inr path \<Rightarrow>
       if files S path \<noteq> None then
         (and_then (unseal A K path (req_org r) S) (\<lambda>s. Ok \<lparr>seed = s\<rparr>), S)
       else
         (case seal A K path (req_org r) (req_seed r) (req_nonce r) S of
            (Inl e, S') \<Rightarrow> (Err e, S')
          | (Inr _, S') \<Rightarrow> (Ok \<lparr>seed = req_seed r\<rparr>, S')))"

subsection \<open>A request, one file operation at a time\<close>

datatype progress =
    Arrived
  | Present string
  | Absent string
  | Staged string
  | Finished "keystore_error + ReportSigner"

definition request_step :: "aead \<Rightarrow> Keystore \<Rightarrow> request \<Rightarrow> progress \<Rightarrow> store \<Rightarrow> progress \<times> store" where
  "request_step A K r p S = (case p of
     Arrived \<Rightarrow>
       (case path_for K (req_org r) of
          Inl e \<Rightarrow> (Finished (Err e), S)
        | Inr path \<Rightarrow> (if files S path \<noteq> None then Present path else Absent path, S))
   | Present path \<Rightarrow> (Finished (and_then (unseal A K path (req_org r) S) (\<lambda>s. Ok \<lparr>seed = s\<rparr>)), S)
   | Absent path \<Rightarrow>
       (case and_then (sealed_seed A K (req_org r) (req_seed r) (req_nonce r)) (\<lambda>out.
               write_file (tmp_path path) out S) of
          Inl e \<Rightarrow> (Finished (Err e), S)
        | Inr S' \<Rightarrow> (Staged path, S'))
   | Staged path \<Rightarrow>
       (case rename_file (tmp_path path) path S of
          Inl e \<Rightarrow> (Finished (Err e), S)
        | Inr S' \<Rightarrow> (Finished (Ok \<lparr>seed = req_seed r\<rparr>), S'))
   | Finished x \<Rightarrow> (Finished x, S))"

text \<open>Requests in progress at the same time: any one of them may take its next step.\<close>

inductive serves :: "aead \<Rightarrow> Keystore \<Rightarrow> request list \<Rightarrow> progress list \<times> store \<Rightarrow> progress list \<times> store \<Rightarrow> bool"
  for A K rs where
  serve_step: "i < length rs \<Longrightarrow> i < length ps \<Longrightarrow> request_step A K (rs ! i) (ps ! i) S = (p, S') \<Longrightarrow>
     serves A K rs (ps, S) (ps[i := p], S')"

inductive_cases servesE: "serves A K rs (ps, S) t"

definition arrivals :: "request list \<Rightarrow> progress list" where
  "arrivals rs = map (\<lambda>_. Arrived) rs"

subsection \<open>The function is the sequence of steps\<close>

definition request_run :: "aead \<Rightarrow> Keystore \<Rightarrow> request \<Rightarrow> store \<Rightarrow> progress \<times> store" where
  "request_run A K r S = ((\<lambda>(p, T). request_step A K r p T) ^^ 3) (Arrived, S)"

lemma request_run_signer_for:
  "request_run A K r S = (Finished (fst (signer_for A K r S)), snd (signer_for A K r S))"
  by (simp add: request_run_def numeral_3_eq_3 request_step_def signer_for_def seal_def
      split: sum.splits)

subsection \<open>Paths\<close>

lemma path_for_Ok_iff:
  "path_for K org = Ok path \<longleftrightarrow>
     org \<noteq> [] \<and> list_all (\<lambda>c. is_ascii_alphanumeric c \<or> c = CHR ''-'' \<or> c = CHR ''_'') org \<and>
     path = join_path (ks_dir K) (org @ ''.key'')"
  by (auto simp: path_for_def)

lemma path_for_inject: "path_for K org = Ok path \<Longrightarrow> path_for K org' = Ok path \<Longrightarrow> org = org'"
  by (simp add: path_for_Ok_iff)

lemma last_join_path: "name \<noteq> [] \<Longrightarrow> last (join_path dir name) = last name"
  by (simp add: join_path_def)

lemma tmp_path_apart: "path_for K org = Ok path \<Longrightarrow> tmp_path q \<noteq> path"
  using last_join_path [of "org @ ''.key''" "ks_dir K"]
  by (auto simp: path_for_Ok_iff tmp_path_def dest: arg_cong [of _ _ last])

lemma tmp_path_longer: "tmp_path q \<noteq> q"
  by (simp add: tmp_path_def)

subsection \<open>Sealed files\<close>

lemma unseal_files: "files S path = files T path \<Longrightarrow> unseal A K path org S = unseal A K path org T"
  by (simp add: unseal_def)

lemma unseal_sealed:
  assumes "aead_spec A" "sealed_seed A K org s nonce = Ok out" "files S path = Some out"
  shows "unseal A K path org S = Ok s"
proof -
  obtain c where c: "aead_encrypt A (kek K) (arr12 nonce) (arr32 s) org = Some c" "out = arr12 nonce @ c"
    using assms(2) by (auto simp: sealed_seed_def)
  then have "aead_decrypt A (kek K) (arr12 nonce) c org = Some (arr32 s)" "length c = 48"
    using assms(1) by (auto simp: aead_spec_def)
  then show ?thesis using assms(3) c(2) by (simp add: unseal_def NONCE_LEN_def)
qed

definition holds_key :: "aead \<Rightarrow> Keystore \<Rightarrow> string \<Rightarrow> ReportSigner \<Rightarrow> store \<Rightarrow> bool" where
  "holds_key A K org sg S \<longleftrightarrow>
     (\<exists>path. path_for K org = Ok path \<and> files S path \<noteq> None \<and> unseal A K path org S = Ok (seed sg))"

lemma signer_for_held: "holds_key A K (req_org r) sg S \<Longrightarrow> signer_for A K r S = (Ok sg, S)"
  by (auto simp: holds_key_def signer_for_def)

lemma signer_for_holds:
  assumes "aead_spec A" "signer_for A K r S = (Ok sg, S1)"
  shows "holds_key A K (req_org r) sg S1"
proof -
  obtain path where path: "path_for K (req_org r) = Ok path"
    using assms(2) by (cases "path_for K (req_org r)") (auto simp: signer_for_def)
  show ?thesis
  proof (cases "files S path")
    case None
    then obtain out S' where out: "sealed_seed A K (req_org r) (req_seed r) (req_nonce r) = Ok out"
        "write_file (tmp_path path) out S = Ok S'" "rename_file (tmp_path path) path S' = Ok S1"
        "sg = \<lparr>seed = req_seed r\<rparr>"
      using assms(2) by (auto simp: signer_for_def path seal_def split: sum.splits)
    then have "files S1 path = Some out"
      by (auto simp: write_file_def rename_file_def split: if_splits)
    with unseal_sealed [OF assms(1) out(1) this] path out(4) show ?thesis
      by (auto simp: holds_key_def)
  next
    case (Some bs)
    with assms(2) path show ?thesis by (auto simp: signer_for_def holds_key_def)
  qed
qed

subsection \<open>A key on disk stays the key\<close>

text \<open>What every state reachable from a store that holds the key satisfies.\<close>

definition at_path :: "Keystore \<Rightarrow> request \<Rightarrow> progress \<Rightarrow> bool" where
  "at_path K r p = (case p of
     Present q \<Rightarrow> path_for K (req_org r) = Ok q
   | Absent q \<Rightarrow> path_for K (req_org r) = Ok q
   | Staged q \<Rightarrow> path_for K (req_org r) = Ok q
   | _ \<Rightarrow> True)"

definition agrees :: "string \<Rightarrow> ReportSigner \<Rightarrow> request \<Rightarrow> progress \<Rightarrow> bool" where
  "agrees org sg r p \<longleftrightarrow> req_org r = org \<longrightarrow>
     (case p of Arrived \<Rightarrow> True | Present _ \<Rightarrow> True | Finished x \<Rightarrow> x = Ok sg | _ \<Rightarrow> False)"

lemma request_step_keeps:
  assumes "path_for K org = Ok path" "files S path = Some bs" "unseal A K path org S = Ok (seed sg)"
    and "at_path K r p" "agrees org sg r p" "request_step A K r p S = (p', S')"
  shows "files S' path = Some bs \<and> at_path K r p' \<and> agrees org sg r p'"
proof (cases "req_org r = org")
  case True
  then show ?thesis
    using assms by (cases p) (auto simp: request_step_def at_path_def agrees_def)
next
  case False
  then have "q \<noteq> path" if "path_for K (req_org r) = Ok q" for q
    using that assms(1) path_for_inject by blast
  moreover have "path \<noteq> tmp_path q" for q
    using tmp_path_apart [OF assms(1)] by metis
  ultimately show ?thesis
    using False assms by (cases p)
      (auto simp: request_step_def at_path_def agrees_def write_file_def rename_file_def
        split: sum.splits if_splits option.splits)
qed

definition key_kept :: "Keystore \<Rightarrow> request list \<Rightarrow> string \<Rightarrow> bytes \<Rightarrow> string \<Rightarrow> ReportSigner \<Rightarrow> progress list \<times> store \<Rightarrow> bool" where
  "key_kept K rs path bs org sg = (\<lambda>(ps, S). length ps = length rs \<and> files S path = Some bs \<and>
     (\<forall>i < length rs. at_path K (rs ! i) (ps ! i) \<and> agrees org sg (rs ! i) (ps ! i)))"

lemma serves_keeps:
  assumes "path_for K org = Ok path" "serves A K rs s t" "key_kept K rs path bs org sg s"
    and "unseal A K path org (snd s) = Ok (seed sg)"
  shows "key_kept K rs path bs org sg t \<and> unseal A K path org (snd t) = Ok (seed sg)"
  using assms(2)
proof cases
  case (serve_step i ps S p S')
  have kept: "length ps = length rs" "files S path = Some bs"
    "\<And>j. j < length rs \<Longrightarrow> at_path K (rs ! j) (ps ! j) \<and> agrees org sg (rs ! j) (ps ! j)"
    using assms(3) by (simp_all add: key_kept_def serve_step(1))
  have now: "files S' path = Some bs \<and> at_path K (rs ! i) p \<and> agrees org sg (rs ! i) p"
    using request_step_keeps [OF assms(1) kept(2) _ _ _ serve_step(5)] assms(4) kept(3) [OF serve_step(3)]
    by (simp add: serve_step(1))
  moreover have "unseal A K path org S' = unseal A K path org S"
    by (rule unseal_files) (use now kept(2) in simp)
  ultimately show ?thesis
    using assms(4) kept serve_step(4) by (auto simp: serve_step(1,2) key_kept_def nth_list_update)
qed

lemma held_key_served:
  assumes "(serves A K rs)\<^sup>*\<^sup>* (arrivals rs, S) (ps, T)" "holds_key A K org sg S"
  shows "holds_key A K org sg T"
    and "i < length rs \<Longrightarrow> req_org (rs ! i) = org \<Longrightarrow> ps ! i = Finished x \<Longrightarrow> x = Ok sg"
proof -
  obtain path bs where path: "path_for K org = Ok path" "files S path = Some bs"
      "unseal A K path org S = Ok (seed sg)"
    using assms(2) by (auto simp: holds_key_def)
  have "key_kept K rs path bs org sg t \<and> unseal A K path org (snd t) = Ok (seed sg)"
    if "(serves A K rs)\<^sup>*\<^sup>* (arrivals rs, S) t" for t
    using that
  proof (induction rule: rtranclp_induct)
    case base
    then show ?case using path by (simp add: key_kept_def arrivals_def at_path_def agrees_def)
  next
    case (step t u)
    then show ?case using serves_keeps [OF path(1) step(2)] by blast
  qed
  from this [OF assms(1)] have kept: "key_kept K rs path bs org sg (ps, T)" "unseal A K path org T = Ok (seed sg)"
    by simp_all
  then show "holds_key A K org sg T"
    using path(1) by (auto simp: holds_key_def key_kept_def)
  show "i < length rs \<Longrightarrow> req_org (rs ! i) = org \<Longrightarrow> ps ! i = Finished x \<Longrightarrow> x = Ok sg"
    using kept(1) by (auto simp: key_kept_def agrees_def)
qed

subsection \<open>First use is not atomic\<close>

lemma serves_first: "request_step A K r1 p S = (p', S') \<Longrightarrow> serves A K [r1, r2] ([p, q], S) ([p', q], S')"
  using serve_step [of 0 "[r1, r2]" "[p, q]" A K S p' S'] by simp

lemma serves_second: "request_step A K r2 q S = (q', S') \<Longrightarrow> serves A K [r1, r2] ([p, q], S) ([p, q'], S')"
  using serve_step [of 1 "[r1, r2]" "[p, q]" A K S q' S'] by simp

lemma first_use_race:
  assumes "aead_spec A" "path_for K org = Ok path" "files S path = None" "writable S (tmp_path path)"
    and "req_org r1 = org" "req_org r2 = org"
    and "sealed_seed A K org (req_seed r1) (req_nonce r1) = Ok out1"
    and "sealed_seed A K org (req_seed r2) (req_nonce r2) = Ok out2"
  shows "\<exists>T. (serves A K [r1, r2])\<^sup>*\<^sup>* (arrivals [r1, r2], S)
      ([Finished (Ok \<lparr>seed = req_seed r1\<rparr>), Finished (Ok \<lparr>seed = req_seed r2\<rparr>)], T) \<and>
    holds_key A K org \<lparr>seed = req_seed r2\<rparr> T"
proof -
  let ?tmp = "tmp_path path" and ?R = "serves A K [r1, r2]"
  define S1 where "S1 = S\<lparr>files := (files S)(?tmp := Some out1)\<rparr>"
  define S2 where "S2 = S\<lparr>files := (files S)(?tmp := None, path := Some out1)\<rparr>"
  define S3 where "S3 = S2\<lparr>files := (files S2)(?tmp := Some out2)\<rparr>"
  define S4 where "S4 = S3\<lparr>files := (files S3)(?tmp := None, path := Some out2)\<rparr>"
  note defs = request_step_def assms write_file_def rename_file_def S1_def S2_def S3_def S4_def
  have "?R (arrivals [r1, r2], S) ([Absent path, Arrived], S)"
    unfolding arrivals_def list.map by (rule serves_first) (simp add: defs)
  moreover have "?R ([Absent path, Arrived], S) ([Absent path, Absent path], S)"
    by (rule serves_second) (simp add: defs)
  ultimately have checked: "?R\<^sup>*\<^sup>* (arrivals [r1, r2], S) ([Absent path, Absent path], S)"
    by (meson r_into_rtranclp rtranclp.rtrancl_into_rtrancl)
  have "?R ([Absent path, Absent path], S) ([Staged path, Absent path], S1)"
    by (rule serves_first) (simp add: defs)
  moreover have "?R ([Staged path, Absent path], S1) ([Finished (Ok \<lparr>seed = req_seed r1\<rparr>), Absent path], S2)"
    by (rule serves_first) (simp add: defs)
  moreover have "?R ([Finished (Ok \<lparr>seed = req_seed r1\<rparr>), Absent path], S2)
      ([Finished (Ok \<lparr>seed = req_seed r1\<rparr>), Staged path], S3)"
    by (rule serves_second) (simp add: defs)
  moreover have "?R ([Finished (Ok \<lparr>seed = req_seed r1\<rparr>), Staged path], S3)
      ([Finished (Ok \<lparr>seed = req_seed r1\<rparr>), Finished (Ok \<lparr>seed = req_seed r2\<rparr>)], S4)"
    by (rule serves_second) (simp add: defs)
  ultimately have "?R\<^sup>*\<^sup>* (arrivals [r1, r2], S)
      ([Finished (Ok \<lparr>seed = req_seed r1\<rparr>), Finished (Ok \<lparr>seed = req_seed r2\<rparr>)], S4)"
    using checked by (meson rtranclp.rtrancl_into_rtrancl)
  moreover have "files S4 path = Some out2" by (simp add: S4_def)
  then have "holds_key A K org \<lparr>seed = req_seed r2\<rparr> S4"
    using unseal_sealed [OF assms(1,8)] assms(2) by (auto simp: holds_key_def)
  ultimately show ?thesis by blast
qed

end
