(* ===== verification/Service.thy ===== *)
theory Service
  imports Custody Keystore Pack Anchor
begin

text \<open>
  The signing service of the hosted console, \<open>solvency-service/src/api.rs\<close> and \<open>main.rs\<close>:
  what a publish and a custody request are turned into, the bearer token and the start-up checks.
  Random draws are arguments; the encoders of \<open>serde_json\<close> are the record \<open>encoders\<close>. The
  lemmas say what the published report totals and discloses, file by file what is delivered, and
  under whose key.
\<close>

subsection \<open>Requests and responses\<close>

record encoders =
  en_report :: "SignedReport \<Rightarrow> bytes"
  en_anchor :: "Anchor \<Rightarrow> bytes"
  en_proof :: "ProofDocument \<Rightarrow> bytes"
  en_pack :: "SignedPack \<Rightarrow> bytes"

definition pretty :: "('a \<Rightarrow> bytes) \<Rightarrow> 'a \<Rightarrow> bytes" where
  "pretty encode x = encode x @ [CHR 0x0A]"

definition LIABILITIES_PROFILE :: string where "LIABILITIES_PROFILE = ''solvency.liabilities''"
definition CUSTODY_PROFILE :: string where "CUSTODY_PROFILE = ''coverage.custody''"

record FileOut =
  file_name :: string
  file_content :: bytes

record LeafIn =
  leaf_user :: string
  leaf_amounts :: "string bmap"

record DisclosuresIn =
  din_bad_debt :: "string bmap"
  din_excluded_accounts :: u64
  din_excluded_totals :: "string bmap"

record PublishRequest =
  pr_org :: string
  pr_publisher :: string
  pr_profile :: string
  pr_snapshot_time :: string
  pr_ledger_offset :: string
  pr_leaves :: "LeafIn list"
  pr_mark_prices :: "string bmap"
  pr_disclosures :: DisclosuresIn
  pr_manifest :: "Manifest option"
  pr_previous_anchor :: "Anchor option"

record ProofOut =
  po_user :: string
  po_file :: string

record PublishResponse =
  rs_public_key :: string
  rs_format_version :: string
  rs_report_digest :: string
  rs_anchor_digest :: string
  rs_root_hash :: string
  rs_leaf_count :: u64
  rs_root_sums :: "string bmap"
  rs_clamped :: nat
  rs_proofs :: "ProofOut list"
  rs_files :: "FileOut list"

datatype service_error =
    NoLeavesGiven
  | OtherProfile string
  | AmountField string string string merkle_error
  | EmptyUser nat
  | DuplicateUser nat string
  | EmptyAsset string
  | LeafAmount string string string merkle_error
  | BadDebtOverflows
  | ServicePublish publish_error
  | PackRefused pack_failure
  | EmptySnapshot
  | ServiceAttest attest_error

definition amounts_of :: "string bmap \<Rightarrow> string \<Rightarrow> service_error + u128 bmap" where
  "amounts_of m what =
     and_then (collect_ok (\<lambda>(k, v). and_then (map_err (AmountField what k v) (parse_amount_18dp v)) (\<lambda>a. Ok (k, a)))
                 (entries m)) (\<lambda>kvs.
       Ok (bof_list kvs))"

definition display_amounts :: "u128 bmap \<Rightarrow> string bmap" where
  "display_amounts m = bmap_values format_amount_18dp m"

definition proof_file_name :: "crates \<Rightarrow> string \<Rightarrow> string" where
  "proof_file_name C user = ''proof-'' @ hex_encode C (take 12 (arr32 (sha256 C user))) @ ''.json''"

subsection \<open>Reading the leaves of a request\<close>

text \<open>The loop over the balances of one leaf: a negative amount counts as zero and is added to
  the bad debt.\<close>

fun read_balances ::
  "string \<Rightarrow> (string \<times> string) list \<Rightarrow> u128 bmap \<Rightarrow> u128 bmap \<Rightarrow> nat \<Rightarrow>
     service_error + u128 bmap \<times> u128 bmap \<times> nat" where
  "read_balances user [] bal bad clamped = Ok (bal, bad, clamped)"
| "read_balances user ((asset_in, raw_in) # rest) bal bad clamped =
     (let asset = trim asset_in; raw = trim raw_in in
      and_then (ensure (asset \<noteq> []) (EmptyAsset user)) (\<lambda>_.
        (case strip_prefix ''-'' raw of
           Some magnitude \<Rightarrow>
             and_then (map_err (LeafAmount user asset raw) (parse_amount_18dp magnitude)) (\<lambda>owed.
             and_then (ok_or (checked_add (get0 bad asset) owed) BadDebtOverflows) (\<lambda>s.
               read_balances user rest (binsert asset 0 bal) (binsert asset s bad) (Suc clamped)))
         | None \<Rightarrow>
             and_then (map_err (LeafAmount user asset raw) (parse_amount_18dp raw)) (\<lambda>amount.
               read_balances user rest (binsert asset amount bal) bad clamped))))"

fun read_leaves ::
  "(nat \<times> LeafIn) list \<Rightarrow> u128 bmap bmap \<Rightarrow> u128 bmap \<Rightarrow> nat \<Rightarrow>
     service_error + u128 bmap bmap \<times> u128 bmap \<times> nat" where
  "read_leaves [] users bad clamped = Ok (users, bad, clamped)"
| "read_leaves ((i, leaf) # rest) users bad clamped =
     (let user = trim (leaf_user leaf) in
      and_then (ensure (user \<noteq> []) (EmptyUser i)) (\<lambda>_.
      and_then (ensure (\<not> bcontains users user) (DuplicateUser i user)) (\<lambda>_.
      and_then (read_balances user (entries (leaf_amounts leaf)) bempty bad clamped) (\<lambda>(bal, bad', clamped').
        read_leaves rest (binsert user bal users) bad' clamped'))))"

subsection \<open>Publishing\<close>

text \<open>The documents one publication consists of.\<close>

record ServiceDocuments =
  doc_report :: SignedReport
  doc_anchor :: Anchor
  doc_proofs :: "ProofDocument list"
  doc_pack :: SignedPack
  doc_clamped :: nat

definition proof_user :: "ProofDocument \<Rightarrow> string" where
  "proof_user p = user_id (proof_leaf p)"

definition member_files :: "crates \<Rightarrow> encoders \<Rightarrow> SignedReport \<Rightarrow> Anchor \<Rightarrow> ProofDocument list \<Rightarrow> FileOut list" where
  "member_files C E sr a ps =
     \<lparr>file_name = ''report.json'', file_content = pretty (en_report E) sr\<rparr> #
     \<lparr>file_name = ''anchor.json'', file_content = pretty (en_anchor E) a\<rparr> #
     map (\<lambda>p. \<lparr>file_name = proof_file_name C (proof_user p), file_content = pretty (en_proof E) p\<rparr>) ps"

definition leaves_in :: "crates \<Rightarrow> bytes \<Rightarrow> u128 bmap bmap \<Rightarrow> LeafInput list" where
  "leaves_in C master_salt users =
     map (\<lambda>(user, bal).
       \<lparr>in_salt = leaf_salt C master_salt user, in_user_id = user, in_balances = bal\<rparr>) (entries users)"

definition publish_documents ::
  "crates \<Rightarrow> encoders \<Rightarrow> PublishRequest \<Rightarrow> ReportSigner \<Rightarrow> b32 \<Rightarrow> service_error + ServiceDocuments" where
  "publish_documents C E req signer master_salt =
     and_then (ensure (pr_leaves req \<noteq> []) NoLeavesGiven) (\<lambda>_.
     and_then (ensure (pr_profile req = LIABILITIES_PROFILE) (OtherProfile (pr_profile req))) (\<lambda>_.
     and_then (amounts_of (din_bad_debt (pr_disclosures req)) ''disclosures.bad_debt'') (\<lambda>declared.
     and_then (read_leaves (List.enumerate 0 (pr_leaves req)) bempty declared 0) (\<lambda>(users, bad, clamped).
     and_then (amounts_of (pr_mark_prices req) ''mark_prices'') (\<lambda>prices.
     and_then (amounts_of (din_excluded_totals (pr_disclosures req)) ''disclosures.excluded_house_totals'') (\<lambda>excluded.
     (let meta = \<lparr>meta_profile = pr_profile req,
                  meta_publisher = pr_publisher req,
                  meta_snapshot_time = pr_snapshot_time req,
                  meta_ledger_offset = pr_ledger_offset req,
                  meta_mark_prices = prices,
                  meta_disclosures = \<lparr>bad_debt = bad,
                    excluded_house_accounts = din_excluded_accounts (pr_disclosures req),
                    excluded_house_totals = excluded\<rparr>,
                  meta_manifest = pr_manifest req\<rparr> in
      and_then (map_err ServicePublish (publish C (leaves_in C (arr32 master_salt) users) meta signer)) (\<lambda>published.
      (let sr = signed_report published;
           a = anchor_report C sr (pr_previous_anchor req);
           members = map (\<lambda>f. (file_name f, file_content f)) (member_files C E sr a (proofs published)) in
       and_then (map_err PackRefused
                   (build_pack C (publisher (report sr)) (snapshot_time (report sr))
                      (report_digest_hex C (report sr)) members signer)) (\<lambda>sp.
         Ok \<lparr>doc_report = sr, doc_anchor = a, doc_proofs = proofs published, doc_pack = sp,
             doc_clamped = clamped\<rparr>))))))))))"

definition response_of :: "crates \<Rightarrow> encoders \<Rightarrow> ReportSigner \<Rightarrow> ServiceDocuments \<Rightarrow> PublishResponse" where
  "response_of C E signer d =
     (let r = report (doc_report d) in
      \<lparr>rs_public_key = public_key_hex C signer,
       rs_format_version = format_version r,
       rs_report_digest = report_digest_hex C r,
       rs_anchor_digest = anchor_digest_hex C (doc_anchor d),
       rs_root_hash = root_hash r,
       rs_leaf_count = leaf_count r,
       rs_root_sums = display_amounts (root_sums r),
       rs_clamped = doc_clamped d,
       rs_proofs = map (\<lambda>p. \<lparr>po_user = proof_user p, po_file = proof_file_name C (proof_user p)\<rparr>) (doc_proofs d),
       rs_files = member_files C E (doc_report d) (doc_anchor d) (doc_proofs d) @
         [\<lparr>file_name = ''pack.json'', file_content = pretty (en_pack E) (doc_pack d)\<rparr>]\<rparr>)"

definition do_publish ::
  "crates \<Rightarrow> encoders \<Rightarrow> PublishRequest \<Rightarrow> ReportSigner \<Rightarrow> b32 \<Rightarrow> service_error + PublishResponse" where
  "do_publish C E req signer master_salt =
     and_then (publish_documents C E req signer master_salt) (\<lambda>d. Ok (response_of C E signer d))"

subsection \<open>Custody\<close>

record CustodyRequest =
  cr_org :: string
  cr_publisher :: string
  cr_snapshot_time :: string
  cr_ledger_offset :: string
  cr_response_json :: bytes
  cr_asset_field :: string
  cr_amount_field :: string

record PositionOut =
  out_contract :: string
  out_asset :: string
  out_amount :: string

record CustodyResponse =
  cs_public_key :: string
  cs_report_digest :: string
  cs_root_hash :: string
  cs_leaf_count :: u64
  cs_root_sums :: "string bmap"
  cs_positions :: "PositionOut list"
  cs_files :: "FileOut list"

definition custody_meta :: "CustodyRequest \<Rightarrow> ReportMetadata" where
  "custody_meta req = \<lparr>
     meta_profile = CUSTODY_PROFILE,
     meta_publisher = cr_publisher req,
     meta_snapshot_time = cr_snapshot_time req,
     meta_ledger_offset = cr_ledger_offset req,
     meta_mark_prices = bempty,
     meta_disclosures = \<lparr>bad_debt = bempty, excluded_house_accounts = 0, excluded_house_totals = bempty\<rparr>,
     meta_manifest = None\<rparr>"

definition do_custody ::
  "crates \<Rightarrow> json_text \<Rightarrow> encoders \<Rightarrow> CustodyRequest \<Rightarrow> ReportSigner \<Rightarrow> b32 \<Rightarrow> service_error + CustodyResponse" where
  "do_custody C J E req signer master_salt =
     and_then (map_err ServiceAttest (parse_holdings J (cr_response_json req)
                 \<lparr>asset_field = cr_asset_field req, amount_field = cr_amount_field req\<rparr>)) (\<lambda>positions.
     and_then (ensure (positions \<noteq> []) EmptySnapshot) (\<lambda>_.
     and_then (map_err ServiceAttest (totals positions)) (\<lambda>_.
     and_then (map_err ServiceAttest (build_custody_report C positions (custody_meta req) (cr_ledger_offset req)
                 (arr32 master_salt) signer)) (\<lambda>sr.
       Ok \<lparr>cs_public_key = public_key_hex C signer,
           cs_report_digest = report_digest_hex C (report sr),
           cs_root_hash = root_hash (report sr),
           cs_leaf_count = leaf_count (report sr),
           cs_root_sums = display_amounts (root_sums (report sr)),
           cs_positions = map (\<lambda>p. \<lparr>out_contract = contract_id p, out_asset = pos_asset p,
              out_amount = format_amount_18dp (pos_amount p)\<rparr>) positions,
           cs_files = [\<lparr>file_name = ''custody-report.json'', file_content = pretty (en_report E) sr\<rparr>]\<rparr>))))"

subsection \<open>The server\<close>

record AppState =
  app_keystore :: Keystore
  app_token :: string

text \<open>The comparison takes constant time, which is not modelled; its result is equality.\<close>

definition require_token :: "AppState \<Rightarrow> string option \<Rightarrow> bool" where
  "require_token app header =
     (let presented = (case Option.bind header (strip_prefix ''Bearer '') of None \<Rightarrow> [] | Some p \<Rightarrow> p) in
      length presented = length (app_token app) \<and> presented = app_token app)"

datatype startup_error =
    MissingVariable string
  | TokenTooShort
  | StartKeystore keystore_error

definition start_service ::
  "crates \<Rightarrow> (string \<Rightarrow> string option) \<Rightarrow> store \<Rightarrow> startup_error + AppState \<times> store" where
  "start_service C env S =
     and_then (ok_or (env ''SERVICE_TOKEN'') (MissingVariable ''SERVICE_TOKEN'')) (\<lambda>tok.
     and_then (ensure (\<not> length tok < 32) TokenTooShort) (\<lambda>_.
     and_then (ok_or (env ''SERVICE_KEK'') (MissingVariable ''SERVICE_KEK'')) (\<lambda>kek_hex.
     (let dir = (case env ''KEYSTORE_DIR'' of None \<Rightarrow> ''./keystore'' | Some d \<Rightarrow> d) in
      and_then (map_err StartKeystore (open_keystore C dir kek_hex S)) (\<lambda>(K, S').
        Ok (\<lparr>app_keystore = K, app_token = tok\<rparr>, S'))))))"

datatype service_call =
    CallKeys string
  | CallPublish PublishRequest
  | CallCustody CustodyRequest

fun call_org :: "service_call \<Rightarrow> string" where
  "call_org (CallKeys org) = org"
| "call_org (CallPublish req) = pr_org req"
| "call_org (CallCustody req) = cr_org req"

datatype service_answer =
    AnswerHealth
  | Unauthorized
  | KeystoreFailed keystore_error
  | CallFailed service_error
  | AnswerKey string
  | AnswerPublish PublishResponse
  | AnswerCustody CustodyResponse

text \<open>The random draws one call may make.\<close>

record draws =
  draw_seed :: b32
  draw_nonce :: b12
  draw_salt :: b32

fun answer :: "crates \<Rightarrow> json_text \<Rightarrow> encoders \<Rightarrow> ReportSigner \<Rightarrow> b32 \<Rightarrow> service_call \<Rightarrow> service_answer" where
  "answer C J E signer slt (CallKeys org) = AnswerKey (public_key_hex C signer)"
| "answer C J E signer slt (CallPublish req) =
     (case do_publish C E req signer slt of Inl e \<Rightarrow> CallFailed e | Inr resp \<Rightarrow> AnswerPublish resp)"
| "answer C J E signer slt (CallCustody req) =
     (case do_custody C J E req signer slt of Inl e \<Rightarrow> CallFailed e | Inr resp \<Rightarrow> AnswerCustody resp)"

definition handle ::
  "crates \<Rightarrow> json_text \<Rightarrow> encoders \<Rightarrow> aead \<Rightarrow> AppState \<Rightarrow> string option \<Rightarrow> service_call \<Rightarrow> draws \<Rightarrow> store \<Rightarrow>
     service_answer \<times> store" where
  "handle C J E A app header call d S =
     (if \<not> require_token app header then (Unauthorized, S)
      else (case signer_for A (app_keystore app)
                   \<lparr>req_org = call_org call, req_seed = draw_seed d, req_nonce = draw_nonce d\<rparr> S of
              (Inl e, S') \<Rightarrow> (KeystoreFailed e, S')
            | (Inr signer, S') \<Rightarrow> (answer C J E signer (draw_salt d) call, S')))"

text \<open>All the routes: the token check lies on the protected ones only.\<close>

datatype service_route =
    RouteHealth
  | RouteProtected service_call

definition respond ::
  "crates \<Rightarrow> json_text \<Rightarrow> encoders \<Rightarrow> aead \<Rightarrow> AppState \<Rightarrow> string option \<Rightarrow> service_route \<Rightarrow> draws \<Rightarrow> store \<Rightarrow>
     service_answer \<times> store" where
  "respond C J E A app header route d S = (case route of
     RouteHealth \<Rightarrow> (AnswerHealth, S)
   | RouteProtected call \<Rightarrow> handle C J E A app header call d S)"

subsection \<open>What the leaves of a request come to\<close>

text \<open>The amount a raw balance credits a customer with, and the debt it discloses.\<close>

definition credit :: "string \<Rightarrow> nat" where
  "credit raw = (case strip_prefix ''-'' (trim raw) of
     Some _ \<Rightarrow> 0
   | None \<Rightarrow> (case parse_amount_18dp (trim raw) of Inl _ \<Rightarrow> 0 | Inr v \<Rightarrow> unat v))"

definition debt :: "string \<Rightarrow> nat" where
  "debt raw = (case strip_prefix ''-'' (trim raw) of
     Some magnitude \<Rightarrow> (case parse_amount_18dp magnitude of Inl _ \<Rightarrow> 0 | Inr v \<Rightarrow> unat v)
   | None \<Rightarrow> 0)"

text \<open>Of the entries of a leaf whose names trim to one asset, the last one counts.\<close>

definition last_credit :: "nat \<Rightarrow> string \<Rightarrow> (string \<times> string) list \<Rightarrow> nat" where
  "last_credit d a es = foldl (\<lambda>d (k, raw). if trim k = a then credit raw else d) d es"

definition leaf_debt :: "string \<Rightarrow> (string \<times> string) list \<Rightarrow> nat" where
  "leaf_debt a es = (\<Sum>(k, raw) \<leftarrow> es. if trim k = a then debt raw else 0)"

definition leaf_credit :: "string \<Rightarrow> (string \<times> string) list \<Rightarrow> nat" where
  "leaf_credit a es = (\<Sum>(k, raw) \<leftarrow> es. if trim k = a then credit raw else 0)"

lemma last_credit_simps [simp]:
  "last_credit d a [] = d"
  "last_credit d a ((k, raw) # es) = last_credit (if trim k = a then credit raw else d) a es"
  by (simp_all add: last_credit_def)

lemma leaf_debt_simps [simp]:
  "leaf_debt a [] = 0"
  "leaf_debt a ((k, raw) # es) = (if trim k = a then debt raw else 0) + leaf_debt a es"
  by (simp_all add: leaf_debt_def)

lemma read_balances_exact:
  assumes "read_balances user es bal bad n = Ok (bal', bad', n')"
  shows "amount_of bal' a = last_credit (amount_of bal a) a es"
    and "amount_of bad' a = amount_of bad a + leaf_debt a es"
    and "set (bkeys bal') = set (bkeys bal) \<union> (trim \<circ> fst) ` set es"
  using assms
proof (induction es arbitrary: bal bad n)
  case (Cons e es)
  obtain k raw where e: "e = (k, raw)" by (cases e)
  {
    case 1
    then show ?case
      by (auto simp: e Let_def credit_def amount_of_binsert split: option.splits dest!: Cons.IH(1))
  next
    case 2
    then show ?case
      by (auto simp: e Let_def debt_def amount_of_binsert checked_add_Some
          amount_of_def [of bad] split: option.splits dest!: Cons.IH(2))
  next
    case 3
    then have "set (bkeys bal') = insert (trim k) (set (bkeys bal)) \<union> (trim \<circ> fst) ` set es"
      by (auto simp: e Let_def bkeys_binsert split: option.splits dest!: Cons.IH(3)) force+
    then show ?case by (simp add: e)
  }
qed simp_all

lemma last_credit_distinct:
  assumes "distinct (map (trim \<circ> fst) es)"
  shows "last_credit 0 a es = leaf_credit a es"
proof -
  have keep: "last_credit d a es = d" if "a \<notin> (trim \<circ> fst) ` set es" for d and es :: "(string \<times> string) list"
    using that by (induction es) auto
  have none: "leaf_credit a es = 0" if "a \<notin> (trim \<circ> fst) ` set es" for es :: "(string \<times> string) list"
    using that by (induction es) (auto simp: leaf_credit_def)
  show ?thesis
    using assms
  proof (induction es)
    case (Cons e es)
    then show ?case using keep [of es] none [of es] by (cases e) (auto simp: leaf_credit_def)
  qed (simp add: leaf_credit_def)
qed

lemma last_credit_le: "last_credit d a es \<le> d + leaf_credit a es"
proof (induction es arbitrary: d)
  case (Cons e es)
  from Cons.IH [of "credit (snd e)"] Cons.IH [of d] show ?case by (cases e) (simp add: leaf_credit_def)
qed simp

text \<open>All the leaves: the customers are distinct after trimming, and each holds what its leaf reads to.\<close>

definition leaf_reads :: "nat \<times> LeafIn \<Rightarrow> string \<times> u128 bmap \<Rightarrow> bool" where
  "leaf_reads = (\<lambda>(_, leaf) (user, bal).
     user = trim (leaf_user leaf) \<and>
     (\<forall>a. amount_of bal a = last_credit 0 a (entries (leaf_amounts leaf))) \<and>
     set (bkeys bal) = trim ` set (bkeys (leaf_amounts leaf)))"

lemma read_leaves_exact:
  assumes "read_leaves ils users bad n = Ok (users', bad', n')"
  shows "\<exists>kvs. users' = fold (\<lambda>(k, v). binsert k v) kvs users \<and> distinct (map fst kvs) \<and>
      (\<forall>k \<in> fst ` set kvs. bget users k = None) \<and> list_all2 leaf_reads ils kvs"
    and "amount_of bad' a = amount_of bad a + (\<Sum>(i, l) \<leftarrow> ils. leaf_debt a (entries (leaf_amounts l)))"
  using assms
proof (induction ils arbitrary: users bad n)
  case (Cons il ils)
  obtain i l where il: "il = (i, l)" by (cases il)
  {
    case 1
    then obtain bal bad1 n1 where step: "bget users (trim (leaf_user l)) = None"
        "read_balances (trim (leaf_user l)) (entries (leaf_amounts l)) bempty bad n = Ok (bal, bad1, n1)"
        "read_leaves ils (binsert (trim (leaf_user l)) bal users) bad1 n1 = Ok (users', bad', n')"
      by (auto simp: il Let_def bcontains_def)
    from Cons.IH(1) [OF step(3)] obtain kvs where kvs:
        "users' = fold (\<lambda>(k, v). binsert k v) kvs (binsert (trim (leaf_user l)) bal users)"
        "distinct (map fst kvs)"
        "\<forall>k \<in> fst ` set kvs. bget (binsert (trim (leaf_user l)) bal users) k = None" "list_all2 leaf_reads ils kvs"
      by blast
    have "leaf_reads il (trim (leaf_user l), bal)"
      using read_balances_exact [OF step(2)] by (auto simp: leaf_reads_def il bkeys_def)
    with kvs step(1) have "list_all2 leaf_reads (il # ils) ((trim (leaf_user l), bal) # kvs) \<and>
        distinct (map fst ((trim (leaf_user l), bal) # kvs)) \<and>
        (\<forall>k \<in> fst ` set ((trim (leaf_user l), bal) # kvs). bget users k = None)"
      by (auto simp: bget_binsert split: if_splits)
    then show ?case using kvs(1) by (intro exI [of _ "(trim (leaf_user l), bal) # kvs"]) simp
  next
    case 2
    then show ?case
      using read_balances_exact(2) by (fastforce simp: il Let_def Cons.IH(2))
  }
qed simp_all

subsection \<open>What is published\<close>

lemma mset_entries_bof_list: "distinct (map fst kvs) \<Longrightarrow> mset (entries (bof_list kvs)) = mset kvs"
proof (rule set_eq_iff_mset_eq_distinct [THEN iffD1])
  assume d: "distinct (map fst kvs)"
  show "set (entries (bof_list kvs)) = set kvs"
    using bget_bof_list [OF d] d by (auto simp flip: bm.get_Some_iff)
  show "distinct (entries (bof_list kvs))"
    using bm.listing_distinct [of "bof_list kvs"] by (simp add: distinct_map)
  show "distinct kvs" using d by (simp add: distinct_map)
qed

definition declared_amount :: "string bmap \<Rightarrow> string \<Rightarrow> nat" where
  "declared_amount m a = (case bget m a of
     None \<Rightarrow> 0
   | Some raw \<Rightarrow> (case parse_amount_18dp raw of Inl _ \<Rightarrow> 0 | Inr v \<Rightarrow> unat v))"

lemma amounts_of_exact:
  assumes "amounts_of m what = Ok out"
  shows "amount_of out a = declared_amount m a"
proof -
  let ?f = "\<lambda>(k, v). and_then (map_err (AmountField what k v) (parse_amount_18dp v)) (\<lambda>a. Ok (k, a))"
  obtain kvs where kvs: "collect_ok ?f (entries m) = Ok kvs" "out = bof_list kvs"
    using assms by (auto simp: amounts_of_def)
  have rel: "list_all2 (\<lambda>(k, v) (k', w). k' = k \<and> parse_amount_18dp v = Ok w) (entries m) kvs"
    using kvs(1) unfolding collect_ok_Ok_iff by (rule list_all2_mono) auto
  have keys: "map fst kvs = map fst es" and
    vals: "map_of kvs a = Option.bind (map_of es a) (\<lambda>v. case parse_amount_18dp v of Inl _ \<Rightarrow> None | Inr w \<Rightarrow> Some w)"
    if "list_all2 (\<lambda>(k, v) (k', w). k' = k \<and> parse_amount_18dp v = Ok w) es kvs" for es kvs a
    using that by (induction rule: list_all2_induct) auto
  have "distinct (map fst kvs)"
    unfolding keys [OF rel] by (rule bm.listing_distinct)
  then have "bget out a = Option.bind (bget m a) (\<lambda>v. case parse_amount_18dp v of Inl _ \<Rightarrow> None | Inr w \<Rightarrow> Some w)"
    using vals [OF rel, of a] by (simp add: kvs(2) bget_bof_list bget_def [of m])
  then show ?thesis
    by (auto simp: amount_of_def get0_def declared_amount_def split: option.splits sum.splits)
qed

lemma publish_documents_Ok:
  assumes "publish_documents C E req signer slt = Ok d"
  obtains declared users bad meta pub where
    "pr_leaves req \<noteq> []" "pr_profile req = LIABILITIES_PROFILE"
    "amounts_of (din_bad_debt (pr_disclosures req)) ''disclosures.bad_debt'' = Ok declared"
    "read_leaves (List.enumerate 0 (pr_leaves req)) bempty declared 0 = Ok (users, bad, doc_clamped d)"
    "meta_profile meta = LIABILITIES_PROFILE" "meta_manifest meta = pr_manifest req"
    "bad_debt (meta_disclosures meta) = bad"
    "publish C (leaves_in C (arr32 slt) users) meta signer = Ok pub"
    "doc_report d = signed_report pub" "doc_proofs d = proofs pub"
    "doc_anchor d = anchor_report C (signed_report pub) (pr_previous_anchor req)"
    "build_pack C (publisher (report (signed_report pub))) (snapshot_time (report (signed_report pub)))
       (report_digest_hex C (report (signed_report pub)))
       (map (\<lambda>f. (file_name f, file_content f)) (member_files C E (signed_report pub) (doc_anchor d) (proofs pub)))
       signer = Ok (doc_pack d)"
proof -
  note steps = assms [unfolded publish_documents_def Let_def]
  show ?thesis
    using steps by (auto intro!: that)
qed

lemma service_report_totals:
  assumes "publish_documents C E req signer slt = Ok d"
  shows "amount_of (root_sums (report (doc_report d))) a =
      (\<Sum>l \<leftarrow> pr_leaves req. last_credit 0 a (entries (leaf_amounts l)))"
    and "amount_of (bad_debt (disclosures (report (doc_report d)))) a =
      declared_amount (din_bad_debt (pr_disclosures req)) a +
      (\<Sum>l \<leftarrow> pr_leaves req. leaf_debt a (entries (leaf_amounts l)))"
    and "set (bkeys (root_sums (report (doc_report d)))) =
      (\<Union>l \<in> set (pr_leaves req). trim ` set (bkeys (leaf_amounts l)))"
    and "map proof_user (doc_proofs d) = sort (map (trim \<circ> leaf_user) (pr_leaves req))"
proof -
  obtain declared users bad meta pub where
    decl: "amounts_of (din_bad_debt (pr_disclosures req)) ''disclosures.bad_debt'' = Ok declared"
    and read: "read_leaves (List.enumerate 0 (pr_leaves req)) bempty declared 0 = Ok (users, bad, doc_clamped d)"
    and bad: "bad_debt (meta_disclosures meta) = bad"
    and pub: "publish C (leaves_in C (arr32 slt) users) meta signer = Ok pub"
    and rep: "doc_report d = signed_report pub" and prfs: "doc_proofs d = proofs pub"
    by (rule publish_documents_Ok [OF assms]) (rule that; assumption)
  obtain kvs where users: "users = bof_list kvs" and dist: "distinct (map fst kvs)"
    and rel: "list_all2 leaf_reads (List.enumerate 0 (pr_leaves req)) kvs"
    using read_leaves_exact(1) [OF read] by (auto simp: bof_list_def)
  have rel': "list_all2 (\<lambda>l kv. leaf_reads (0, l) kv) (pr_leaves req) kvs"
    using rel by (auto simp: list_all2_conv_all_nth nth_enumerate_eq leaf_reads_def)
  note same = mset_entries_bof_list [OF dist]
  have sum_users: "(\<Sum>(k, v) \<leftarrow> entries users. g v) = (\<Sum>(k, v) \<leftarrow> kvs. g v)" for g :: "u128 bmap \<Rightarrow> nat"
    using arg_cong [OF same, of "\<lambda>M. sum_mset (image_mset (\<lambda>(k, v). g v) M)"]
    by (simp add: users sum_mset_sum_list flip: mset_map)
  have "(\<Sum>l \<leftarrow> leaves_in C (arr32 slt) users. amount_of (in_balances l) a) = (\<Sum>(k, v) \<leftarrow> kvs. amount_of v a)"
    unfolding sum_users [symmetric] leaves_in_def by (simp add: comp_def case_prod_beta')
  also have "\<dots> = (\<Sum>l \<leftarrow> pr_leaves req. last_credit 0 a (entries (leaf_amounts l)))"
    using rel' by (induction rule: list_all2_induct) (auto simp: leaf_reads_def)
  finally show "amount_of (root_sums (report (doc_report d))) a =
      (\<Sum>l \<leftarrow> pr_leaves req. last_credit 0 a (entries (leaf_amounts l)))"
    by (simp add: rep published_report(4) [OF pub])
  have "(\<Sum>(i, l) \<leftarrow> List.enumerate 0 (pr_leaves req). leaf_debt a (entries (leaf_amounts l))) =
      (\<Sum>l \<leftarrow> pr_leaves req. leaf_debt a (entries (leaf_amounts l)))"
  proof -
    have "map (\<lambda>(i, l). h l) (List.enumerate m xs) = map h xs" for h :: "LeafIn \<Rightarrow> nat" and m xs
      by (induction xs arbitrary: m) auto
    then show ?thesis by simp
  qed
  moreover have "disclosures (report (signed_report pub)) = meta_disclosures meta"
    using pub by (auto simp: publish_Ok_iff sign_report_def report_of_def)
  ultimately show "amount_of (bad_debt (disclosures (report (doc_report d)))) a =
      declared_amount (din_bad_debt (pr_disclosures req)) a +
      (\<Sum>l \<leftarrow> pr_leaves req. leaf_debt a (entries (leaf_amounts l)))"
    using read_leaves_exact(2) [OF read, of a] by (simp add: rep bad amounts_of_exact [OF decl])
  have "set (entries users) = set kvs" using same by (metis set_mset_mset users)
  then have "(\<Union>l \<in> set (leaves_in C (arr32 slt) users). set (bkeys (in_balances l))) =
      (\<Union>kv \<in> set kvs. set (bkeys (snd kv)))"
    by (force simp: leaves_in_def)
  also have "\<dots> = (\<Union>l \<in> set (pr_leaves req). trim ` set (bkeys (leaf_amounts l)))"
    using rel' by (induction rule: list_all2_induct) (auto simp: leaf_reads_def)
  finally show "set (bkeys (root_sums (report (doc_report d)))) =
      (\<Union>l \<in> set (pr_leaves req). trim ` set (bkeys (leaf_amounts l)))"
    by (simp add: rep published_report(3) [OF pub])
  have "map proof_user (proofs pub) = map in_user_id (leaves_in C (arr32 slt) users)"
    using pub by (auto simp: publish_Ok_iff proof_user_def input_document_def intro!: nth_equalityI)
  also have "\<dots> = map fst (entries users)" by (simp add: leaves_in_def comp_def split_beta)
  also have "\<dots> = sort (map (trim \<circ> leaf_user) (pr_leaves req))"
  proof (rule properties_for_sort [symmetric])
    have "map fst kvs = map (trim \<circ> leaf_user) (pr_leaves req)"
      using rel' by (induction rule: list_all2_induct) (auto simp: leaf_reads_def)
    then show "mset (map fst (entries users)) = mset (map (trim \<circ> leaf_user) (pr_leaves req))"
      using same by (metis mset_map users)
    show "sorted (map fst (entries users))" using entries_sorted strict_sorted_imp_sorted by blast
  qed
  finally show "map proof_user (doc_proofs d) = sort (map (trim \<circ> leaf_user) (pr_leaves req))"
    by (simp add: prfs)
qed

subsection \<open>Who is answered, and under which key\<close>

lemma require_token_iff:
  "app_token app \<noteq> [] \<Longrightarrow> require_token app header \<longleftrightarrow> header = Some (''Bearer '' @ app_token app)"
proof -
  assume "app_token app \<noteq> []"
  then have "require_token app header \<longleftrightarrow> Option.bind header (strip_prefix ''Bearer '') = Some (app_token app)"
    by (auto simp: require_token_def Let_def split: option.splits)
  then show ?thesis by (simp only: bind_eq_Some_conv strip_prefix_Some) blast
qed

lemma start_service_token:
  assumes "start_service C env S = Ok (app, S')"
  shows "env ''SERVICE_TOKEN'' = Some (app_token app)" "32 \<le> length (app_token app)"
  using assms by (auto simp: start_service_def Let_def)

text \<open>Every call that is answered was answered by the signer of its organisation.\<close>

lemma handle_signer:
  assumes "handle C J E A app header call d S = (ans, S')" "ans \<notin> {Unauthorized} \<union> range KeystoreFailed"
  obtains sg where "signer_for A (app_keystore app)
      \<lparr>req_org = call_org call, req_seed = draw_seed d, req_nonce = draw_nonce d\<rparr> S = (Ok sg, S')"
    "ans = answer C J E sg (draw_salt d) call" "require_token app header"
  using assms by (auto simp: handle_def split: if_splits prod.splits sum.splits)

lemma answer_key:
  "answer C J E sg slt call = AnswerKey k \<Longrightarrow> k = public_key_hex C sg"
  "answer C J E sg slt call = AnswerPublish resp \<Longrightarrow> rs_public_key resp = public_key_hex C sg"
  "answer C J E sg slt call = AnswerCustody cresp \<Longrightarrow> cs_public_key cresp = public_key_hex C sg"
  by (cases call; auto simp: do_publish_def response_of_def Let_def do_custody_def split: sum.splits)+

text \<open>A delivery is signed by its signer: the report, and the pack that names its digest.\<close>

definition signed_delivery :: "crates \<Rightarrow> encoders \<Rightarrow> string \<Rightarrow> PublishResponse \<Rightarrow> bool" where
  "signed_delivery C E k resp \<longleftrightarrow> (\<exists>sr sp.
     \<lparr>file_name = ''report.json'', file_content = pretty (en_report E) sr\<rparr> \<in> set (rs_files resp) \<and>
     \<lparr>file_name = ''pack.json'', file_content = pretty (en_pack E) sp\<rparr> \<in> set (rs_files resp) \<and>
     rs_report_digest resp = report_digest_hex C (report sr) \<and> pack_report_digest (pack sp) = rs_report_digest resp \<and>
     public_key (signature sr) = k \<and> public_key (pack_signature sp) = k \<and>
     verify_signature C k (report_digest C (report sr)) (sig_value (signature sr)) = Ok () \<and>
     verify_signature C k (pack_digest C (pack sp)) (sig_value (pack_signature sp)) = Ok ())"

lemma published_signed:
  assumes "hex_spec C" "ed25519_spec C" "do_publish C E req signer slt = Ok resp"
  shows "signed_delivery C E (public_key_hex C signer) resp"
proof -
  obtain d where d: "publish_documents C E req signer slt = Ok d" and resp: "resp = response_of C E signer d"
    using assms(3) by (auto simp: do_publish_def)
  obtain r where sr: "doc_report d = sign_report C signer r"
    by (rule publish_documents_Ok [OF d]) (auto simp: publish_Ok_iff intro: that)
  have sp: "pack_signature (doc_pack d) = \<lparr>algorithm = ''ed25519'', public_key = public_key_hex C signer,
      sig_value = sign_digest C signer (pack_digest C (pack (doc_pack d)))\<rparr>"
    "pack_report_digest (pack (doc_pack d)) = report_digest_hex C (report (doc_report d))"
    by (rule publish_documents_Ok [OF d], simp add: build_pack_Ok_iff built_pack_def)+
  show ?thesis
    unfolding signed_delivery_def
    by (intro exI [of _ "doc_report d"] exI [of _ "doc_pack d"])
      (use sp in \<open>simp add: resp response_of_def member_files_def Let_def sr sign_report_def
        own_signature_verifies [OF assms(1,2)]\<close>)
qed

lemma handle_keeps_key:
  assumes "aead_spec A" "handle C J E A app h1 call1 d1 S = (ans1, S1)" "ans1 \<notin> {Unauthorized} \<union> range KeystoreFailed"
    and "handle C J E A app h2 call2 d2 S1 = (ans2, S2)" "ans2 \<notin> {Unauthorized} \<union> range KeystoreFailed"
    and "call_org call2 = call_org call1"
  shows "\<exists>sg. ans1 = answer C J E sg (draw_salt d1) call1 \<and> ans2 = answer C J E sg (draw_salt d2) call2 \<and> S2 = S1"
proof -
  obtain sg where 1: "signer_for A (app_keystore app)
      \<lparr>req_org = call_org call1, req_seed = draw_seed d1, req_nonce = draw_nonce d1\<rparr> S = (Ok sg, S1)"
      "ans1 = answer C J E sg (draw_salt d1) call1"
    by (rule handle_signer [OF assms(2,3)])
  obtain sg2 where 2: "signer_for A (app_keystore app)
      \<lparr>req_org = call_org call2, req_seed = draw_seed d2, req_nonce = draw_nonce d2\<rparr> S1 = (Ok sg2, S2)"
      "ans2 = answer C J E sg2 (draw_salt d2) call2"
    by (rule handle_signer [OF assms(4,5)])
  have "holds_key A (app_keystore app) (call_org call2) sg S1"
    using signer_for_holds [OF assms(1) 1(1)] assms(6) by simp
  then have "signer_for A (app_keystore app)
      \<lparr>req_org = call_org call2, req_seed = draw_seed d2, req_nonce = draw_nonce d2\<rparr> S1 = (Ok sg, S1)"
    by (intro signer_for_held) simp
  with 2 1(2) show ?thesis by auto
qed

end
