(* ===== verification/Cli_Args.thy ===== *)
theory Cli_Args
  imports Prelude Ordered_Map Coverage_Check
begin

text \<open>
  The command line of \<open>canton-solvency-verify\<close>, \<open>solvency-cli/src/args.rs\<close>: the
  commands, the parser from arguments to a command and its usage errors. Every command that checks
  a signature is shown to carry keys of 32 bytes of hex; a run without arguments is an error.
\<close>

datatype ProofSource = ProofFile string | ProofDir string

datatype Command =
    CmdVerify string ProofSource string bool
  | CmdVerifyGroup string ProofSource string bool
  | CmdVerifyChain string string string string string string bool
  | CmdRecompute string string bool
  | CmdVerifyPack string string bool
  | CmdAnchors string bool
  | CmdCoverage string string string string string u64 bool
  | CmdAssurance string string "string option" "string option" "string option" "string option"
      "string bmap" string bool
  | CmdProvenance string string "string option" string bool
  | CmdManifestDiff string string bool
  | CmdDigest string
  | CmdHelp
  | CmdVersion

datatype usage_error =
    NoCommand
  | UnknownCommand string
  | NeedsValue string
  | UnknownFlag string
  | FlagRequired string
  | KeyRequired
  | KeyShape nat
  | AttestorShape string
  | AttestorRole string
  | SkewShape string
  | OneOfRequired string string
  | MutuallyExclusive string string

definition validate_key :: "string \<Rightarrow> usage_error + unit" where
  "validate_key key =
     ensure (length key = 64 \<and> list_all is_ascii_hexdigit key) (KeyShape (length key))"

definition parse_attestor :: "string \<Rightarrow> usage_error + string \<times> string" where
  "parse_attestor entry =
     and_then (ok_or (split_once CHR '':'' entry) (AttestorShape entry)) (\<lambda>(hex, role).
     and_then (validate_key hex) (\<lambda>_.
     and_then (ensure (\<not> (role \<noteq> ''issuer'' \<and> role \<noteq> ''third-party'')) (AttestorRole role)) (\<lambda>_.
       Ok (hex, role))))"

definition parse_attestors :: "string option \<Rightarrow> usage_error + string bmap" where
  "parse_attestors raw = (case raw of
     None \<Rightarrow> Ok bempty
   | Some raw \<Rightarrow> and_then (collect_ok parse_attestor (split_on CHR '','' raw)) (\<lambda>kvs. Ok (bof_list kvs)))"

definition COMMANDS :: "string list" where
  "COMMANDS =
     [''verify'', ''verify-group'', ''verify-chain'', ''coverage'', ''anchors'', ''manifest-diff'',
      ''recompute'', ''digest'', ''verify-pack'', ''assurance'', ''provenance'']"

definition VALUE_FLAGS :: "string list" where
  "VALUE_FLAGS =
     [''--report'', ''--proof'', ''--proof-dir'', ''--key'', ''--group-report'', ''--membership'',
      ''--membership-dir'', ''--group-key'', ''--previous'', ''--current'', ''--custody'',
      ''--liabilities'', ''--statement'', ''--custody-key'', ''--chain'', ''--leaves'', ''--pack-dir'',
      ''--assurance'', ''--anchor'', ''--attestations'', ''--attestor'', ''--provenance'', ''--max-skew'']"

text \<open>The loop over the flags. It returns \<open>None\<close> where the code returns the help command.\<close>

fun parse_flags :: "string list \<Rightarrow> string bmap \<Rightarrow> bool \<Rightarrow> usage_error + (string bmap \<times> bool) option" where
  "parse_flags [] flags json = Ok (Some (flags, json))"
| "parse_flags (flag # args) flags json =
     (if flag = ''--json'' then parse_flags args flags True
      else if flag = ''--help'' \<or> flag = ''-h'' then Ok None
      else if flag \<in> set VALUE_FLAGS then
        (case args of
           [] \<Rightarrow> Err (NeedsValue flag)
         | v # rest \<Rightarrow> parse_flags rest (binsert flag v flags) json)
      else Err (UnknownFlag flag))"

definition required_path :: "string bmap \<Rightarrow> string \<Rightarrow> usage_error + string" where
  "required_path flags name = ok_or (bget flags name) (FlagRequired name)"

definition key_flag :: "string bmap \<Rightarrow> usage_error + string" where
  "key_flag flags =
     and_then (ok_or (bget flags ''--key'') KeyRequired) (\<lambda>k.
     and_then (validate_key k) (\<lambda>_. Ok k))"

text \<open>\<open>--custody-key\<close> and \<open>--group-key\<close>, which default to the trusted key.\<close>

definition other_key :: "string bmap \<Rightarrow> string \<Rightarrow> string \<Rightarrow> usage_error + string" where
  "other_key flags name trusted = (case bget flags name of
     Some k \<Rightarrow> and_then (validate_key k) (\<lambda>_. Ok k)
   | None \<Rightarrow> Ok trusted)"

definition proof_source :: "string bmap \<Rightarrow> string \<Rightarrow> string \<Rightarrow> usage_error + ProofSource" where
  "proof_source flags file dir = (case (bget flags file, bget flags dir) of
     (Some p, None) \<Rightarrow> Ok (ProofFile p)
   | (None, Some d) \<Rightarrow> Ok (ProofDir d)
   | (None, None) \<Rightarrow> Err (OneOfRequired file dir)
   | (Some _, Some _) \<Rightarrow> Err (MutuallyExclusive file dir))"

definition max_skew_flag :: "string bmap \<Rightarrow> usage_error + u64" where
  "max_skew_flag flags = (case bget flags ''--max-skew'' of
     Some raw \<Rightarrow> ok_or (parse_unsigned raw) (SkewShape raw)
   | None \<Rightarrow> Ok SAME_RUN)"

text \<open>The final match on the subcommand.\<close>

definition build_command :: "string \<Rightarrow> string bmap \<Rightarrow> bool \<Rightarrow> usage_error + Command" where
  "build_command first flags json =
     (let path = bget flags; req = required_path flags; key = key_flag flags in
      if first = ''digest'' then and_then (req ''--report'') (\<lambda>r. Ok (CmdDigest r))
      else if first = ''coverage'' then
        and_then key (\<lambda>trusted.
        and_then (other_key flags ''--custody-key'' trusted) (\<lambda>ck.
        and_then (req ''--custody'') (\<lambda>c.
        and_then (req ''--liabilities'') (\<lambda>l.
        and_then (req ''--statement'') (\<lambda>s.
        and_then (max_skew_flag flags) (\<lambda>skew.
          Ok (CmdCoverage c l s trusted ck skew json)))))))
      else if first = ''assurance'' then
        and_then (req ''--report'') (\<lambda>r.
        and_then (req ''--assurance'') (\<lambda>a.
        and_then (parse_attestors (bget flags ''--attestor'')) (\<lambda>attestors.
        and_then key (\<lambda>trusted.
          Ok (CmdAssurance r a (path ''--proof'') (path ''--anchor'') (path ''--attestations'')
                (path ''--provenance'') attestors trusted json)))))
      else if first = ''provenance'' then
        and_then (req ''--report'') (\<lambda>r.
        and_then (req ''--provenance'') (\<lambda>p.
        and_then key (\<lambda>trusted.
          Ok (CmdProvenance r p (path ''--assurance'') trusted json))))
      else if first = ''recompute'' then
        and_then (req ''--leaves'') (\<lambda>l. and_then (req ''--report'') (\<lambda>r. Ok (CmdRecompute l r json)))
      else if first = ''verify-pack'' then
        and_then (req ''--pack-dir'') (\<lambda>d. and_then key (\<lambda>trusted. Ok (CmdVerifyPack d trusted json)))
      else if first = ''anchors'' then and_then (req ''--chain'') (\<lambda>c. Ok (CmdAnchors c json))
      else if first = ''manifest-diff'' then
        and_then (req ''--previous'') (\<lambda>p. and_then (req ''--current'') (\<lambda>c. Ok (CmdManifestDiff p c json)))
      else if first = ''verify'' then
        and_then (req ''--report'') (\<lambda>r.
        and_then (proof_source flags ''--proof'' ''--proof-dir'') (\<lambda>src.
        and_then key (\<lambda>trusted. Ok (CmdVerify r src trusted json))))
      else if first = ''verify-group'' then
        and_then (req ''--report'') (\<lambda>r.
        and_then (proof_source flags ''--membership'' ''--membership-dir'') (\<lambda>src.
        and_then key (\<lambda>trusted. Ok (CmdVerifyGroup r src trusted json))))
      else
        and_then key (\<lambda>trusted.
        and_then (other_key flags ''--group-key'' trusted) (\<lambda>gk.
        and_then (req ''--group-report'') (\<lambda>g.
        and_then (req ''--membership'') (\<lambda>m.
        and_then (req ''--report'') (\<lambda>r.
        and_then (req ''--proof'') (\<lambda>p.
          Ok (CmdVerifyChain g m r p trusted gk json))))))))"

definition parse_args :: "string list \<Rightarrow> usage_error + Command" where
  "parse_args argv = (case argv of
     [] \<Rightarrow> Err NoCommand
   | first # args \<Rightarrow>
       if first \<in> {''--help'', ''-h'', ''help''} then Ok CmdHelp
       else if first \<in> {''--version'', ''-V''} then Ok CmdVersion
       else if first \<notin> set COMMANDS then Err (UnknownCommand first)
       else and_then (parse_flags args bempty False) (\<lambda>r. case r of
              None \<Rightarrow> Ok CmdHelp
            | Some (flags, json) \<Rightarrow> build_command first flags json))"

subsection \<open>Keys\<close>

definition key_hex :: "string \<Rightarrow> bool" where
  "key_hex k \<longleftrightarrow> length k = 64 \<and> list_all is_ascii_hexdigit k"

text \<open>The keys a command trusts.\<close>

fun command_keys :: "Command \<Rightarrow> string set" where
  "command_keys (CmdVerify _ _ k _) = {k}"
| "command_keys (CmdVerifyGroup _ _ k _) = {k}"
| "command_keys (CmdVerifyChain _ _ _ _ k g _) = {k, g}"
| "command_keys (CmdVerifyPack _ k _) = {k}"
| "command_keys (CmdCoverage _ _ _ k c _ _) = {k, c}"
| "command_keys (CmdAssurance _ _ _ _ _ _ attestors k _) = insert k (set (bkeys attestors))"
| "command_keys (CmdProvenance _ _ _ k _) = {k}"
| "command_keys _ = {}"

lemma validate_key_Ok_iff [simp]: "validate_key k = Ok u \<longleftrightarrow> key_hex k"
  by (simp add: validate_key_def key_hex_def)

lemma key_flag_Ok: "key_flag flags = Ok k \<Longrightarrow> key_hex k"
  by (auto simp: key_flag_def)

lemma other_key_Ok: "other_key flags name trusted = Ok k \<Longrightarrow> key_hex trusted \<Longrightarrow> key_hex k"
  by (auto simp: other_key_def split: option.splits)

lemma parse_attestors_Ok: "parse_attestors raw = Ok m \<Longrightarrow> \<forall>k \<in> set (bkeys m). key_hex k"
proof (cases raw)
  case None
  then show "parse_attestors raw = Ok m \<Longrightarrow> ?thesis" by (simp add: parse_attestors_def bkeys_def)
next
  case (Some r)
  assume "parse_attestors raw = Ok m"
  then obtain kvs where kvs: "collect_ok parse_attestor (split_on CHR '','' r) = Ok kvs" "m = bof_list kvs"
    by (auto simp: parse_attestors_def Some)
  then have "list_all2 (\<lambda>x y. parse_attestor x = Ok y) (split_on CHR '','' r) kvs"
    by (simp add: collect_ok_Ok_iff)
  then have "\<forall>(k, v) \<in> set kvs. key_hex k"
    by (induction rule: list_all2_induct) (auto simp: parse_attestor_def)
  then show ?thesis by (auto simp: kvs(2) bkeys_bof_list)
qed

lemma build_command_keys:
  assumes "build_command first flags json = Ok cmd"
  shows "\<forall>k \<in> command_keys cmd. key_hex k"
  using assms unfolding build_command_def Let_def
  by (auto split: if_splits) (blast intro: key_flag_Ok other_key_Ok parse_attestors_Ok [rule_format])+

lemma parse_args_keys:
  assumes "parse_args argv = Ok cmd"
  shows "\<forall>k \<in> command_keys cmd. key_hex k"
  using assms build_command_keys unfolding parse_args_def
  by (auto split: list.splits if_splits option.splits)

text \<open>Nothing to do is never success.\<close>

lemma parse_args_needs_command: "parse_args argv = Ok cmd \<Longrightarrow> argv \<noteq> []"
  by (auto simp: parse_args_def)

end
