(* ===== verification/Cli_Run.thy ===== *)
theory Cli_Run
  imports Compat Cli_Args
begin

text \<open>
  The verbs of \<open>canton-solvency-verify\<close> that check proofs: \<open>solvency-cli/src/run.rs\<close>
  (digest, proofs, memberships, chains) and \<open>pack.rs\<close> (a whole delivery). The file system is
  an argument, the record \<open>filesystem\<close>; the decoders of documents are those of
  \<open>Compat\<close>. A failure an outcome carries is the failure the code renders to text.
\<close>

subsection \<open>Files\<close>

record filesystem =
  is_file :: "string \<Rightarrow> bool"
  is_dir :: "string \<Rightarrow> bool"
  read_file :: "string \<Rightarrow> bytes option"
  read_dir :: "string \<Rightarrow> string list option"

datatype run_error =
    Reading string
  | Parsing string string
  | ReadingDirectory string
  | NothingToCheck string
  | EmptyDump
  | SaltShape string
  | DumpAmount merkle_error
  | RebuildFailed publish_error
  | EmptyHistory
  | HandledElsewhere

text \<open>\<open>path.extension() == Some("json")\<close>: a name that starts with its only dot has none.\<close>

definition json_name :: "string \<Rightarrow> bool" where
  "json_name name \<longleftrightarrow> ends_with ''.json'' name \<and> 5 < length name"

definition read_text :: "filesystem \<Rightarrow> string \<Rightarrow> run_error + bytes" where
  "read_text F path =
     and_then (ok_or (read_file F path) (Reading path)) (\<lambda>text.
     and_then (ensure (valid_utf8 text) (Reading path)) (\<lambda>_. Ok text))"

definition load_doc :: "filesystem \<Rightarrow> (bytes \<Rightarrow> string + 'a) \<Rightarrow> string \<Rightarrow> run_error + 'a" where
  "load_doc F parse path = and_then (read_text F path) (\<lambda>text. map_err (Parsing path) (parse text))"

subsection \<open>Outcomes\<close>

record ProofOutcome =
  out_path :: string
  subject :: string
  out_failure :: "verification_failure option"

record Summary =
  sum_report_digest :: string
  sum_statement :: "string option"
  outcomes :: "ProofOutcome list"

definition passed :: "Summary \<Rightarrow> nat" where
  "passed s = length (filter (\<lambda>x. out_failure x = None) (outcomes s))"

definition all_passed :: "Summary \<Rightarrow> bool" where
  "all_passed s \<longleftrightarrow> list_all (\<lambda>x. out_failure x = None) (outcomes s)"

text \<open>\<open>.err()\<close>\<close>

definition err :: "'e + 'a \<Rightarrow> 'e option" where
  "err r = (case r of Inl e \<Rightarrow> Some e | Inr _ \<Rightarrow> None)"

lemma err_None_iff [simp]: "err r = None \<longleftrightarrow> is_ok r"
  by (cases r) (simp_all add: err_def)

datatype AnyProof = V1 ProofDocument | V2 ProofDocumentV2

definition any_subject :: "AnyProof \<Rightarrow> string" where
  "any_subject p = (case p of V1 p \<Rightarrow> user_id (proof_leaf p) | V2 p \<Rightarrow> subject_id (v2_leaf p))"

definition any_verify :: "crates \<Rightarrow> AnyProof \<Rightarrow> SignedReport \<Rightarrow> string \<Rightarrow> verification_failure option" where
  "any_verify C p sr key = (case p of
     V1 p \<Rightarrow> err (verify C sr p key)
   | V2 p \<Rightarrow> err (verify_v2 C sr p key))"

definition parse_proof :: "decoders \<Rightarrow> bytes \<Rightarrow> string + AnyProof" where
  "parse_proof D text =
     and_then (de_version D text) (\<lambda>v.
       if v = PROOF_FORMAT_VERSION_V2 then and_then (de_proof_v2 D text) (\<lambda>p. Ok (V2 p))
       else and_then (de_proof D text) (\<lambda>p. Ok (V1 p)))"

definition proof_paths :: "filesystem \<Rightarrow> string \<Rightarrow> run_error + string list" where
  "proof_paths F dir =
     and_then (ok_or (read_dir F dir) (ReadingDirectory dir)) (\<lambda>names.
     (let paths = sort (map (join_path dir) (filter json_name names)) in
      and_then (ensure (paths \<noteq> []) (NothingToCheck dir)) (\<lambda>_. Ok paths)))"

definition is_sibling_document :: "decoders \<Rightarrow> bytes \<Rightarrow> bool" where
  "is_sibling_document D text \<longleftrightarrow>
     is_ok (de_pack D text) \<or> is_ok (de_report D text) \<or> is_ok (de_anchor D text) \<or> is_ok (de_membership D text)"

definition statement_of :: "SignedReport \<Rightarrow> string option" where
  "statement_of sr = map_option (\<lambda>rules. rules_name rules @ '': '' @ statement rules) (lookup_profile (profile (report sr)))"

definition source_paths :: "filesystem \<Rightarrow> ProofSource \<Rightarrow> run_error + string list" where
  "source_paths F src = (case src of ProofFile p \<Rightarrow> Ok [p] | ProofDir d \<Rightarrow> proof_paths F d)"

definition sweeping :: "ProofSource \<Rightarrow> bool" where
  "sweeping src = (case src of ProofFile _ \<Rightarrow> False | ProofDir _ \<Rightarrow> True)"

subsection \<open>The loops over the files\<close>

fun check_proofs ::
  "crates \<Rightarrow> decoders \<Rightarrow> filesystem \<Rightarrow> SignedReport \<Rightarrow> string \<Rightarrow> bool \<Rightarrow> string list \<Rightarrow> run_error + ProofOutcome list" where
  "check_proofs C D F sr key sweep [] = Ok []"
| "check_proofs C D F sr key sweep (path # rest) =
     and_then (read_text F path) (\<lambda>text.
       case parse_proof D text of
         Inl e \<Rightarrow>
           if sweep \<and> is_sibling_document D text then check_proofs C D F sr key sweep rest
           else Err (Parsing path e)
       | Inr p \<Rightarrow>
           and_then (check_proofs C D F sr key sweep rest) (\<lambda>os.
             Ok (\<lparr>out_path = path, subject = any_subject p, out_failure = any_verify C p sr key\<rparr> # os)))"

fun check_memberships ::
  "crates \<Rightarrow> decoders \<Rightarrow> filesystem \<Rightarrow> SignedReport \<Rightarrow> string \<Rightarrow> bool \<Rightarrow> string list \<Rightarrow> run_error + ProofOutcome list" where
  "check_memberships C D F sr key sweep [] = Ok []"
| "check_memberships C D F sr key sweep (path # rest) =
     and_then (read_text F path) (\<lambda>text.
       case de_membership D text of
         Inl e \<Rightarrow>
           if sweep \<and> is_ok (de_report D text) then check_memberships C D F sr key sweep rest
           else Err (Parsing path e)
       | Inr m \<Rightarrow>
           and_then (check_memberships C D F sr key sweep rest) (\<lambda>os.
             Ok (\<lparr>out_path = path, subject = entity_id (member_entity m),
                  out_failure = err (verify_membership C sr m key)\<rparr> # os)))"

definition summary_of :: "crates \<Rightarrow> SignedReport \<Rightarrow> ProofOutcome list \<Rightarrow> Summary" where
  "summary_of C sr os =
     \<lparr>sum_report_digest = report_digest_hex C (report sr), sum_statement = statement_of sr, outcomes = os\<rparr>"

definition run_verify ::
  "crates \<Rightarrow> decoders \<Rightarrow> filesystem \<Rightarrow> string \<Rightarrow> ProofSource \<Rightarrow> string \<Rightarrow> run_error + Summary" where
  "run_verify C D F rep src key =
     and_then (load_doc F (de_report D) rep) (\<lambda>sr.
     and_then (source_paths F src) (\<lambda>paths.
     and_then (check_proofs C D F sr key (sweeping src) paths) (\<lambda>os.
       Ok (summary_of C sr os))))"

definition run_verify_group ::
  "crates \<Rightarrow> decoders \<Rightarrow> filesystem \<Rightarrow> string \<Rightarrow> ProofSource \<Rightarrow> string \<Rightarrow> run_error + Summary" where
  "run_verify_group C D F rep src key =
     and_then (load_doc F (de_report D) rep) (\<lambda>sr.
     and_then (source_paths F src) (\<lambda>paths.
     and_then (check_memberships C D F sr key (sweeping src) paths) (\<lambda>os.
       Ok (summary_of C sr os))))"

definition run_verify_chain ::
  "crates \<Rightarrow> decoders \<Rightarrow> filesystem \<Rightarrow> string \<Rightarrow> string \<Rightarrow> string \<Rightarrow> string \<Rightarrow> string \<Rightarrow> string \<Rightarrow>
     run_error + Summary" where
  "run_verify_chain C D F group_rep mem rep prf key group_key =
     and_then (load_doc F (de_report D) group_rep) (\<lambda>gsr.
     and_then (load_doc F (de_membership D) mem) (\<lambda>m.
     and_then (load_doc F (de_report D) rep) (\<lambda>esr.
     and_then (load_doc F (de_proof D) prf) (\<lambda>p.
       Ok (summary_of C gsr
             [\<lparr>out_path = prf,
               subject = user_id (proof_leaf p) @ '' in '' @ entity_id (member_entity m),
               out_failure = err (verify_chain C gsr m esr p group_key key)\<rparr>])))))"

definition run :: "crates \<Rightarrow> decoders \<Rightarrow> filesystem \<Rightarrow> Command \<Rightarrow> run_error + Summary" where
  "run C D F cmd = (case cmd of
     CmdDigest rep \<Rightarrow> and_then (load_doc F (de_report D) rep) (\<lambda>sr. Ok (summary_of C sr []))
   | CmdVerify rep src key _ \<Rightarrow> run_verify C D F rep src key
   | CmdVerifyGroup rep src key _ \<Rightarrow> run_verify_group C D F rep src key
   | CmdVerifyChain g m r p key gkey _ \<Rightarrow> run_verify_chain C D F g m r p key gkey
   | CmdHelp \<Rightarrow> Ok \<lparr>sum_report_digest = [], sum_statement = None, outcomes = []\<rparr>
   | CmdVersion \<Rightarrow> Ok \<lparr>sum_report_digest = [], sum_statement = None, outcomes = []\<rparr>
   | _ \<Rightarrow> Err HandledElsewhere)"

subsection \<open>A whole delivery\<close>

definition PACK_FILE :: string where "PACK_FILE = ''pack.json''"

record PackSummary =
  ps_publisher :: string
  ps_snapshot_time :: string
  ps_report_digest :: string
  ps_members :: nat
  index_failure :: "pack_failure option"
  contents :: "Summary option"

definition pack_all_passed :: "PackSummary \<Rightarrow> bool" where
  "pack_all_passed s \<longleftrightarrow>
     index_failure s = None \<and> (case contents s of None \<Rightarrow> False | Some c \<Rightarrow> all_passed c)"

definition delivered :: "filesystem \<Rightarrow> string \<Rightarrow> run_error + bytes bmap" where
  "delivered F dir =
     and_then (ok_or (read_dir F dir) (ReadingDirectory dir)) (\<lambda>names.
     and_then (collect_ok (\<lambda>name.
         and_then (ok_or (read_file F (join_path dir name)) (Reading (join_path dir name))) (\<lambda>bs. Ok (name, bs)))
       (filter (\<lambda>name. is_file F (join_path dir name) \<and> valid_utf8 name \<and> name \<noteq> PACK_FILE) names)) (\<lambda>kvs.
       Ok (bof_list kvs)))"

definition run_pack :: "crates \<Rightarrow> decoders \<Rightarrow> filesystem \<Rightarrow> string \<Rightarrow> string \<Rightarrow> run_error + PackSummary" where
  "run_pack C D F dir key =
     and_then (load_doc F (de_pack D) (join_path dir PACK_FILE)) (\<lambda>signed.
     and_then (delivered F dir) (\<lambda>members.
     (let failure = err (verify_pack C signed key members) in
      and_then (if failure = None
                then and_then (run C D F (CmdVerify (join_path dir ''report.json'') (ProofDir dir) key False))
                       (\<lambda>s. Ok (Some s))
                else Ok None) (\<lambda>checked.
        Ok \<lparr>ps_publisher = pack_publisher (pack signed),
            ps_snapshot_time = pack_snapshot_time (pack signed),
            ps_report_digest = pack_report_digest (pack signed),
            ps_members = length (pack_entries (pack signed)),
            index_failure = failure,
            contents = checked\<rparr>))))"

subsection \<open>When a run passes\<close>

text \<open>What a file holds, to a sweep.\<close>

definition proof_at :: "decoders \<Rightarrow> filesystem \<Rightarrow> string \<Rightarrow> AnyProof \<Rightarrow> bool" where
  "proof_at D F path p \<longleftrightarrow> (\<exists>text. read_text F path = Ok text \<and> parse_proof D text = Ok p)"

definition sibling_at :: "decoders \<Rightarrow> filesystem \<Rightarrow> string \<Rightarrow> bool" where
  "sibling_at D F path \<longleftrightarrow>
     (\<exists>text e. read_text F path = Ok text \<and> parse_proof D text = Err e \<and> is_sibling_document D text)"

definition no_failures :: "ProofOutcome list \<Rightarrow> bool" where
  "no_failures os \<longleftrightarrow> (\<forall>x \<in> set os. out_failure x = None)"

lemma no_failures_simps [simp]:
  "no_failures []" "no_failures (x # os) \<longleftrightarrow> out_failure x = None \<and> no_failures os"
  by (simp_all add: no_failures_def)

lemma all_passed_iff: "all_passed (summary_of C sr os) \<longleftrightarrow> no_failures os"
  by (simp add: all_passed_def summary_of_def no_failures_def list_all_iff)

lemma check_proofs_passes_iff:
  "(\<exists>os. check_proofs C D F sr key sweep paths = Ok os \<and> no_failures os) \<longleftrightarrow>
     (\<forall>path \<in> set paths. sweep \<and> sibling_at D F path \<or> (\<exists>p. proof_at D F path p \<and> any_verify C p sr key = None))"
proof (induction paths)
  case (Cons path rest)
  show ?case
  proof (cases "read_text F path")
    case (Inl e)
    then show ?thesis by (simp add: proof_at_def sibling_at_def)
  next
    case got: (Inr content)
    show ?thesis
    proof (cases "parse_proof D content")
      case (Inl e)
      have "sibling_at D F path \<longleftrightarrow> is_sibling_document D content" "\<not> proof_at D F path p" for p
        by (simp_all add: proof_at_def sibling_at_def got Inl)
      with Cons show ?thesis by (cases sweep) (auto simp: got Inl)
    next
      case (Inr p)
      have "\<not> sibling_at D F path" "proof_at D F path q \<longleftrightarrow> q = p" for q
        by (auto simp: proof_at_def sibling_at_def got Inr)
      with Cons show ?thesis by (auto simp: got Inr)
    qed
  qed
qed simp

lemma check_proofs_skips:
  assumes "\<forall>path \<in> set paths. sibling_at D F path"
  shows "check_proofs C D F sr key True paths = Ok []"
  using assms by (induction paths) (auto simp: sibling_at_def)

lemma run_verify_passes_iff:
  "(\<exists>s. run_verify C D F rep src key = Ok s \<and> all_passed s) \<longleftrightarrow>
     (\<exists>sr paths. load_doc F (de_report D) rep = Ok sr \<and> source_paths F src = Ok paths \<and>
        (\<forall>path \<in> set paths. sweeping src \<and> sibling_at D F path \<or>
           (\<exists>p. proof_at D F path p \<and> any_verify C p sr key = None)))"
proof -
  have "(\<exists>s. run_verify C D F rep src key = Ok s \<and> all_passed s) \<longleftrightarrow>
      (\<exists>sr paths. load_doc F (de_report D) rep = Ok sr \<and> source_paths F src = Ok paths \<and>
        (\<exists>os. check_proofs C D F sr key (sweeping src) paths = Ok os \<and> no_failures os))"
    unfolding run_verify_def by (auto simp: all_passed_iff)
  then show ?thesis by (simp only: check_proofs_passes_iff)
qed

lemma any_verify_None:
  "any_verify C p sr key = None \<longleftrightarrow>
     (case p of V1 p \<Rightarrow> verify C sr p key = Ok () | V2 p \<Rightarrow> verify_v2 C sr p key = Ok ())"
  by (cases p) (auto simp: any_verify_def is_ok_iff)

text \<open>Only a single file is always checked.\<close>

lemma run_verify_file:
  "(\<exists>s. run_verify C D F rep (ProofFile path) key = Ok s \<and> all_passed s) \<longleftrightarrow>
     (\<exists>sr p. load_doc F (de_report D) rep = Ok sr \<and> proof_at D F path p \<and> any_verify C p sr key = None)"
  unfolding run_verify_passes_iff by (auto simp: source_paths_def sweeping_def)

subsection \<open>When a delivery passes\<close>

lemma run_pack_passes_iff:
  "(\<exists>s. run_pack C D F dir key = Ok s \<and> pack_all_passed s) \<longleftrightarrow>
     (\<exists>sp members. load_doc F (de_pack D) (join_path dir PACK_FILE) = Ok sp \<and> delivered F dir = Ok members \<and>
        verify_pack C sp key members = Ok () \<and>
        (\<exists>s. run_verify C D F (join_path dir ''report.json'') (ProofDir dir) key = Ok s \<and> all_passed s))"
    (is "?run \<longleftrightarrow> ?parts")
proof
  assume ?run
  then obtain s where s: "run_pack C D F dir key = Ok s" "pack_all_passed s" by blast
  then obtain sp members where parts: "load_doc F (de_pack D) (join_path dir PACK_FILE) = Ok sp"
      "delivered F dir = Ok members"
    by (auto simp: run_pack_def)
  show ?parts
  proof (cases "verify_pack C sp key members")
    case (Inl e)
    with s parts show ?thesis by (auto simp: run_pack_def pack_all_passed_def err_def)
  next
    case (Inr u)
    with s parts show ?thesis by (auto simp: run_pack_def pack_all_passed_def err_def run_def)
  qed
next
  assume ?parts
  then show ?run by (auto simp: run_pack_def pack_all_passed_def err_def run_def)
qed

end
