(* ===== verification/Delivery.thy ===== *)
theory Delivery
  imports Service Cli_Run
begin

text \<open>
  A delivery on disk: the files a producer writes, read by the command line. Both producers, the
  service and the publisher, write the same files and differ in how they name the proofs, so
  the naming is an argument here.
\<close>

text \<open>A directory holds exactly the given files.\<close>

definition holds_delivery :: "filesystem \<Rightarrow> string \<Rightarrow> FileOut list \<Rightarrow> bool" where
  "holds_delivery F dir fs \<longleftrightarrow>
     (\<exists>names. read_dir F dir = Some names \<and> distinct names \<and> set names = file_name ` set fs) \<and>
     (\<forall>f \<in> set fs. is_file F (join_path dir (file_name f)) \<and>
        read_file F (join_path dir (file_name f)) = Some (file_content f))"

definition publishable :: "Report \<Rightarrow> bool" where
  "publishable r \<longleftrightarrow> well_formed_report r \<and> \<not> bis_empty (root_sums r)"

text \<open>The files of a delivery but for the pack, with the proofs named by \<open>nm\<close>.\<close>

definition named_files :: "(string \<Rightarrow> string) \<Rightarrow> encoders \<Rightarrow> SignedReport \<Rightarrow> Anchor \<Rightarrow> ProofDocument list \<Rightarrow> FileOut list" where
  "named_files nm E sr a ps =
     \<lparr>file_name = ''report.json'', file_content = pretty (en_report E) sr\<rparr> #
     \<lparr>file_name = ''anchor.json'', file_content = pretty (en_anchor E) a\<rparr> #
     map (\<lambda>p. \<lparr>file_name = nm (proof_user p), file_content = pretty (en_proof E) p\<rparr>) ps"

lemma member_files_named: "member_files C E sr a ps = named_files (proof_file_name C) E sr a ps"
  by (simp add: member_files_def named_files_def)

lemma named_file_cases:
  assumes "f \<in> set (named_files nm E sr a ps)"
  obtains "f = \<lparr>file_name = ''report.json'', file_content = pretty (en_report E) sr\<rparr>"
  | "f = \<lparr>file_name = ''anchor.json'', file_content = pretty (en_anchor E) a\<rparr>"
  | p where "p \<in> set ps" "f = \<lparr>file_name = nm (proof_user p), file_content = pretty (en_proof E) p\<rparr>"
  using assms by (auto simp: named_files_def)

text \<open>A name that the sweep and the pack check take for a member.\<close>

definition name_ok :: "string \<Rightarrow> bool" where
  "name_ok n \<longleftrightarrow> valid_utf8 n \<and> json_name n \<and> n \<noteq> PACK_FILE"

lemma named_files_ok:
  assumes "\<forall>p \<in> set ps. name_ok (nm (proof_user p))"
  shows "\<forall>f \<in> set (named_files nm E sr a ps). name_ok (file_name f)"
proof -
  have "valid_utf8 ''report.json''" "valid_utf8 ''anchor.json''"
    by (rule valid_utf8_ascii; simp)+
  then have "name_ok ''report.json''" "name_ok ''anchor.json''"
    by (simp_all add: name_ok_def json_name_def ends_with_def PACK_FILE_def)
  with assms show ?thesis by (auto elim!: named_file_cases)
qed

text \<open>The decoders read the delivered documents back and take none for a proof that is none.\<close>

definition reads_documents :: "decoders \<Rightarrow> encoders \<Rightarrow> SignedReport \<Rightarrow> Anchor \<Rightarrow> ProofDocument list \<Rightarrow> SignedPack \<Rightarrow> bool" where
  "reads_documents D E sr a ps sp \<longleftrightarrow>
     (let rt = pretty (en_report E) sr; at = pretty (en_anchor E) a; pt = pretty (en_pack E) sp in
      de_report D rt = Ok sr \<and> is_ok (de_anchor D at) \<and> de_pack D pt = Ok sp \<and>
      (\<forall>t \<in> {rt, at, pt}. valid_utf8 t \<and> \<not> is_ok (parse_proof D t)) \<and>
      (\<forall>p \<in> set ps. valid_utf8 (pretty (en_proof E) p) \<and> parse_proof D (pretty (en_proof E) p) = Ok (V1 p)))"

lemma delivered_members:
  assumes "\<forall>f \<in> set ms. name_ok (file_name f)" "distinct (map file_name ms)"
    and "holds_delivery F dir (ms @ [\<lparr>file_name = PACK_FILE, file_content = pk\<rparr>])"
  shows "delivered F dir = Ok (bof_list (map (\<lambda>f. (file_name f, file_content f)) ms))"
proof -
  obtain names where names: "read_dir F dir = Some names" "distinct names"
      "set names = insert PACK_FILE (file_name ` set ms)"
    using assms(3) by (auto simp: holds_delivery_def)
  have files: "is_file F (join_path dir (file_name f))"
      "read_file F (join_path dir (file_name f)) = Some (file_content f)" if "f \<in> set ms" for f
    using assms(3) that by (auto simp: holds_delivery_def)
  have member: "valid_utf8 (file_name f)" "file_name f \<noteq> PACK_FILE" if "f \<in> set ms" for f
    using assms(1) that by (simp_all add: name_ok_def)
  define kept where "kept = filter (\<lambda>name. is_file F (join_path dir name) \<and> valid_utf8 name \<and> name \<noteq> PACK_FILE) names"
  have kept: "distinct kept" "set kept = file_name ` set ms"
    using names member files by (auto simp: kept_def)
  let ?read = "\<lambda>n. the (read_file F (join_path dir n))"
  have "collect_ok (\<lambda>name. and_then (ok_or (read_file F (join_path dir name)) (Reading (join_path dir name)))
      (\<lambda>bs. Ok (name, bs))) kept = Ok (map (\<lambda>n. (n, ?read n)) kept)"
    unfolding collect_ok_Ok_iff list_all2_map2 using kept(2) files by (auto intro!: list.rel_refl_strong)
  moreover have "bof_list (map (\<lambda>n. (n, ?read n)) kept) = bof_list (map (\<lambda>f. (file_name f, file_content f)) ms)"
    unfolding bof_list_def
  proof (rule bm.fold_insert_order)
    show "distinct (map fst (map (\<lambda>n. (n, ?read n)) kept))" using kept(1) by (simp add: comp_def)
    show "distinct (map fst (map (\<lambda>f. (file_name f, file_content f)) ms))" using assms(2) by (simp add: comp_def)
    show "set (map (\<lambda>n. (n, ?read n)) kept) = set (map (\<lambda>f. (file_name f, file_content f)) ms)"
      using kept(2) files by force
  qed
  ultimately show ?thesis by (simp add: delivered_def names(1) kept_def)
qed

lemma delivered_text:
  "holds_delivery F dir fs \<Longrightarrow> f \<in> set fs \<Longrightarrow> valid_utf8 (file_content f) \<Longrightarrow>
     read_text F (join_path dir (file_name f)) = Ok (file_content f)"
  by (auto simp: holds_delivery_def read_text_def)

text \<open>What a sweep makes of each of the delivered files.\<close>

definition file_passes :: "crates \<Rightarrow> decoders \<Rightarrow> filesystem \<Rightarrow> SignedReport \<Rightarrow> string \<Rightarrow> string \<Rightarrow> bool" where
  "file_passes C D F sr key path \<longleftrightarrow>
     sibling_at D F path \<or> (\<exists>p. proof_at D F path p \<and> any_verify C p sr key = None)"

lemma sibling_passes:
  "read_text F path = Ok t \<Longrightarrow> \<not> is_ok (parse_proof D t) \<Longrightarrow> is_sibling_document D t \<Longrightarrow>
     file_passes C D F sr key path"
  by (cases "parse_proof D t") (auto simp: file_passes_def sibling_at_def is_ok_def)

lemma proof_passes:
  "read_text F path = Ok t \<Longrightarrow> parse_proof D t = Ok (V1 p) \<Longrightarrow>
     file_passes C D F sr key path \<longleftrightarrow> verify C sr p key = Ok ()"
  by (auto simp: file_passes_def sibling_at_def proof_at_def any_verify_None)

text \<open>
  A delivery with a pack the producer built over it passes \<open>verify-pack\<close> exactly when each of its
  proofs verifies.
\<close>

lemma delivery_passes:
  assumes "hex_spec C" "hex_lower C" "ed25519_spec C"
    and names: "\<forall>p \<in> set ps. name_ok (nm (proof_user p))"
    and bp: "build_pack C venue tm dig (map (\<lambda>f. (file_name f, file_content f)) (named_files nm E sr a ps)) signer = Ok sp"
    and codec: "reads_documents D E sr a ps sp"
    and disk: "holds_delivery F dir
      (named_files nm E sr a ps @ [\<lparr>file_name = PACK_FILE, file_content = pretty (en_pack E) sp\<rparr>])"
  shows "(\<exists>s. run_pack C D F dir (public_key_hex C signer) = Ok s \<and> pack_all_passed s) \<longleftrightarrow>
     (\<forall>p \<in> set ps. verify C sr p (public_key_hex C signer) = Ok ())"
proof -
  let ?key = "public_key_hex C signer"
  define ms where "ms = named_files nm E sr a ps"
  define pk where "pk = \<lparr>file_name = PACK_FILE, file_content = pretty (en_pack E) sp\<rparr>"
  note codec = codec [unfolded reads_documents_def Let_def] and disk = disk [folded ms_def pk_def]
  have ok: "\<forall>f \<in> set ms. name_ok (file_name f)"
    unfolding ms_def by (rule named_files_ok [OF names])
  have dist: "distinct (map file_name ms)" using bp by (simp add: build_pack_Ok_iff comp_def ms_def)
  have del: "delivered F dir = Ok (bof_list (map (\<lambda>f. (file_name f, file_content f)) ms))"
    using disk by (intro delivered_members [OF ok dist]) (simp add: pk_def)
  have vp: "verify_pack C sp ?key (bof_list (map (\<lambda>f. (file_name f, file_content f)) ms)) = Ok ()"
    unfolding ms_def by (rule built_pack_verifies [OF assms(1-3) bp])
  have utf: "valid_utf8 (file_content f)" if "f \<in> set (ms @ [pk])" for f
    using that codec unfolding ms_def by (auto simp: pk_def elim!: named_file_cases)
  have readable: "read_text F (join_path dir (file_name f)) = Ok (file_content f)" if "f \<in> set (ms @ [pk])" for f
    using delivered_text [OF disk that utf [OF that]] .
  have pkd: "load_doc F (de_pack D) (join_path dir PACK_FILE) = Ok sp"
    using readable [of pk] codec by (simp add: load_doc_def pk_def)
  have rp: "load_doc F (de_report D) (join_path dir ''report.json'') = Ok sr"
    using readable [of "\<lparr>file_name = ''report.json'', file_content = pretty (en_report E) sr\<rparr>"] codec
    by (simp add: load_doc_def ms_def named_files_def)
  have json: "json_name (file_name f)" if "f \<in> set (ms @ [pk])" for f
    using that ok by (auto simp: pk_def PACK_FILE_def json_name_def ends_with_def name_ok_def)
  obtain names where names: "read_dir F dir = Some names" "set names = file_name ` set (ms @ [pk])"
    using disk unfolding holds_delivery_def by blast
  then have "\<forall>n \<in> set names. json_name n" using json by auto
  then have "filter json_name names = names" by simp
  define paths where "paths = sort (map (join_path dir) names)"
  have "set paths = join_path dir ` set names" by (simp add: paths_def)
  then have paths: "set paths = (\<lambda>f. join_path dir (file_name f)) ` set (ms @ [pk])" "paths \<noteq> []"
    using names(2) by (auto simp: image_comp comp_def)
  then have swept: "proof_paths F dir = Ok paths"
    using names(1) \<open>filter json_name names = names\<close> by (simp add: proof_paths_def Let_def paths_def)
  let ?file = "\<lambda>p. \<lparr>file_name = nm (proof_user p), file_content = pretty (en_proof E) p\<rparr>"
  let ?passes = "\<lambda>f. file_passes C D F sr ?key (join_path dir (file_name f))"
  have split_files: "set (ms @ [pk]) = {\<lparr>file_name = ''report.json'', file_content = pretty (en_report E) sr\<rparr>,
      \<lparr>file_name = ''anchor.json'', file_content = pretty (en_anchor E) a\<rparr>, pk} \<union> ?file ` set ps"
    by (auto simp: ms_def named_files_def)
  have other: "?passes f" if "f \<in> {\<lparr>file_name = ''report.json'', file_content = pretty (en_report E) sr\<rparr>,
      \<lparr>file_name = ''anchor.json'', file_content = pretty (en_anchor E) a\<rparr>, pk}" for f
  proof (rule sibling_passes [OF readable])
    show "f \<in> set (ms @ [pk])" using that unfolding split_files by blast
    show "\<not> is_ok (parse_proof D (file_content f))" using that codec by (auto simp: pk_def)
    show "is_sibling_document D (file_content f)" using that codec by (auto simp: pk_def is_sibling_document_def)
  qed
  have checked: "?passes (?file p) \<longleftrightarrow> verify C sr p ?key = Ok ()" if "p \<in> set ps" for p
  proof -
    have "?file p \<in> set (ms @ [pk])" using that unfolding split_files by blast
    from proof_passes [OF readable [OF this], of D p] that codec show ?thesis by simp
  qed
  have "(\<forall>path \<in> set paths. file_passes C D F sr ?key path) \<longleftrightarrow> (\<forall>f \<in> set (ms @ [pk]). ?passes f)"
    by (simp add: paths(1))
  also have "\<dots> \<longleftrightarrow> (\<forall>p \<in> set ps. ?passes (?file p))"
    unfolding split_files using other by blast
  also have "\<dots> \<longleftrightarrow> (\<forall>p \<in> set ps. verify C sr p ?key = Ok ())"
    using checked by blast
  finally show ?thesis
    unfolding run_pack_passes_iff run_verify_passes_iff
    using pkd rp del vp swept by (auto simp: source_paths_def sweeping_def file_passes_def)
qed

end
