(* ===== verification/Cli_Verbs.thy ===== *)
theory Cli_Verbs
  imports Cli_Run Manifest_Diff
begin

text \<open>
  The other verbs of \<open>canton-solvency-verify\<close> (\<open>coverage.rs\<close>, \<open>diff.rs\<close>,
  \<open>anchors.rs\<close>, \<open>assurance.rs\<close>, \<open>provenance.rs\<close>, \<open>recompute.rs\<close>) and
  \<open>main.rs\<close>: the exit code of a run. A matching recomputation is shown to establish the published
  totals exactly, which no set of proofs does.
\<close>

subsection \<open>\<open>coverage\<close>\<close>

record CoverageRun =
  cov_outcome :: "CoverageOutcome option"
  cov_failure :: "verification_failure option"

definition coverage_ok :: "CoverageRun \<Rightarrow> bool" where
  "coverage_ok r \<longleftrightarrow>
     cov_failure r = None \<and> (case cov_outcome r of None \<Rightarrow> False | Some out \<Rightarrow> fully_covered out)"

definition run_coverage ::
  "crates \<Rightarrow> decoders \<Rightarrow> filesystem \<Rightarrow> string \<Rightarrow> string \<Rightarrow> string \<Rightarrow> string \<Rightarrow> string \<Rightarrow> u64 \<Rightarrow>
     run_error + CoverageRun" where
  "run_coverage C D F custody liabilities stmt key custody_key max_skew =
     and_then (load_doc F (de_report D) custody) (\<lambda>c.
     and_then (load_doc F (de_report D) liabilities) (\<lambda>l.
     and_then (load_doc F (de_coverage D) stmt) (\<lambda>s.
       case verify_coverage C c l s custody_key key max_skew of
         Inr out \<Rightarrow> Ok \<lparr>cov_outcome = Some out, cov_failure = None\<rparr>
       | Inl e \<Rightarrow> Ok \<lparr>cov_outcome = None, cov_failure = Some e\<rparr>)))"

subsection \<open>\<open>manifest-diff\<close>\<close>

definition reductions :: "ManifestChange list \<Rightarrow> ManifestChange list" where
  "reductions changes = filter is_reduction changes"

definition has_reductions :: "ManifestChange list \<Rightarrow> bool" where
  "has_reductions changes \<longleftrightarrow> list_ex is_reduction changes"

definition manifest_of :: "decoders \<Rightarrow> filesystem \<Rightarrow> string \<Rightarrow> run_error + Manifest" where
  "manifest_of D F path =
     and_then (load_doc F (de_report D) path) (\<lambda>sr.
       Ok (case manifest (report sr) of Some m \<Rightarrow> m | None \<Rightarrow> \<lparr>audience = [], manifest_fields = bempty\<rparr>))"

definition run_diff :: "decoders \<Rightarrow> filesystem \<Rightarrow> string \<Rightarrow> string \<Rightarrow> run_error + ManifestChange list" where
  "run_diff D F previous current =
     and_then (manifest_of D F previous) (\<lambda>p.
     and_then (manifest_of D F current) (\<lambda>c. Ok (diff p c)))"

subsection \<open>\<open>anchors\<close>\<close>

definition load_chain :: "decoders \<Rightarrow> filesystem \<Rightarrow> string \<Rightarrow> run_error + Anchor list" where
  "load_chain D F path =
     (if is_dir F path then
        and_then (proof_paths F path) (\<lambda>files. collect_ok (load_doc F (de_anchor D)) files)
      else load_doc F (de_anchors D) path)"

record ChainSummary =
  chain_anchors :: nat
  chain_publisher :: string
  chain_first :: string
  chain_last :: string
  chain_broken :: "chain_failure option"

definition run_anchors :: "crates \<Rightarrow> decoders \<Rightarrow> filesystem \<Rightarrow> string \<Rightarrow> run_error + ChainSummary" where
  "run_anchors C D F path =
     and_then (load_chain D F path) (\<lambda>as.
     and_then (ensure (as \<noteq> []) EmptyHistory) (\<lambda>_.
       Ok \<lparr>chain_anchors = length as,
           chain_publisher = anchor_publisher (hd as),
           chain_first = anchor_snapshot_time (hd as),
           chain_last = anchor_snapshot_time (last as),
           chain_broken = err (verify_anchors C as)\<rparr>))"

definition intact :: "ChainSummary \<Rightarrow> bool" where
  "intact s \<longleftrightarrow> chain_broken s = None"

subsection \<open>\<open>assurance\<close>\<close>

record AssuranceOutcome =
  accepted :: "assurance_level bmap"
  established :: "assurance_level list bmap"
  ao_failure :: "verification_failure option"

text \<open>\<open>path.map(load).transpose()\<close>\<close>

definition load_optional :: "filesystem \<Rightarrow> (bytes \<Rightarrow> string + 'a) \<Rightarrow> string option \<Rightarrow> run_error + 'a option" where
  "load_optional F parse path = (case path of
     None \<Rightarrow> Ok None
   | Some p \<Rightarrow> and_then (load_doc F parse p) (\<lambda>d. Ok (Some d)))"

definition role_of_flag :: "string \<Rightarrow> attestor_role" where
  "role_of_flag r = (if r = ''issuer'' then Issuer else ThirdParty)"

definition run_assurance ::
  "crates \<Rightarrow> decoders \<Rightarrow> filesystem \<Rightarrow> string \<Rightarrow> string \<Rightarrow> string option \<Rightarrow> string option \<Rightarrow> string option \<Rightarrow>
     string option \<Rightarrow> string bmap \<Rightarrow> string \<Rightarrow> run_error + AssuranceOutcome" where
  "run_assurance C D F rep stmt prf anc atts prov attestors key =
     and_then (load_doc F (de_report D) rep) (\<lambda>sr.
     and_then (load_doc F (de_assurance D) stmt) (\<lambda>st.
     and_then (load_optional F (de_proof D) prf) (\<lambda>p.
     and_then (load_optional F (de_anchor D) anc) (\<lambda>a.
     and_then (case atts of Some path \<Rightarrow> load_doc F (de_attestations D) path | None \<Rightarrow> Ok []) (\<lambda>as.
     and_then (load_optional F (de_provenance D) prov) (\<lambda>graph.
     (let trusted = \<lparr>trusted_publisher = key, trusted_attestors = bmap_values role_of_flag attestors\<rparr>;
          ev = \<lparr>ev_proof = p, ev_anchor = a, ev_attestations = as, ev_provenance = map_option provenance graph\<rparr>;
          est = bmap_values sorted_list_of_set (establish C sr ev trusted)
      in case verify_assurance C sr st ev trusted of
           Inr acc \<Rightarrow> Ok \<lparr>accepted = acc, established = est, ao_failure = None\<rparr>
         | Inl e \<Rightarrow> Ok \<lparr>accepted = bempty, established = est, ao_failure = Some e\<rparr>)))))))"

text \<open>\<open>max_by_key\<close>: the last of the strongest.\<close>

definition strongest :: "assurance_level list \<Rightarrow> assurance_level option" where
  "strongest ls =
     fold (\<lambda>l best. case best of None \<Rightarrow> Some l | Some b \<Rightarrow> if strength b \<le> strength l then Some l else Some b)
       ls None"

subsection \<open>\<open>provenance\<close>\<close>

record ProvenanceOutcome =
  graph :: SignedProvenance
  checked_against_levels :: bool
  po_failure :: "verification_failure option"

definition run_provenance ::
  "crates \<Rightarrow> decoders \<Rightarrow> filesystem \<Rightarrow> string \<Rightarrow> string \<Rightarrow> string option \<Rightarrow> string \<Rightarrow>
     run_error + ProvenanceOutcome" where
  "run_provenance C D F rep prov stmt key =
     and_then (load_doc F (de_report D) rep) (\<lambda>sr.
     and_then (load_doc F (de_provenance D) prov) (\<lambda>g.
     and_then (load_optional F (de_assurance D) stmt) (\<lambda>st.
     (let failure = err (verify_provenance C sr g key);
          failure = (if failure = None
                     then (case st of
                             None \<Rightarrow> None
                           | Some st \<Rightarrow> err (check_against_assurance (provenance g) (declared_levels st)))
                     else failure)
      in Ok \<lparr>graph = g, checked_against_levels = (st \<noteq> None), po_failure = failure\<rparr>))))"

definition has_off_ledger :: "ProvenanceOutcome \<Rightarrow> bool" where
  "has_off_ledger out \<longleftrightarrow> list_ex (\<lambda>s. kind s = OffLedger) (sources (provenance (graph out)))"

subsection \<open>\<open>recompute\<close>\<close>

record RecomputeOutcome =
  rc_leaves :: nat
  published_root :: string
  recomputed_root :: string
  disagreeing_assets :: "string list"

definition recompute_matches :: "RecomputeOutcome \<Rightarrow> bool" where
  "recompute_matches out \<longleftrightarrow> published_root out = recomputed_root out \<and> disagreeing_assets out = []"

text \<open>One entry of the dump: salt, user and the balances as text.\<close>

definition dump_leaf :: "crates \<Rightarrow> string \<times> string \<times> string bmap \<Rightarrow> run_error + LeafInput" where
  "dump_leaf C = (\<lambda>(slt, user, bals).
     and_then (ok_or (decode32 C slt) (SaltShape user)) (\<lambda>s.
     and_then (map_err DumpAmount (collect_ok (\<lambda>(asset, amount).
         and_then (parse_amount_18dp amount) (\<lambda>v. Ok (asset, v))) (entries bals))) (\<lambda>kvs.
       Ok \<lparr>in_salt = s, in_user_id = user, in_balances = bof_list kvs\<rparr>)))"

definition recompute_meta :: "Report \<Rightarrow> ReportMetadata" where
  "recompute_meta r = \<lparr>
     meta_profile = profile r,
     meta_publisher = publisher r,
     meta_snapshot_time = snapshot_time r,
     meta_ledger_offset = ledger_offset r,
     meta_mark_prices = bempty,
     meta_disclosures = \<lparr>bad_debt = bempty, excluded_house_accounts = 0, excluded_house_totals = bempty\<rparr>,
     meta_manifest = None\<rparr>"

definition disagreeing :: "u128 bmap \<Rightarrow> u128 bmap \<Rightarrow> string list" where
  "disagreeing recomputed published =
     sort_dedup (filter (\<lambda>a. get0 recomputed a \<noteq> get0 published a) (bkeys recomputed @ bkeys published))"

definition recompute ::
  "crates \<Rightarrow> SignedReport \<Rightarrow> (string \<times> string \<times> string bmap) list \<Rightarrow> run_error + RecomputeOutcome" where
  "recompute C sr dump =
     and_then (ensure (dump \<noteq> []) EmptyDump) (\<lambda>_.
     and_then (collect_ok (dump_leaf C) dump) (\<lambda>inputs.
     and_then (map_err RebuildFailed
                 (publish C inputs (recompute_meta (report sr)) \<lparr>seed = mk32 (replicate 32 CHR 0x00)\<rparr>)) (\<lambda>rebuilt.
     (let recomputed = report (signed_report rebuilt) in
      Ok \<lparr>rc_leaves = length inputs,
          published_root = root_hash (report sr),
          recomputed_root = root_hash recomputed,
          disagreeing_assets = disagreeing (root_sums recomputed) (root_sums (report sr))\<rparr>))))"

definition run_recompute :: "crates \<Rightarrow> decoders \<Rightarrow> filesystem \<Rightarrow> string \<Rightarrow> string \<Rightarrow> run_error + RecomputeOutcome" where
  "run_recompute C D F leaves rep =
     and_then (load_doc F (de_report D) rep) (\<lambda>sr.
     and_then (load_doc F (de_dump D) leaves) (\<lambda>dump. recompute C sr dump))"

subsection \<open>Exit codes\<close>

definition EXIT_OK :: nat where "EXIT_OK = 0"
definition EXIT_VERIFICATION_FAILED :: nat where "EXIT_VERIFICATION_FAILED = 1"
definition EXIT_USAGE_OR_IO :: nat where "EXIT_USAGE_OR_IO = 2"

definition exit_code :: "run_error + Summary \<Rightarrow> nat" where
  "exit_code r = (case r of
     Inr s \<Rightarrow> if all_passed s then EXIT_OK else EXIT_VERIFICATION_FAILED
   | Inl _ \<Rightarrow> EXIT_USAGE_OR_IO)"

text \<open>How every other verb maps its outcome, given what counts as success.\<close>

definition verb_exit :: "('a \<Rightarrow> bool) \<Rightarrow> run_error + 'a \<Rightarrow> nat" where
  "verb_exit good r = (case r of
     Inr out \<Rightarrow> if good out then EXIT_OK else EXIT_VERIFICATION_FAILED
   | Inl _ \<Rightarrow> EXIT_USAGE_OR_IO)"

definition command_exit :: "crates \<Rightarrow> decoders \<Rightarrow> filesystem \<Rightarrow> Command \<Rightarrow> nat" where
  "command_exit C D F cmd = (case cmd of
     CmdHelp \<Rightarrow> EXIT_OK
   | CmdVersion \<Rightarrow> EXIT_OK
   | CmdProvenance r p a k _ \<Rightarrow> verb_exit (\<lambda>out. po_failure out = None) (run_provenance C D F r p a k)
   | CmdAssurance r s p a t g attestors k _ \<Rightarrow>
       verb_exit (\<lambda>out. ao_failure out = None) (run_assurance C D F r s p a t g attestors k)
   | CmdRecompute l r _ \<Rightarrow> verb_exit recompute_matches (run_recompute C D F l r)
   | CmdVerifyPack d k _ \<Rightarrow> verb_exit pack_all_passed (run_pack C D F d k)
   | CmdAnchors c _ \<Rightarrow> verb_exit intact (run_anchors C D F c)
   | CmdCoverage c l s k ck tol _ \<Rightarrow> verb_exit coverage_ok (run_coverage C D F c l s k ck tol)
   | CmdManifestDiff p c _ \<Rightarrow> verb_exit (\<lambda>changes. \<not> has_reductions changes) (run_diff D F p c)
   | _ \<Rightarrow> exit_code (run C D F cmd))"

definition main_exit :: "crates \<Rightarrow> decoders \<Rightarrow> filesystem \<Rightarrow> string list \<Rightarrow> nat" where
  "main_exit C D F argv = (case parse_args argv of
     Inl _ \<Rightarrow> EXIT_USAGE_OR_IO
   | Inr cmd \<Rightarrow> command_exit C D F cmd)"

subsection \<open>What a matching recomputation establishes\<close>

lemma disagreeing_Nil_iff: "disagreeing m n = [] \<longleftrightarrow> (\<forall>a. get0 m a = get0 n a)"
proof -
  have absent: "get0 m a = 0" if "a \<notin> set (bkeys m)" for m :: "u128 bmap" and a
    using that by (simp add: get0_def bget_None_iff [THEN iffD2])
  have "disagreeing m n = [] \<longleftrightarrow> set (disagreeing m n) = {}" by simp
  also have "\<dots> \<longleftrightarrow> (\<forall>a \<in> set (bkeys m) \<union> set (bkeys n). get0 m a = get0 n a)"
    by (auto simp: disagreeing_def)
  also have "\<dots> \<longleftrightarrow> (\<forall>a. get0 m a = get0 n a)" using absent by (metis UnI1 UnI2)
  finally show ?thesis .
qed

text \<open>The tree of some customers, and the totals of their balances.\<close>

definition recomputes :: "crates \<Rightarrow> Report \<Rightarrow> LeafInput list \<Rightarrow> bool" where
  "recomputes C r leaves \<longleftrightarrow>
     (\<exists>t. build C (map (input_node C) leaves) = Ok t \<and> root_hash r = hex_encode C (arr32 (hash (root t)))) \<and>
     (\<forall>a. amount_of (root_sums r) a = (\<Sum>l \<leftarrow> leaves. amount_of (in_balances l) a))"

lemma recompute_matches_iff:
  "(\<exists>out. recompute C sr dump = Ok out \<and> recompute_matches out) \<longleftrightarrow>
     (\<exists>leaves. leaves \<noteq> [] \<and> collect_ok (dump_leaf C) dump = Ok leaves \<and> recomputes C (report sr) leaves)"
    (is "?run \<longleftrightarrow> ?parts")
proof -
  let ?signer = "\<lparr>seed = mk32 (replicate 32 CHR 0x00)\<rparr>"
  have step: "(\<exists>pub. publish C leaves (recompute_meta (report sr)) ?signer = Ok pub \<and>
        root_hash (report sr) = root_hash (report (signed_report pub)) \<and>
        disagreeing (root_sums (report (signed_report pub))) (root_sums (report sr)) = []) \<longleftrightarrow>
      leaves \<noteq> [] \<and> recomputes C (report sr) leaves" (is "?L \<longleftrightarrow> ?R") for leaves
  proof
    assume ?L
    then obtain pub where pub: "publish C leaves (recompute_meta (report sr)) ?signer = Ok pub"
        "root_hash (report sr) = root_hash (report (signed_report pub))"
        "\<forall>a. get0 (root_sums (report (signed_report pub))) a = get0 (root_sums (report sr)) a"
      by (auto simp: disagreeing_Nil_iff)
    have "amount_of (root_sums (report sr)) a = (\<Sum>l \<leftarrow> leaves. amount_of (in_balances l) a)" for a
      using published_report(4) [OF pub(1), of a] pub(3) by (simp add: amount_of_def)
    moreover from pub(1) have "leaves \<noteq> []" using publish_succeeds_iff by blast
    moreover from pub(1,2) have "\<exists>t. build C (map (input_node C) leaves) = Ok t \<and> root_hash (report sr) = hex_encode C (arr32 (hash (root t)))"
      by (auto simp: publish_Ok_iff sign_report_def report_of_def)
    ultimately show ?R by (simp add: recomputes_def)
  next
    assume R: ?R
    then obtain t where t: "build C (map (input_node C) leaves) = Ok t"
        "root_hash (report sr) = hex_encode C (arr32 (hash (root t)))"
        "\<And>a. amount_of (root_sums (report sr)) a = (\<Sum>l \<leftarrow> leaves. amount_of (in_balances l) a)"
      by (auto simp: recomputes_def)
    have "(\<Sum>l \<leftarrow> leaves. amount_of (in_balances l) a) < 2 ^ 128" for a
      using amount_of_lt [of "root_sums (report sr)" a] by (simp add: t(3))
    with R obtain pub where pub: "publish C leaves (recompute_meta (report sr)) ?signer = Ok pub"
      using publish_succeeds_iff by blast
    have "get0 (root_sums (report (signed_report pub))) a = get0 (root_sums (report sr)) a" for a
      using published_report(4) [OF pub, of a] t(3) [of a] by (simp add: amount_of_def flip: unat_inj)
    moreover have "root_hash (report sr) = root_hash (report (signed_report pub))"
      using pub t(1,2) by (auto simp: publish_Ok_iff sign_report_def report_of_def)
    ultimately show ?L using pub by (auto simp: disagreeing_Nil_iff)
  qed
  have "?run \<longleftrightarrow> (\<exists>leaves. dump \<noteq> [] \<and> collect_ok (dump_leaf C) dump = Ok leaves \<and>
      (\<exists>pub. publish C leaves (recompute_meta (report sr)) ?signer = Ok pub \<and>
        root_hash (report sr) = root_hash (report (signed_report pub)) \<and>
        disagreeing (root_sums (report (signed_report pub))) (root_sums (report sr)) = []))"
    by (auto simp: recompute_def recompute_matches_def Let_def)
  also have "\<dots> \<longleftrightarrow> ?parts"
    unfolding step by (auto simp: collect_ok_Ok_iff)
  finally show ?thesis .
qed

text \<open>The dump of an honest publisher's leaves.\<close>

definition dump_entry :: "crates \<Rightarrow> LeafInput \<Rightarrow> string \<times> string \<times> string bmap" where
  "dump_entry C l =
     (hex_encode C (arr32 (in_salt l)), in_user_id l, bmap_values format_amount_18dp (in_balances l))"

lemma dump_leaf_entry:
  assumes "hex_spec C"
  shows "dump_leaf C (dump_entry C l) = Ok l"
proof -
  have "collect_ok (\<lambda>(asset, amount). and_then (parse_amount_18dp amount) (\<lambda>v. Ok (asset, v)))
      (map (\<lambda>(k, v). (k, format_amount_18dp v)) xs) = Ok xs" for xs :: "(string \<times> u128) list"
    by (induction xs) (auto simp: parse_format)
  then show ?thesis
    using assms by (simp add: dump_leaf_def dump_entry_def decode32_encode)
qed

lemma recompute_honest:
  assumes "hex_spec C" "publish C leaves meta signer = Ok pub"
  shows "\<exists>out. recompute C (signed_report pub) (map (dump_entry C) leaves) = Ok out \<and> recompute_matches out"
  unfolding recompute_matches_iff
proof (intro exI conjI)
  show "leaves \<noteq> []" using assms(2) publish_succeeds_iff by blast
  show "collect_ok (dump_leaf C) (map (dump_entry C) leaves) = Ok leaves"
    by (simp add: collect_ok_Ok_iff list.rel_map dump_leaf_entry [OF assms(1)] list.rel_refl)
  show "recomputes C (report (signed_report pub)) leaves"
    using assms(2) published_report(4) [OF assms(2)]
    by (auto simp: recomputes_def publish_Ok_iff sign_report_def report_of_def)
qed

subsection \<open>What exit codes say\<close>

lemmas exit_defs = EXIT_OK_def EXIT_VERIFICATION_FAILED_def EXIT_USAGE_OR_IO_def

lemma exit_code_verb: "exit_code r = verb_exit all_passed r"
  by (cases r) (simp_all add: exit_code_def verb_exit_def)

lemma verb_exit_range: "verb_exit good r \<in> {0, 1, 2}"
  by (cases r) (simp_all add: verb_exit_def exit_defs)

lemma main_exit_range: "main_exit C D F argv \<in> {0, 1, 2}"
proof -
  have "command_exit C D F cmd \<in> {0, 1, 2}" for cmd
    by (cases cmd) (simp_all only: command_exit_def exit_code_verb verb_exit_range Command.case, simp_all add: exit_defs)
  then show ?thesis by (cases "parse_args argv") (simp_all add: main_exit_def exit_defs)
qed

lemma verb_exit_iff [simp]:
  "verb_exit good r = 0 \<longleftrightarrow> (\<exists>out. r = Ok out \<and> good out)"
  "verb_exit good r = Suc 0 \<longleftrightarrow> (\<exists>out. r = Ok out \<and> \<not> good out)"
  "verb_exit good r = 2 \<longleftrightarrow> (\<exists>e. r = Err e)"
  by (cases r; auto simp: verb_exit_def exit_defs)+

lemma main_exit_usage: "parse_args argv = Err e \<Longrightarrow> main_exit C D F argv = 2"
  by (simp add: main_exit_def exit_defs)

lemma main_exit_parsed: "parse_args argv = Ok cmd \<Longrightarrow> main_exit C D F argv = command_exit C D F cmd"
  by (simp add: main_exit_def)

text \<open>A directory that holds no proof at all passes.\<close>

lemma sweep_without_proofs:
  assumes "load_doc F (de_report D) rep = Ok sr" "read_dir F dir = Some names"
    and "\<exists>n \<in> set names. json_name n"
    and "\<forall>n \<in> set names. json_name n \<longrightarrow> sibling_at D F (join_path dir n)"
  shows "run_verify C D F rep (ProofDir dir) key = Ok (summary_of C sr [])"
proof -
  let ?paths = "sort (map (join_path dir) (filter json_name names))"
  have "set ?paths \<noteq> {}" using assms(3) by auto
  then have "?paths \<noteq> []" by (metis empty_set)
  then have "proof_paths F dir = Ok ?paths"
    by (simp add: proof_paths_def assms(2) Let_def ensure_def)
  moreover have "check_proofs C D F sr key True ?paths = Ok []"
    by (rule check_proofs_skips) (use assms(4) in auto)
  ultimately show ?thesis by (simp add: run_verify_def assms(1) source_paths_def sweeping_def)
qed

text \<open>Each verb's success, in terms of the library it calls.\<close>

lemma coverage_exit_iff:
  "verb_exit coverage_ok (run_coverage C D F c l s k ck tol) = 0 \<longleftrightarrow>
     (\<exists>cr lr st out. load_doc F (de_report D) c = Ok cr \<and> load_doc F (de_report D) l = Ok lr \<and>
        load_doc F (de_coverage D) s = Ok st \<and> verify_coverage C cr lr st ck k tol = Ok out \<and> fully_covered out)"
  by (cases "load_doc F (de_report D) c"; cases "load_doc F (de_report D) l"; cases "load_doc F (de_coverage D) s")
    (auto simp: run_coverage_def coverage_ok_def split: sum.split)

lemma provenance_exit_iff:
  "verb_exit (\<lambda>out. po_failure out = None) (run_provenance C D F r p None k) = 0 \<longleftrightarrow>
     (\<exists>sr g. load_doc F (de_report D) r = Ok sr \<and> load_doc F (de_provenance D) p = Ok g \<and>
        verify_provenance C sr g k = Ok ())"
  by (cases "load_doc F (de_report D) r"; cases "load_doc F (de_provenance D) p")
    (auto simp: run_provenance_def load_optional_def Let_def is_ok_iff split: if_splits)

lemma strongest_Some:
  assumes "strongest ls = Some l"
  shows "l \<in> set ls \<and> (\<forall>k \<in> set ls. strength k \<le> strength l)"
proof -
  let ?f = "\<lambda>l best. case best of None \<Rightarrow> Some l | Some b \<Rightarrow> if strength b \<le> strength l then Some l else Some b"
  have later: "fold ?f xs (Some b) = Some l \<Longrightarrow>
      l \<in> insert b (set xs) \<and> (\<forall>k \<in> insert b (set xs). strength k \<le> strength l)" for b xs
    by (induction xs arbitrary: b) (force split: if_splits)+
  show ?thesis
  proof (cases ls)
    case (Cons a xs)
    with assms have "fold ?f xs (Some a) = Some l" by (simp add: strongest_def)
    from later [OF this] show ?thesis by (simp add: Cons)
  qed (use assms in \<open>simp add: strongest_def\<close>)
qed

end
