(* ===== verification/Cli_Properties.thy ===== *)
theory Cli_Properties
  imports Evidence_Samples Cli_Verbs
begin

text \<open>
  The properties of the command line: which keys a command can carry, and what the exit code 0
  of \<open>recompute\<close>, \<open>verify-pack\<close> and a sweep over a directory does and does not say.
\<close>

subsection \<open>Samples\<close>

definition sample_key :: string where "sample_key = replicate 64 CHR ''0''"

text \<open>One directory \<open>d\<close> whose files all read \<open>{}\<close>.\<close>

definition sample_files_of :: "string list \<Rightarrow> filesystem" where
  "sample_files_of names = \<lparr>
     is_file = (\<lambda>_. True),
     is_dir = (\<lambda>path. path = ''d''),
     read_file = (\<lambda>_. Some ''{}''),
     read_dir = (\<lambda>path. if path = ''d'' then Some names else None)\<rparr>"

lemma utf8_braces: "valid_utf8 ''{}''"
  by (rule valid_utf8_ascii) simp

lemma sample_load [simp]:
  "read_text (sample_files_of names) path = Ok ''{}''"
  "load_doc (sample_files_of names) parse path = map_err (Parsing path) (parse ''{}'')"
  by (simp_all add: load_doc_def read_text_def sample_files_of_def utf8_braces)

lemma sample_select [simp]:
  "de_report (sample_decoders sr sp dump) = (\<lambda>_. Ok sr)"
  "de_pack (sample_decoders sr sp dump) = (\<lambda>_. sp)"
  "de_dump (sample_decoders sr sp dump) = (\<lambda>_. Ok dump)"
  "read_dir (sample_files_of names) ''d'' = Some names"
  "read_file (sample_files_of names) path = Some ''{}''"
  "is_file (sample_files_of names) path"
  by (simp_all add: sample_decoders_def sample_files_of_def)

lemma sample_sibling: "sibling_at (sample_decoders sr sp dump) (sample_files_of names) path"
  by (simp add: sibling_at_def parse_proof_def is_sibling_document_def sample_decoders_def)

lemma utf8_report: "valid_utf8 ''report.json''"
  by (rule valid_utf8_ascii) simp

lemma key_hex_venue: "key_hex (public_key_hex sample_crates venue_signer)"
proof -
  have "list_all is_ascii_hexdigit ''0123456789abcdef''" by code_simp
  then have "is_ascii_hexdigit c" if "c \<in> set (hex_encode sample_crates bs)" for c bs
    using that sample_hex_lower unfolding hex_lower_def list_all_iff by blast
  moreover have "length (public_key_hex sample_crates venue_signer) = 64"
    by (simp add: public_key_hex_def sample_crates_def length_hex_of)
  ultimately show ?thesis by (simp add: key_hex_def public_key_hex_def list_all_iff)
qed

lemma key_hex_sample: "key_hex sample_key"
  by (simp add: key_hex_def sample_key_def is_ascii_hexdigit_def list_all_iff)

lemmas parse_defs = parse_args_def COMMANDS_def VALUE_FLAGS_def build_command_def required_path_def
  key_flag_def proof_source_def bget_binsert

lemma parse_sweep:
  "parse_args [''verify'', ''--report'', ''r.json'', ''--proof-dir'', ''d'', ''--key'', sample_key] =
     Ok (CmdVerify ''r.json'' (ProofDir ''d'') sample_key False)"
  by (simp add: parse_defs key_hex_sample)

lemma parse_recompute:
  "parse_args [''recompute'', ''--leaves'', ''dump.json'', ''--report'', ''r.json''] =
     Ok (CmdRecompute ''dump.json'' ''r.json'' False)"
  by (simp add: parse_defs)

lemma parse_pack:
  "key_hex k \<Longrightarrow> parse_args [''verify-pack'', ''--pack-dir'', ''d'', ''--key'', k] = Ok (CmdVerifyPack ''d'' k False)"
  by (simp add: parse_defs)

subsection \<open>Arguments\<close>

text \<open>
  C38. Every key a parsed command trusts, the keys of attestors included, is 64 hexadecimal
  digits, whichever verb it is for and however the flags are ordered or repeated; and a run
  without arguments is an error.
\<close>

theorem command_keys_are_hex:
  assumes "parse_args argv = Ok cmd" "k \<in> command_keys cmd"
  shows "length k = 64 \<and> list_all is_ascii_hexdigit k \<and> argv \<noteq> []"
  using parse_args_keys [OF assms(1)] parse_args_needs_command [OF assms(1)] assms(2) by (auto simp: key_hex_def)

theorem command_keys_are_hex_witness:
  "parse_args [''verify'', ''--report'', ''r.json'', ''--proof-dir'', ''d'', ''--key'', sample_key] =
     Ok (CmdVerify ''r.json'' (ProofDir ''d'') sample_key False) \<and> length sample_key = 64"
  using command_keys_are_hex [OF parse_sweep, of sample_key] parse_sweep by simp

subsection \<open>Exit code 0\<close>

text \<open>
  A sweep over a directory that holds no proof exits 0: when the report parses and every JSON
  file of the directory is a report, an anchor, a pack or a membership, nothing is checked, not
  even the signature of the report, and the exit code is the one of a verified run.
\<close>

theorem empty_sweep_exits_zero:
  assumes "parse_args argv = Ok (CmdVerify rep (ProofDir dir) key json)"
    and "load_doc F (de_report D) rep = Ok sr" "read_dir F dir = Some names" "\<exists>n \<in> set names. json_name n"
    and "\<forall>n \<in> set names. json_name n \<longrightarrow> sibling_at D F (join_path dir n)"
  shows "main_exit C D F argv = 0"
  using sweep_without_proofs [OF assms(2-5), of C key]
  by (simp add: main_exit_parsed [OF assms(1)] command_exit_def exit_code_verb run_def all_passed_iff)

theorem empty_sweep_exits_zero_witness:
  "let sr = (day ''2026-01-01T00:00:00Z'')\<lparr>signature := \<lparr>algorithm = [], public_key = [], sig_value = []\<rparr>\<rparr>
   in main_exit sample_crates (sample_decoders sr (Err []) []) (sample_files_of [''r.json''])
        [''verify'', ''--report'', ''r.json'', ''--proof-dir'', ''d'', ''--key'', sample_key] = 0 \<and>
      \<not> report_authentic sample_crates sr sample_key"
  unfolding Let_def
  by (intro conjI empty_sweep_exits_zero [OF parse_sweep])
    (auto simp: json_name_def ends_with_def report_authentic_def sample_key_def sample_sibling)

text \<open>
  \<open>recompute\<close> exits 0 exactly when the dump parses to at least one customer, the tree of
  those customers has the published root hash, and the published totals are the sums of their
  balances asset by asset. Unlike any set of proofs, it rules out understated totals.
\<close>

theorem recompute_exits_zero_exactly:
  assumes "parse_args argv = Ok (CmdRecompute dump_path rep json)"
  shows "main_exit C D F argv = 0 \<longleftrightarrow>
    (\<exists>sr dump leaves. load_doc F (de_report D) rep = Ok sr \<and> load_doc F (de_dump D) dump_path = Ok dump \<and>
       leaves \<noteq> [] \<and> collect_ok (dump_leaf C) dump = Ok leaves \<and> recomputes C (report sr) leaves)"
proof -
  have "main_exit C D F argv = 0 \<longleftrightarrow>
      (\<exists>sr dump. load_doc F (de_report D) rep = Ok sr \<and> load_doc F (de_dump D) dump_path = Ok dump \<and>
         (\<exists>out. recompute C sr dump = Ok out \<and> recompute_matches out))"
    by (auto simp: main_exit_parsed [OF assms] command_exit_def run_recompute_def)
  then show ?thesis unfolding recompute_matches_iff by blast
qed

theorem recompute_exits_zero_exactly_witness:
  "\<exists>pub. sample_publication = Ok pub \<and>
     main_exit sample_crates
       (sample_decoders (signed_report pub) (Err []) (map (dump_entry sample_crates) [alice, bob, carol]))
       (sample_files_of []) [''recompute'', ''--leaves'', ''dump.json'', ''--report'', ''r.json''] = 0"
proof -
  obtain pub where pub: "publish sample_crates [alice, bob, carol] venue_meta venue_signer = Ok pub"
    using sample_published by (auto simp: sample_publication_def)
  have "\<exists>leaves. leaves \<noteq> [] \<and>
      collect_ok (dump_leaf sample_crates) (map (dump_entry sample_crates) [alice, bob, carol]) = Ok leaves \<and>
      recomputes sample_crates (report (signed_report pub)) leaves"
    using recompute_honest [OF sample_hex_spec pub] unfolding recompute_matches_iff .
  with pub show ?thesis
    by (simp add: recompute_exits_zero_exactly [OF parse_recompute] sample_publication_def del: list.map)
qed

text \<open>
  \<open>verify-pack\<close> exits 0 exactly when the index is authentic, the delivery is exactly the
  files it names with the contents it pins, the report parses and every JSON file beside it is
  either an accepted proof or another document of a publication.
\<close>

theorem verify_pack_exits_zero_exactly:
  assumes "parse_args argv = Ok (CmdVerifyPack dir key json)"
  shows "main_exit C D F argv = 0 \<longleftrightarrow>
    (\<exists>sp members sr paths. load_doc F (de_pack D) (join_path dir PACK_FILE) = Ok sp \<and> delivered F dir = Ok members \<and>
       pack_authentic C sp key \<and> delivery_matches C (pack sp) members \<and>
       load_doc F (de_report D) (join_path dir ''report.json'') = Ok sr \<and> proof_paths F dir = Ok paths \<and>
       (\<forall>path \<in> set paths. sibling_at D F path \<or> (\<exists>p. proof_at D F path p \<and> any_verify C p sr key = None)))"
proof -
  have "main_exit C D F argv = 0 \<longleftrightarrow> (\<exists>s. run_pack C D F dir key = Ok s \<and> pack_all_passed s)"
    by (simp add: main_exit_parsed [OF assms] command_exit_def)
  then show ?thesis
    unfolding run_pack_passes_iff run_verify_passes_iff verify_pack_Ok_iff
    by (auto simp: source_paths_def sweeping_def)
qed

theorem verify_pack_exits_zero_exactly_witness:
  "\<exists>sp. main_exit sample_crates (sample_decoders (day ''2026-01-01T00:00:00Z'') (Ok sp) [])
     (sample_files_of [''pack.json'', ''report.json''])
     [''verify-pack'', ''--pack-dir'', ''d'', ''--key'', public_key_hex sample_crates venue_signer] = 0"
proof -
  let ?ms = "[(''report.json'', ''{}'')]" and ?key = "public_key_hex sample_crates venue_signer"
  let ?F = "sample_files_of [''pack.json'', ''report.json'']"
  obtain sp where sp: "build_pack sample_crates ''venue'' ''t'' ''aa11'' ?ms venue_signer = Ok sp"
    by (simp add: build_pack_Ok_iff safe_file_name_def)
  have "verify_pack sample_crates sp ?key (bof_list ?ms) = Ok ()"
    by (rule built_pack_verifies [OF sample_hex_spec sample_hex_lower sample_ed25519_spec sp])
  then have ok: "pack_authentic sample_crates sp ?key" "delivery_matches sample_crates (pack sp) (bof_list ?ms)"
    by (simp_all add: verify_pack_Ok_iff)
  have "delivered ?F ''d'' = Ok (bof_list ?ms)"
    using utf8_report by (simp add: delivered_def join_path_def PACK_FILE_def)
  moreover obtain paths where "proof_paths ?F ''d'' = Ok paths"
    by (simp add: proof_paths_def json_name_def ends_with_def Let_def)
  ultimately show ?thesis
    using ok unfolding verify_pack_exits_zero_exactly [OF parse_pack [OF key_hex_venue]]
    by (auto simp: sample_sibling)
qed

end
