(* ===== verification/Service_Properties.thy ===== *)
theory Service_Properties
  imports Delivery Cli_Properties
begin

text \<open>
  The properties of the custody reader, the signing service and its keystore, up to the command
  line that checks what the service delivers.
\<close>

subsection \<open>A delivery on disk\<close>

text \<open>The decoders read the documents of a publication back and take none for a proof that is none.\<close>

definition reads_back :: "decoders \<Rightarrow> encoders \<Rightarrow> ServiceDocuments \<Rightarrow> bool" where
  "reads_back D E d \<longleftrightarrow>
     (let rt = pretty (en_report E) (doc_report d); at = pretty (en_anchor E) (doc_anchor d);
          pt = pretty (en_pack E) (doc_pack d) in
      de_report D rt = Ok (doc_report d) \<and> is_ok (de_anchor D at) \<and> de_pack D pt = Ok (doc_pack d) \<and>
      (\<forall>t \<in> {rt, at, pt}. valid_utf8 t \<and> \<not> is_ok (parse_proof D t)) \<and>
      (\<forall>p \<in> set (doc_proofs d). valid_utf8 (pretty (en_proof E) p) \<and>
         parse_proof D (pretty (en_proof E) p) = Ok (V1 p)))"

lemma documents_verify:
  assumes "hex_spec C" "ed25519_spec C" "publish_documents C E req signer slt = Ok d"
  shows "doc_proofs d \<noteq> []"
    and "p \<in> set (doc_proofs d) \<Longrightarrow>
      verify C (doc_report d) p (public_key_hex C signer) = Ok () \<longleftrightarrow> publishable (report (doc_report d))"
proof -
  obtain declared users bad meta pub where
    ne: "pr_leaves req \<noteq> []" and prof: "meta_profile meta = LIABILITIES_PROFILE"
    and pub: "publish C (leaves_in C (arr32 slt) users) meta signer = Ok pub"
    and rep: "doc_report d = signed_report pub" and prfs: "doc_proofs d = proofs pub"
    by (rule publish_documents_Ok [OF assms(3)]) (rule that; assumption)
  have "length (doc_proofs d) = length (pr_leaves req)"
    using arg_cong [OF service_report_totals(4) [OF assms(3)], of length] by simp
  with ne show "doc_proofs d \<noteq> []" by auto
  assume "p \<in> set (doc_proofs d)"
  then obtain i where i: "i < length (leaves_in C (arr32 slt) users)" "p = proofs pub ! i"
    using pub by (auto simp: prfs in_set_conv_nth publish_Ok_iff)
  have "profile (report (signed_report pub)) = ''solvency.liabilities''"
    by (simp add: published_report(2) [OF pub] prof LIABILITIES_PROFILE_def)
  from validate_liabilities [OF this] show
    "verify C (doc_report d) p (public_key_hex C signer) = Ok () \<longleftrightarrow> publishable (report (doc_report d))"
    using publish_verifies_iff [OF assms(1,2) pub i(1)] by (simp add: rep i(2) publishable_def)
qed

lemma proof_name_ok:
  assumes "hex_lower C"
  shows "name_ok (proof_file_name C u)"
proof -
  have "code c < 128" if "c \<in> set ''0123456789abcdef''" for c
    using that by auto
  then have "code c < 128" if "c \<in> set (hex_encode C bs)" for c bs
    using that assms unfolding hex_lower_def by blast
  then have "\<forall>c \<in> set (proof_file_name C u). code c < 128"
    by (auto simp: proof_file_name_def)
  then have "valid_utf8 (proof_file_name C u)" by (rule valid_utf8_ascii)
  then show ?thesis by (simp add: name_ok_def json_name_def ends_with_def proof_file_name_def PACK_FILE_def)
qed

lemma delivery_passes_iff:
  assumes "hex_spec C" "hex_lower C" "ed25519_spec C"
    and d: "publish_documents C E req signer slt = Ok d" and codec: "reads_back D E d"
    and disk: "holds_delivery F dir (rs_files (response_of C E signer d))"
  shows "(\<exists>s. run_pack C D F dir (public_key_hex C signer) = Ok s \<and> pack_all_passed s) \<longleftrightarrow>
     publishable (report (doc_report d))"
proof -
  obtain venue tm dig where bp: "build_pack C venue tm dig (map (\<lambda>f. (file_name f, file_content f))
      (named_files (proof_file_name C) E (doc_report d) (doc_anchor d) (doc_proofs d))) signer = Ok (doc_pack d)"
    by (rule publish_documents_Ok [OF d]) (simp add: member_files_named)
  have "reads_documents D E (doc_report d) (doc_anchor d) (doc_proofs d) (doc_pack d)"
    using codec by (simp add: reads_back_def reads_documents_def)
  moreover have "holds_delivery F dir
      (named_files (proof_file_name C) E (doc_report d) (doc_anchor d) (doc_proofs d) @
       [\<lparr>file_name = PACK_FILE, file_content = pretty (en_pack E) (doc_pack d)\<rparr>])"
    using disk by (simp add: response_of_def Let_def member_files_named PACK_FILE_def)
  ultimately have "(\<exists>s. run_pack C D F dir (public_key_hex C signer) = Ok s \<and> pack_all_passed s) \<longleftrightarrow>
      (\<forall>p \<in> set (doc_proofs d). verify C (doc_report d) p (public_key_hex C signer) = Ok ())"
    using proof_name_ok [OF assms(2)] bp by (intro delivery_passes [OF assms(1-3)]) auto
  then show ?thesis using documents_verify [OF assms(1,3) d] by (metis last_in_set)
qed

subsection \<open>A sample request\<close>

text \<open>One customer with a balance listed under two spellings of one asset, and a debt.\<close>

definition service_request :: PublishRequest where
  "service_request = \<lparr>
     pr_org = ''venue'',
     pr_publisher = ''venue'',
     pr_profile = LIABILITIES_PROFILE,
     pr_snapshot_time = ''2026-01-01T00:00:00Z'',
     pr_ledger_offset = ''000042'',
     pr_leaves = [\<lparr>leaf_user = ''alice'',
       leaf_amounts = bof_list [(''BTC'', ''5''), (''BTC '', ''7''), (''USD'', ''-2'')]\<rparr>],
     pr_mark_prices = bempty,
     pr_disclosures = \<lparr>din_bad_debt = bempty, din_excluded_accounts = 0, din_excluded_totals = bempty\<rparr>,
     pr_manifest = None,
     pr_previous_anchor = None\<rparr>"

definition service_encoders :: encoders where
  "service_encoders = \<lparr>en_report = (\<lambda>_. ''R''), en_anchor = (\<lambda>_. ''A''), en_proof = (\<lambda>_. ''P''), en_pack = (\<lambda>_. ''K'')\<rparr>"

lemma service_trims [simp]:
  "trim ''alice'' = ''alice''" "trim ''BTC'' = ''BTC''" "trim ''BTC '' = ''BTC''" "trim ''USD'' = ''USD''"
  "trim ''5'' = ''5''" "trim ''7'' = ''7''" "trim ''-2'' = ''-2''"
  using trim_trailing_space [of "''BTC''"] by (simp_all add: trim_plain plain_char_def)


lemma service_amounts [simp]:
  "parse_amount_18dp ''5'' = Ok 5000000000000000000" "parse_amount_18dp ''7'' = Ok 7000000000000000000"
  "parse_amount_18dp ''2'' = Ok 2000000000000000000"
  by (simp_all add: parse_amount_iff decimal_value_def is_ascii_digit_def digits_val_def digit_val_def)

lemma service_entries:
  "entries (bof_list [(''BTC'', ''5''), (''BTC '', ''7''), (''USD'', ''-2'')]) =
     [(''BTC'', ''5''), (''BTC '', ''7''), (''USD'', ''-2'')]"
  by (simp add: bof_list_def less_list_code less_char_def)

text \<open>Names that trim to one asset overwrite each other: of 5 and 7 only 7 is kept.\<close>

lemma trimmed_assets_overwrite:
  "read_balances ''alice'' (entries (bof_list [(''BTC'', ''5''), (''BTC '', ''7''), (''USD'', ''-2'')])) bempty bempty 0 =
     Ok (bof_list [(''BTC'', 7000000000000000000), (''USD'', 0)], bof_list [(''USD'', 2000000000000000000)], 1)"
proof -
  have same: "binsert k v (binsert k w m) = binsert k v m" for k and v w :: u128 and m
    by (rule bm.ext) (simp add: fun_eq_iff bget_binsert)
  have "checked_add 0 (2000000000000000000 :: u128) = Some 2000000000000000000"
    by (simp add: checked_add_def)
  then show ?thesis
    by (simp add: service_entries Let_def strip_prefix_def bof_list_def same)
qed

definition service_salt :: b32 where "service_salt = mk32 ''master''"

lemma proof_name_safe:
  assumes "hex_lower C"
  shows "safe_file_name (proof_file_name C u)"
proof -
  have "c \<noteq> CHR ''/'' \<and> c \<noteq> CHR 0x5C" if "c \<in> set ''0123456789abcdef''" for c
    using that by auto
  then have "c \<noteq> CHR ''/'' \<and> c \<noteq> CHR 0x5C" if "c \<in> set (hex_encode C bs)" for c bs
    using that assms unfolding hex_lower_def by blast
  then show ?thesis by (auto simp: safe_file_name_def proof_file_name_def)
qed

lemma service_published:
  "\<exists>d. publish_documents sample_crates service_encoders service_request venue_signer service_salt = Ok d"
proof -
  define users where "users = bof_list [(''alice'', bof_list [(''BTC'', 7000000000000000000 :: u128), (''USD'', 0)])]"
  define bad where "bad = bof_list [(''USD'', 2000000000000000000 :: u128)]"
  define meta where "meta = \<lparr>meta_profile = LIABILITIES_PROFILE, meta_publisher = ''venue'',
     meta_snapshot_time = ''2026-01-01T00:00:00Z'', meta_ledger_offset = ''000042'', meta_mark_prices = bempty,
     meta_disclosures = \<lparr>bad_debt = bad, excluded_house_accounts = 0, excluded_house_totals = bempty\<rparr>,
     meta_manifest = None\<rparr>"
  have none: "amounts_of bempty what = Ok bempty" for what
    by (simp add: amounts_of_def bof_list_def)
  have read: "read_leaves (List.enumerate 0 (pr_leaves service_request)) bempty bempty 0 = Ok (users, bad, 1)"
    using trimmed_assets_overwrite
    by (simp add: service_request_def users_def bad_def bcontains_def bof_list_def [of "[(''alice'', _)]"])
  let ?leaves = "leaves_in sample_crates (arr32 service_salt) users"
  have leaves: "\<exists>sl. ?leaves = [\<lparr>in_salt = sl, in_user_id = ''alice'', in_balances = bof_list [(''BTC'', 7000000000000000000), (''USD'', 0)]\<rparr>]"
    by (simp add: leaves_in_def users_def)
  then obtain pub where pub: "publish sample_crates ?leaves meta venue_signer = Ok pub"
    using publish_succeeds_iff [of sample_crates ?leaves meta venue_signer]
    by (auto simp: amount_of_bof_list split: option.splits)
  have one: "length (proofs pub) = 1" using pub leaves by (auto simp: publish_Ok_iff)
  let ?a = "anchor_report sample_crates (signed_report pub) None"
  let ?ms = "map (\<lambda>f. (file_name f, file_content f)) (member_files sample_crates service_encoders (signed_report pub) ?a (proofs pub))"
  have "distinct (map fst ?ms)"
    using one by (cases "proofs pub") (auto simp: member_files_def proof_file_name_def)
  moreover have "\<forall>n \<in> fst ` set ?ms. safe_file_name n"
    using proof_name_safe [OF sample_hex_lower] by (auto simp: member_files_def safe_file_name_def [of "''report.json''"]
        safe_file_name_def [of "''anchor.json''"])
  ultimately obtain sp where sp: "build_pack sample_crates (publisher (report (signed_report pub)))
      (snapshot_time (report (signed_report pub))) (report_digest_hex sample_crates (report (signed_report pub)))
      ?ms venue_signer = Ok sp"
    unfolding build_pack_Ok_iff by blast
  have req: "pr_leaves service_request \<noteq> []" "pr_profile service_request = LIABILITIES_PROFILE"
    "pr_disclosures service_request = \<lparr>din_bad_debt = bempty, din_excluded_accounts = 0, din_excluded_totals = bempty\<rparr>"
    "pr_mark_prices service_request = bempty" "pr_publisher service_request = ''venue''"
    "pr_snapshot_time service_request = ''2026-01-01T00:00:00Z''" "pr_ledger_offset service_request = ''000042''"
    "pr_manifest service_request = None" "pr_previous_anchor service_request = None"
    by (simp_all add: service_request_def)
  have "publish_documents sample_crates service_encoders service_request venue_signer service_salt =
      Ok \<lparr>doc_report = signed_report pub, doc_anchor = ?a, doc_proofs = proofs pub, doc_pack = sp, doc_clamped = 1\<rparr>"
    unfolding publish_documents_def using read pub sp by (simp add: req none Let_def meta_def)
  then show ?thesis by blast
qed

text \<open>Decoders that know the texts of \<open>service_encoders\<close>, and a directory that holds some files.\<close>

definition service_decoders :: "ServiceDocuments \<Rightarrow> decoders" where
  "service_decoders d = (sample_decoders (doc_report d) (Err []) [])\<lparr>
     de_report := (\<lambda>t. if t = [CHR ''R'', CHR 0x0A] then Ok (doc_report d) else Err []),
     de_anchor := (\<lambda>t. if t = [CHR ''A'', CHR 0x0A] then Ok (doc_anchor d) else Err []),
     de_pack := (\<lambda>t. if t = [CHR ''K'', CHR 0x0A] then Ok (doc_pack d) else Err []),
     de_version := (\<lambda>t. if t = [CHR ''P'', CHR 0x0A] then Ok PROOF_FORMAT_VERSION else Err []),
     de_proof := (\<lambda>t. Ok (hd (doc_proofs d)))\<rparr>"

definition directory_of :: "FileOut list \<Rightarrow> filesystem" where
  "directory_of fs = \<lparr>
     is_file = (\<lambda>_. True),
     is_dir = (\<lambda>path. path = ''d''),
     read_file = (\<lambda>path. map_of (map (\<lambda>f. (join_path ''d'' (file_name f), file_content f)) fs) path),
     read_dir = (\<lambda>path. if path = ''d'' then Some (map file_name fs) else None)\<rparr>"

lemma directory_holds:
  assumes "distinct (map file_name fs)"
  shows "holds_delivery (directory_of fs) ''d'' fs"
proof -
  have "map_of (map (\<lambda>f. (join_path ''d'' (file_name f), file_content f)) fs) (join_path ''d'' (file_name f)) =
      Some (file_content f)" if "f \<in> set fs" for f
    using that assms by (induction fs) (auto simp: image_iff)
  then show ?thesis using assms by (auto simp: holds_delivery_def directory_of_def)
qed

lemma delivery_names_distinct:
  assumes "hex_lower C" "publish_documents C E req signer slt = Ok d"
  shows "distinct (map file_name (rs_files (response_of C E signer d)))"
proof -
  obtain venue tm dig where "build_pack C venue tm dig (map (\<lambda>f. (file_name f, file_content f))
      (member_files C E (doc_report d) (doc_anchor d) (doc_proofs d))) signer = Ok (doc_pack d)"
    by (rule publish_documents_Ok [OF assms(2)]) simp
  moreover have "''pack.json'' \<notin> file_name ` set (member_files C E (doc_report d) (doc_anchor d) (doc_proofs d))"
  proof
    assume "''pack.json'' \<in> file_name ` set (member_files C E (doc_report d) (doc_anchor d) (doc_proofs d))"
    then obtain f where "f \<in> set (named_files (proof_file_name C) E (doc_report d) (doc_anchor d) (doc_proofs d))"
      and "file_name f = PACK_FILE" by (auto simp: PACK_FILE_def member_files_named)
    then show False using named_files_ok [of _ "proof_file_name C"] proof_name_ok [OF assms(1)]
      by (metis name_ok_def)
  qed
  ultimately show ?thesis
    by (simp add: response_of_def Let_def build_pack_Ok_iff comp_def)
qed

text \<open>A participant's response that lists some holdings.\<close>

definition holding_entry :: "string \<Rightarrow> string \<Rightarrow> u128 \<Rightarrow> json" where
  "holding_entry cid a v = json_object [(''contractEntry'', json_object [(''JsActiveContract'',
     json_object [(''createdEvent'', json_object [(''contractId'', JString cid),
       (''createArgument'', json_object [(''instrument'', JString a), (''quantity'', JString (format_amount_18dp v))])])])])]"

definition holding_fields :: HoldingFields where
  "holding_fields = \<lparr>asset_field = ''instrument'', amount_field = ''quantity''\<rparr>"

definition responds :: "json list \<Rightarrow> json_text" where
  "responds items = \<lparr>from_text = (\<lambda>_. Some (JArray items)), to_text = (\<lambda>_. [])\<rparr>"

definition btc :: CustodyPosition where "btc = \<lparr>contract_id = ''c1'', pos_asset = ''BTC'', pos_amount = 6\<rparr>"
definition usd :: CustodyPosition where "usd = \<lparr>contract_id = ''c2'', pos_asset = ''USD'', pos_amount = 100\<rparr>"

definition holdings_meta :: ReportMetadata where
  "holdings_meta = venue_meta\<lparr>meta_profile := ''coverage.custody''\<rparr>"

lemma holding_reads:
  "entry_reads holding_fields (holding_entry cid a v) \<lparr>contract_id = cid, pos_asset = a, pos_amount = v\<rparr>"
  by (simp add: entry_reads_def holding_entry_def holding_fields_def json_pointer_def json_get_object_distinct
      parse_format)

lemma sample_holdings:
  "parse_holdings (responds [holding_entry ''c1'' ''BTC'' 6, holding_entry ''c2'' ''USD'' 100]) body holding_fields = Ok [btc, usd]"
  "parse_holdings (responds [holding_entry ''c2'' ''USD'' 100, holding_entry ''c1'' ''BTC'' 6]) body holding_fields = Ok [usd, btc]"
  by (simp_all add: parse_holdings_Ok_iff responds_def btc_def usd_def holding_reads)

lemma sample_custody:
  "\<exists>sr. build_custody_report sample_crates [btc, usd] holdings_meta ''000042'' ''master'' venue_signer = Ok sr"
  by (simp add: custody_succeeds_iff holdings_meta_def venue_meta_def btc_def usd_def held_of_def is_safe_name_def
      is_ascii_alphanumeric_def)

subsection \<open>Custody\<close>

text \<open>
  C34. Holdings are committed whatever order the participant lists them in: two responses that
  read to the same positions in a different order give the same custody report, which totals for
  every asset exactly the positions in it, no contract counted twice.
\<close>

theorem custody_report_commits_holdings:
  assumes "parse_holdings J body hf = Ok ps" "parse_holdings J' body' hf' = Ok qs" "mset ps = mset qs"
    and "build_custody_report C ps meta off slt signer = Ok sr"
  shows "build_custody_report C qs meta off slt signer = Ok sr \<and> distinct (map contract_id ps) \<and>
    (\<forall>a. amount_of (root_sums (report sr)) (qualified_key ''held'' a) =
      (\<Sum>p \<leftarrow> ps. if pos_asset p = a then unat (pos_amount p) else 0))"
proof -
  have "distinct (map contract_id ps)" using assms(1) by (auto simp: parse_holdings_Ok_iff)
  with custody_report_order [OF assms(3) this] custody_report_holds(1) [OF assms(4)] assms(4)
  show ?thesis by (simp add: held_of_def)
qed

theorem custody_report_commits_holdings_witness:
  "\<exists>sr. build_custody_report sample_crates [usd, btc] holdings_meta ''000042'' ''master'' venue_signer = Ok sr \<and>
     amount_of (root_sums (report sr)) (qualified_key ''held'' ''BTC'') = 6"
proof -
  obtain sr where sr: "build_custody_report sample_crates [btc, usd] holdings_meta ''000042'' ''master'' venue_signer = Ok sr"
    using sample_custody ..
  have "mset [btc, usd] = mset [usd, btc]" by simp
  from custody_report_commits_holdings [OF sample_holdings this sr] show ?thesis
    by (auto simp: btc_def usd_def)
qed

text \<open>
  A custody report and a liabilities report of one instant compare as their contents do: the
  report built from the holdings and the report published for the customers are accepted together,
  and found fully covered exactly when, for every asset, the customers' balances come to no more
  than the positions held.
\<close>

theorem holdings_cover_balances:
  assumes "hex_spec C" "ed25519_spec C"
    and pub: "publish C leaves lmeta lsigner = Ok pub" "meta_profile lmeta = ''solvency.liabilities''"
    and cr: "build_custody_report C ps cmeta off slt csigner = Ok cr"
    and "parse_instant (meta_snapshot_time cmeta) = Some x" "parse_instant (meta_snapshot_time lmeta) = Some y"
    and "nat \<bar>x - y\<bar> \<le> unat max_skew"
  shows "\<exists>out. verify_coverage C cr (signed_report pub)
      \<lparr>cov_format_version = COVERAGE_FORMAT_VERSION, custody_report_digest = report_digest_hex C (report cr),
       liabilities_report_digest = report_digest_hex C (report (signed_report pub)),
       custody_basis = basis_text\<rparr>
      (public_key_hex C csigner) (public_key_hex C lsigner) max_skew = Ok out \<and>
    (fully_covered out \<longleftrightarrow> (\<forall>a. (\<Sum>l \<leftarrow> leaves. amount_of (in_balances l) a) \<le> held_of ps a))"
proof -
  obtain r where r: "signed_report pub = sign_report C lsigner r" "snapshot_time r = meta_snapshot_time lmeta"
    using pub(1) by (auto simp: publish_Ok_iff report_of_def)
  have "report_authentic C (signed_report pub) (public_key_hex C lsigner)"
    unfolding r(1) using assms(1,2) by (rule own_report_authentic)
  then obtain out where out: "verify_coverage C cr (signed_report pub)
      \<lparr>cov_format_version = COVERAGE_FORMAT_VERSION, custody_report_digest = report_digest_hex C (report cr),
       liabilities_report_digest = report_digest_hex C (report (signed_report pub)),
       custody_basis = basis_text\<rparr>
      (public_key_hex C csigner) (public_key_hex C lsigner) max_skew = Ok out"
    using assms(6-8) custody_report_holds(4-6) [OF cr] published_report(2) [OF pub(1)] r pub(2) assms(1,2)
    by (simp add: verify_coverage_Ok_iff coverage_bound_def sign_report_def)
  then show ?thesis
    by (intro exI [of _ out])
      (simp add: fully_covered_iff [OF out] custody_report_holds(1) [OF cr] published_report(4) [OF pub(1)])
qed

theorem holdings_cover_balances_witness:
  "\<exists>pub cr out stmt. publish sample_crates [alice, bob, carol] venue_meta venue_signer = Ok pub \<and>
     build_custody_report sample_crates [btc, usd] holdings_meta ''000042'' ''master'' venue_signer = Ok cr \<and>
     verify_coverage sample_crates cr (signed_report pub) stmt (public_key_hex sample_crates venue_signer)
       (public_key_hex sample_crates venue_signer) EXACT = Ok out \<and> fully_covered out"
proof -
  obtain pub where pub: "publish sample_crates [alice, bob, carol] venue_meta venue_signer = Ok pub"
    using sample_published by (auto simp: sample_publication_def)
  obtain cr where cr: "build_custody_report sample_crates [btc, usd] holdings_meta ''000042'' ''master'' venue_signer = Ok cr"
    using sample_custody ..
  have "parse_instant ''2026-01-01T00:00:00Z'' \<noteq> None" by code_simp
  then obtain x where x: "parse_instant (meta_snapshot_time holdings_meta) = Some x"
      "parse_instant (meta_snapshot_time venue_meta) = Some x"
    by (auto simp: holdings_meta_def venue_meta_def)
  have "(\<Sum>l \<leftarrow> [alice, bob, carol]. amount_of (in_balances l) a) \<le> held_of [btc, usd] a" for a
    by (simp add: sample_balances amount_of_bof_list held_of_def btc_def usd_def)
  moreover have "meta_profile venue_meta = ''solvency.liabilities''" by (simp add: venue_meta_def)
  ultimately show ?thesis
    using holdings_cover_balances [OF sample_hex_spec sample_ed25519_spec pub _ cr x, where max_skew = EXACT and basis_text = "[]"]
      pub cr by (fastforce simp del: list.map)
qed

subsection \<open>What the service publishes\<close>

text \<open>
  C20. The service publishes what the request lists. Per asset the report totals, over the customers,
  the last of a customer's entries, in the order of their names, whose names trim to the asset, a negative one counting nothing,
  and its bad debt is the declared debt plus every negative balance, of earlier entries too. The total
  never exceeds the sum of the non-negative balances, and is that sum when no customer lists an asset
  twice; a customer who does can make it smaller, because the earlier entries are dropped.
\<close>

theorem service_totals_exact:
  assumes "publish_documents C E req signer slt = Ok d"
  shows "do_publish C E req signer slt = Ok (response_of C E signer d) \<and>
    (\<forall>a. amount_of (root_sums (report (doc_report d))) a =
       (\<Sum>l \<leftarrow> pr_leaves req. last_credit 0 a (entries (leaf_amounts l)))) \<and>
    (\<forall>a. amount_of (bad_debt (disclosures (report (doc_report d)))) a =
       declared_amount (din_bad_debt (pr_disclosures req)) a +
       (\<Sum>l \<leftarrow> pr_leaves req. leaf_debt a (entries (leaf_amounts l)))) \<and>
    (\<forall>a. amount_of (root_sums (report (doc_report d))) a \<le>
       (\<Sum>l \<leftarrow> pr_leaves req. leaf_credit a (entries (leaf_amounts l)))) \<and>
    ((\<forall>l \<in> set (pr_leaves req). distinct (map trim (bkeys (leaf_amounts l)))) \<longrightarrow>
       (\<forall>a. amount_of (root_sums (report (doc_report d))) a =
          (\<Sum>l \<leftarrow> pr_leaves req. leaf_credit a (entries (leaf_amounts l)))))"
proof -
  have "(\<Sum>l \<leftarrow> pr_leaves req. last_credit 0 a (entries (leaf_amounts l))) =
      (\<Sum>l \<leftarrow> pr_leaves req. leaf_credit a (entries (leaf_amounts l)))"
    if "\<forall>l \<in> set (pr_leaves req). distinct (map trim (bkeys (leaf_amounts l)))" for a
    using that by (intro arg_cong [of _ _ sum_list] map_cong refl last_credit_distinct) (simp add: bkeys_def)
  moreover have "(\<Sum>l \<leftarrow> pr_leaves req. last_credit 0 a (entries (leaf_amounts l))) \<le>
      (\<Sum>l \<leftarrow> pr_leaves req. leaf_credit a (entries (leaf_amounts l)))" for a
    using last_credit_le [of 0] by (intro sum_list_mono) simp
  ultimately show ?thesis
    using service_report_totals(1,2) [OF assms] by (simp add: do_publish_def assms)
qed

theorem service_totals_exact_witness:
  "\<exists>d. publish_documents sample_crates service_encoders service_request venue_signer service_salt = Ok d \<and>
     amount_of (root_sums (report (doc_report d))) ''BTC'' = 7 * 10 ^ 18 \<and>
     (\<Sum>l \<leftarrow> pr_leaves service_request. leaf_credit ''BTC'' (entries (leaf_amounts l))) = 12 * 10 ^ 18 \<and>
     amount_of (bad_debt (disclosures (report (doc_report d)))) ''USD'' = 2 * 10 ^ 18"
proof -
  obtain d where d: "publish_documents sample_crates service_encoders service_request venue_signer service_salt = Ok d"
    using service_published ..
  have "entries (leaf_amounts l) = [(''BTC'', ''5''), (''BTC '', ''7''), (''USD'', ''-2'')]"
    if "l \<in> set (pr_leaves service_request)" for l
    using that by (simp add: service_request_def service_entries)
  then have sums: "last_credit 0 ''BTC'' (entries (leaf_amounts (hd (pr_leaves service_request)))) = 7 * 10 ^ 18"
    "leaf_credit ''BTC'' (entries (leaf_amounts (hd (pr_leaves service_request)))) = 12 * 10 ^ 18"
    "leaf_debt ''USD'' (entries (leaf_amounts (hd (pr_leaves service_request)))) = 2 * 10 ^ 18"
    by (simp_all add: service_request_def credit_def debt_def leaf_credit_def strip_prefix_def)
  have one: "pr_leaves service_request = [hd (pr_leaves service_request)]"
    by (simp add: service_request_def)
  have "declared_amount (din_bad_debt (pr_disclosures service_request)) ''USD'' = 0"
    by (simp add: service_request_def declared_amount_def)
  with service_totals_exact [OF d] sums d show ?thesis
    by (subst (asm) (1 2) one, subst one, intro exI [of _ d]) simp
qed

text \<open>
  C19. What the service delivers passes the verifier end to end: with the delivered files in a
  directory, and decoders that read those files back, \<open>verify-pack\<close> under the key the service
  returned exits 0 exactly when the published report is well formed and lists an asset; a request
  whose customers hold nothing at all is published, and refused by every reader.
\<close>

theorem service_delivery_verifies:
  assumes "hex_spec C" "hex_lower C" "ed25519_spec C"
    and "publish_documents C E req signer slt = Ok d" "reads_back D E d"
    and "holds_delivery F dir (rs_files (response_of C E signer d))"
    and "parse_args argv = Ok (CmdVerifyPack dir (rs_public_key (response_of C E signer d)) json)"
  shows "do_publish C E req signer slt = Ok (response_of C E signer d) \<and>
    (main_exit C D F argv = 0 \<longleftrightarrow>
       well_formed_report (report (doc_report d)) \<and> \<not> bis_empty (root_sums (report (doc_report d))))"
proof -
  have "rs_public_key (response_of C E signer d) = public_key_hex C signer"
    by (simp add: response_of_def Let_def)
  then show ?thesis
    using delivery_passes_iff [OF assms(1-6)]
    by (simp add: main_exit_parsed [OF assms(7)] command_exit_def publishable_def do_publish_def assms(4))
qed

theorem service_delivery_verifies_witness:
  "\<exists>d. publish_documents sample_crates service_encoders service_request venue_signer service_salt = Ok d \<and>
     main_exit sample_crates (service_decoders d)
       (directory_of (rs_files (response_of sample_crates service_encoders venue_signer d)))
       [''verify-pack'', ''--pack-dir'', ''d'', ''--key'', public_key_hex sample_crates venue_signer] = 0"
proof -
  obtain d where d: "publish_documents sample_crates service_encoders service_request venue_signer service_salt = Ok d"
    using service_published ..
  let ?resp = "response_of sample_crates service_encoders venue_signer d"
  let ?argv = "[''verify-pack'', ''--pack-dir'', ''d'', ''--key'', public_key_hex sample_crates venue_signer]"
  have "length (doc_proofs d) = 1"
    using arg_cong [OF service_report_totals(4) [OF d], of length] by (simp add: service_request_def)
  then obtain p where p: "doc_proofs d = [p]" by (auto simp: length_Suc_conv)
  have utf: "valid_utf8 [c, CHR 0x0A]" if "c \<in> set ''RAPK''" for c
    using that by (intro valid_utf8_ascii) auto
  have codec: "reads_back (service_decoders d) service_encoders d"
    using utf by (auto simp: reads_back_def Let_def service_decoders_def service_encoders_def pretty_def p
        parse_proof_def sample_decoders_def is_ok_def PROOF_FORMAT_VERSION_def PROOF_FORMAT_VERSION_V2_def)
  have argv: "parse_args ?argv = Ok (CmdVerifyPack ''d'' (rs_public_key ?resp) False)"
    using parse_pack [OF key_hex_venue] by (simp add: response_of_def Let_def)
  have "manifest (report (doc_report d)) = None" "format_version (report (doc_report d)) = REPORT_FORMAT_VERSION"
    by (rule publish_documents_Ok [OF d], auto simp: publish_Ok_iff sign_report_def report_of_def service_request_def)+
  moreover have "''BTC'' \<in> set (bkeys (root_sums (report (doc_report d))))"
    unfolding service_report_totals(3) [OF d]
    by (simp add: service_request_def bkeys_def service_entries)
  ultimately show ?thesis
    using service_delivery_verifies [OF sample_hex_spec sample_hex_lower sample_ed25519_spec d codec
        directory_holds [OF delivery_names_distinct [OF sample_hex_lower d]] argv] d
    by (auto simp: well_formed_report_def bis_empty_iff)
qed

subsection \<open>The service's keys\<close>


text \<open>
  C36. The first request is not safe from a second one: when an organisation has no key yet, two
  requests served at the same time can both succeed and be answered with different keys, of which
  only the second stays on disk; the key the first request was told is one that no later report
  of the organisation is signed with.
\<close>

theorem first_use_splits_key:
  assumes "aead_spec A" "path_for K org = Ok path" "files S path = None" "writable S (tmp_path path)"
    and "req_org r1 = org" "req_org r2 = org" "req_seed r1 \<noteq> req_seed r2"
    and "sealed_seed A K org (req_seed r1) (req_nonce r1) = Ok out1"
    and "sealed_seed A K org (req_seed r2) (req_nonce r2) = Ok out2"
  shows "\<exists>s1 s2 T. s1 \<noteq> s2 \<and>
    (serves A K [r1, r2])\<^sup>*\<^sup>* (arrivals [r1, r2], S) ([Finished (Ok s1), Finished (Ok s2)], T) \<and>
    (\<forall>r. req_org r = org \<longrightarrow> signer_for A K r T = (Ok s2, T))"
proof -
  obtain T where T: "(serves A K [r1, r2])\<^sup>*\<^sup>* (arrivals [r1, r2], S)
      ([Finished (Ok \<lparr>seed = req_seed r1\<rparr>), Finished (Ok \<lparr>seed = req_seed r2\<rparr>)], T)"
      "holds_key A K org \<lparr>seed = req_seed r2\<rparr> T"
    using first_use_race [OF assms(1-6,8,9)] by blast
  have "signer_for A K r T = (Ok \<lparr>seed = req_seed r2\<rparr>, T)" if "req_org r = org" for r
    using signer_for_held [of A K r _ T] T(2) that by simp
  moreover have "\<lparr>seed = req_seed r1\<rparr> \<noteq> \<lparr>seed = req_seed r2\<rparr>" using assms(7) by simp
  ultimately show ?thesis using T(1) by blast
qed

text \<open>A cipher that appends the tag of its associated data, and a store without files.\<close>

definition toy_tag :: "bytes \<Rightarrow> bytes" where "toy_tag aad = take 16 (aad @ replicate 16 CHR ''t'')"

definition toy_aead :: aead where
  "toy_aead = \<lparr>
     aead_encrypt = (\<lambda>key nonce msg aad. Some (msg @ toy_tag aad)),
     aead_decrypt = (\<lambda>key nonce c aad.
       if drop (length c - 16) c = toy_tag aad then Some (take (length c - 16) c) else None)\<rparr>"

lemma toy_aead_spec: "aead_spec toy_aead"
proof -
  have "length (toy_tag aad) = 16" for aad by (simp add: toy_tag_def min_def)
  then show ?thesis by (simp add: aead_spec_def toy_aead_def)
qed

definition empty_store :: store where
  "empty_store = \<lparr>files = (\<lambda>_. None), writable = (\<lambda>_. True)\<rparr>"

definition service_keys :: Keystore where "service_keys = \<lparr>ks_dir = ''keys'', kek = mk32 ''kek''\<rparr>"

definition key_request :: "string \<Rightarrow> string \<Rightarrow> request" where
  "key_request org draw = \<lparr>req_org = org, req_seed = mk32 draw, req_nonce = mk12 (replicate 12 CHR ''n'')\<rparr>"

lemma key_request_parts:
  "path_for service_keys ''acme'' = Ok ''keys/acme.key''"
  "\<exists>out. sealed_seed toy_aead service_keys ''acme'' s n = Ok out"
  by (simp_all add: path_for_def service_keys_def join_path_def is_ascii_alphanumeric_def sealed_seed_def toy_aead_def)

lemma draws_differ: "mk32 ''x'' \<noteq> mk32 ''y''"
proof
  assume "mk32 ''x'' = mk32 ''y''"
  then have "hd (arr32 (mk32 ''x'')) = hd (arr32 (mk32 ''y''))" by simp
  then show False by simp
qed

theorem first_use_splits_key_witness:
  "\<exists>s1 s2 T. s1 \<noteq> s2 \<and>
    (serves toy_aead service_keys [key_request ''acme'' ''x'', key_request ''acme'' ''y''])\<^sup>*\<^sup>*
      (arrivals [key_request ''acme'' ''x'', key_request ''acme'' ''y''], empty_store)
      ([Finished (Ok s1), Finished (Ok s2)], T)"
proof -
  obtain out1 out2 where out: "sealed_seed toy_aead service_keys ''acme'' (mk32 ''x'') (req_nonce (key_request ''acme'' ''x'')) = Ok out1"
      "sealed_seed toy_aead service_keys ''acme'' (mk32 ''y'') (req_nonce (key_request ''acme'' ''y'')) = Ok out2"
    using key_request_parts(2) by metis
  have "\<exists>s1 s2 T. s1 \<noteq> s2 \<and>
    (serves toy_aead service_keys [key_request ''acme'' ''x'', key_request ''acme'' ''y''])\<^sup>*\<^sup>*
      (arrivals [key_request ''acme'' ''x'', key_request ''acme'' ''y''], empty_store)
      ([Finished (Ok s1), Finished (Ok s2)], T) \<and>
    (\<forall>r. req_org r = ''acme'' \<longrightarrow> signer_for toy_aead service_keys r T = (Ok s2, T))"
    by (rule first_use_splits_key [OF toy_aead_spec key_request_parts(1)])
      (simp_all add: empty_store_def key_request_def draws_differ out [unfolded key_request_def, simplified])
  then show ?thesis by blast
qed


text \<open>
  The service compares the ledger offset of a custody read with itself: no request is refused for
  naming another offset than the one its liabilities were read at.
\<close>

lemma custody_offset_never_refused:
  "do_custody C J E req signer slt \<noteq> Err (ServiceAttest (OtherOffset a b))"
proof
  assume err: "do_custody C J E req signer slt = Err (ServiceAttest (OtherOffset a b))"
  have parse: "parse_holdings J body hf \<noteq> Err (OtherOffset a b)" for body hf
  proof -
    have "position_of hf created cid \<noteq> Err (OtherOffset a b)" for created cid
      by (auto simp: position_of_def and_then_eq_Err ok_or_def map_err_def split: option.splits sum.splits)
    moreover have "created_event item \<noteq> Err (OtherOffset a b)" for item
      by (auto simp: created_event_def and_then_eq_Err ok_or_def map_err_def split: option.splits sum.splits)
    ultimately have "read_positions hf seen items \<noteq> Err (OtherOffset a b)" for seen items
      by (induction items arbitrary: seen)
        (auto simp: and_then_eq_Err ensure_def split: if_splits)
    then show ?thesis by (auto simp: parse_holdings_def and_then_eq_Err ok_or_def map_err_def split: option.splits sum.splits)
  qed
  have "add_positions ps m \<noteq> Err (OtherOffset a b)" for ps m
    by (induction ps m rule: add_positions.induct) (auto split: option.splits)
  then have tot: "totals ps \<noteq> Err (OtherOffset a b)" for ps
    by (simp add: totals_def)
  have "build_custody_report C ps (custody_meta req) (cr_ledger_offset req) s sg \<noteq> Err (OtherOffset a b)" for ps s sg
    by (auto simp: build_custody_report_def custody_meta_def CUSTODY_PROFILE_def Let_def and_then_eq_Err ensure_def
        map_err_def split: if_splits sum.splits)
  with err parse tot show False
    by (auto simp: do_custody_def and_then_eq_Err ensure_def map_err_def split: if_splits sum.splits)
qed

subsection \<open>The server\<close>

text \<open>
  C37. A publication is signed under the key the service announced. Once a started service has answered
  an organisation's key request, a publication it then answers for the organisation returns the same key and
  creates no other: the delivered report and the delivered pack, which names the report's digest, carry
  the key, and their signatures verify under it. Every route but the health check refuses a caller who does not
  present exactly \<open>Bearer\<close> and the configured token of at least 32 bytes, and changes nothing; the health
  check answers anyone and changes nothing.
\<close>

theorem announced_key_signs:
  assumes "aead_spec A" "hex_spec C" "ed25519_spec C" "start_service C env S0 = Ok (app, S)"
    and "respond C J E A app h1 (RouteProtected (CallKeys org)) d1 S = (AnswerKey k, S1)"
    and "respond C J E A app h2 (RouteProtected (CallPublish req)) d2 S1 = (AnswerPublish resp, S2)" "pr_org req = org"
  shows "rs_public_key resp = k \<and> signed_delivery C E k resp \<and> S2 = S1 \<and>
    (\<exists>tok. env ''SERVICE_TOKEN'' = Some tok \<and> 32 \<le> length tok \<and> h1 = Some (''Bearer '' @ tok) \<and>
       (\<forall>h call d T. h \<noteq> Some (''Bearer '' @ tok) \<longrightarrow>
          respond C J E A app h (RouteProtected call) d T = (Unauthorized, T))) \<and>
    (\<forall>h d T. respond C J E A app h RouteHealth d T = (AnswerHealth, T))"
proof -
  note tok = start_service_token [OF assms(4)]
  then have guard: "require_token app h \<longleftrightarrow> h = Some (''Bearer '' @ app_token app)" for h
    by (intro require_token_iff) auto
  have calls: "handle C J E A app h1 (CallKeys org) d1 S = (AnswerKey k, S1)"
    "handle C J E A app h2 (CallPublish req) d2 S1 = (AnswerPublish resp, S2)"
    using assms(5,6) by (simp_all add: respond_def)
  obtain sg where sg: "AnswerKey k = answer C J E sg (draw_salt d1) (CallKeys org)"
      "AnswerPublish resp = answer C J E sg (draw_salt d2) (CallPublish req)" "S2 = S1"
    using handle_keeps_key [OF assms(1) calls(1) _ calls(2)] assms(7) by auto
  then have key: "k = public_key_hex C sg" "rs_public_key resp = k"
    using answer_key(1,2) by metis+
  have "signed_delivery C E k resp"
    unfolding key(1) using sg(2) by (intro published_signed [OF assms(2,3)]) (auto split: sum.splits)
  moreover have "h1 = Some (''Bearer '' @ app_token app)"
    using calls(1) guard by (auto simp: handle_def split: if_splits)
  moreover have "respond C J E A app h (RouteProtected call) d T = (Unauthorized, T)"
    if "h \<noteq> Some (''Bearer '' @ app_token app)" for h call d T
    using that guard by (simp add: respond_def handle_def)
  moreover have "respond C J E A app h RouteHealth d T = (AnswerHealth, T)" for h d T
    by (simp add: respond_def)
  ultimately show ?thesis using tok key(2) sg(3) by blast
qed

definition service_env :: "string \<Rightarrow> string option" where
  "service_env = [''SERVICE_TOKEN'' \<mapsto> replicate 32 CHR ''t'', ''SERVICE_KEK'' \<mapsto> replicate 64 CHR ''0'']"

definition service_draws :: draws where
  "service_draws = \<lparr>draw_seed = seed venue_signer, draw_nonce = mk12 (replicate 12 CHR ''n''), draw_salt = service_salt\<rparr>"

lemma service_starts:
  "\<exists>K. start_service sample_crates service_env empty_store = Ok (\<lparr>app_keystore = K, app_token = replicate 32 CHR ''t''\<rparr>, empty_store)"
proof -
  have "trim (replicate 64 CHR ''0'') = replicate 64 CHR ''0''"
    by (rule trim_plain) (simp add: plain_char_def list_all_iff)
  moreover have "unhex (replicate 64 CHR ''0'') = Some (replicate 32 (char_of (0 :: nat)))"
    by (simp add: numeral_eq_Suc hex_value_def)
  ultimately show ?thesis
    by (simp add: start_service_def service_env_def open_keystore_def Let_def write_file_def empty_store_def
        remove_file_def sample_crates_def try32_def fun_upd_idem)
qed

theorem announced_key_signs_witness:
  "\<exists>app k resp S1. start_service sample_crates service_env empty_store = Ok (app, empty_store) \<and>
     respond sample_crates (responds []) service_encoders toy_aead app (Some (''Bearer '' @ replicate 32 CHR ''t''))
       (RouteProtected (CallKeys ''venue'')) service_draws empty_store = (AnswerKey k, S1) \<and>
     respond sample_crates (responds []) service_encoders toy_aead app (Some (''Bearer '' @ replicate 32 CHR ''t''))
       (RouteProtected (CallPublish service_request)) service_draws S1 = (AnswerPublish resp, S1) \<and>
     rs_public_key resp = k \<and> signed_delivery sample_crates service_encoders k resp"
proof -
  obtain K where start: "start_service sample_crates service_env empty_store =
      Ok (\<lparr>app_keystore = K, app_token = replicate 32 CHR ''t''\<rparr>, empty_store)"
    using service_starts ..
  let ?app = "\<lparr>app_keystore = K, app_token = replicate 32 CHR ''t''\<rparr>"
  let ?h = "Some (''Bearer '' @ replicate 32 CHR ''t'')"
  let ?q = "\<lparr>req_org = ''venue'', req_seed = draw_seed service_draws, req_nonce = draw_nonce service_draws\<rparr>"
  have guard: "require_token ?app ?h" by (subst require_token_iff) simp_all
  have path: "\<exists>path. path_for K ''venue'' = Ok path" by (simp add: path_for_def is_ascii_alphanumeric_def)
  then obtain S1 where first: "signer_for toy_aead K ?q empty_store = (Ok venue_signer, S1)"
    by (auto simp: signer_for_def empty_store_def seal_def sealed_seed_def toy_aead_def write_file_def rename_file_def
        service_draws_def)
  have org: "pr_org service_request = ''venue''" by (simp add: service_request_def)
  have "signer_for toy_aead K ?q S1 = (Ok venue_signer, S1)"
    by (rule signer_for_held) (use signer_for_holds [OF toy_aead_spec first] in simp)
  moreover obtain d where "publish_documents sample_crates service_encoders service_request venue_signer service_salt = Ok d"
    using service_published ..
  ultimately have second: "respond sample_crates (responds []) service_encoders toy_aead ?app ?h
      (RouteProtected (CallPublish service_request)) service_draws S1 = (AnswerPublish (response_of sample_crates service_encoders venue_signer d), S1)"
    using guard by (simp add: respond_def handle_def org do_publish_def service_draws_def)
  have keyed: "respond sample_crates (responds []) service_encoders toy_aead ?app ?h
      (RouteProtected (CallKeys ''venue'')) service_draws empty_store = (AnswerKey (public_key_hex sample_crates venue_signer), S1)"
    using guard first by (simp add: respond_def handle_def)
  from announced_key_signs [OF toy_aead_spec sample_hex_spec sample_ed25519_spec start keyed second org]
  show ?thesis using start keyed second by blast
qed

end
