(* ===== verification/Publisher.thy ===== *)
theory Publisher
  imports Delivery
begin

text \<open>
  The publisher binary, \<open>solvency-report/src/bin/publish.rs\<close>: a CSV of balances and a seed
  become a delivery in a directory. The directory is the state, a map from file names to
  contents; every return of \<open>main\<close> is an exit code with the directory it leaves. Writing a file
  is taken to succeed; the text the program prints is left out.
\<close>

subsection \<open>Arguments\<close>

record PublisherArgs =
  pa_balances :: string
  pa_key_file :: string
  pa_publisher :: string
  pa_snapshot_time :: string
  pa_ledger_offset :: string
  pa_out :: string
  pa_manifest :: "string option"
  pa_prev_anchor :: "string option"

datatype args_stop = HelpShown | NeedsValue string | RequiredFlag string

text \<open>Flags and values in turn; a later flag replaces an earlier one, unknown ones are kept.\<close>

fun read_flags :: "string list \<Rightarrow> string bmap \<Rightarrow> args_stop + string bmap" where
  "read_flags [] flags = Ok flags"
| "read_flags (flag # rest) flags =
     (if flag = ''--help'' \<or> flag = ''-h'' then Err HelpShown
      else (case rest of
              [] \<Rightarrow> Err (NeedsValue flag)
            | val # rest' \<Rightarrow> read_flags rest' (binsert flag val flags)))"

definition publisher_args :: "string list \<Rightarrow> args_stop + PublisherArgs" where
  "publisher_args argv =
     and_then (read_flags argv bempty) (\<lambda>flags.
     (let need = (\<lambda>name. ok_or (bget flags name) (RequiredFlag name)) in
      and_then (need ''--balances'') (\<lambda>b.
      and_then (need ''--key-file'') (\<lambda>k.
      and_then (need ''--publisher'') (\<lambda>p.
      and_then (need ''--snapshot-time'') (\<lambda>t.
      and_then (need ''--ledger-offset'') (\<lambda>l.
      and_then (need ''--out'') (\<lambda>d.
      Ok \<lparr>pa_balances = b, pa_key_file = k, pa_publisher = p, pa_snapshot_time = t, pa_ledger_offset = l,
          pa_out = d, pa_manifest = bget flags ''--manifest'',
          pa_prev_anchor = bget flags ''--prev-anchor''\<rparr>))))))))"

subsection \<open>Reading the inputs\<close>

datatype publisher_error =
    Unreadable string
  | KeyNotHex
  | SeedNot32
  | MalformedRow nat
  | RowAmount nat merkle_error
  | RowTwice nat string string
  | NoBalances
  | Unparsable string
  | PublishRefused publish_error
  | PackNotBuilt pack_failure

definition read_input :: "filesystem \<Rightarrow> string \<Rightarrow> publisher_error + bytes" where
  "read_input F path = map_err (\<lambda>_. Unreadable path) (read_text F path)"

definition read_seed :: "crates \<Rightarrow> filesystem \<Rightarrow> string \<Rightarrow> publisher_error + b32" where
  "read_seed C F path =
     and_then (read_input F path) (\<lambda>t.
     and_then (ok_or (hex_decode C (trim t)) KeyNotHex) (\<lambda>bs.
     ok_or (try32 bs) SeedNot32))"

text \<open>\<open>str::lines\<close>: a line ends at its line feed, and a carriage return before that is no part of it; the
  text after the last line feed is a line, as it is, when there is some.\<close>

definition text_lines :: "string \<Rightarrow> string list" where
  "text_lines s =
     (let ps = split_on (CHR 0x0A) s in
      map (\<lambda>l. if l \<noteq> [] \<and> last l = CHR 0x0D then butlast l else l) (butlast ps) @
      (if last ps = [] then [] else [last ps]))"

text \<open>The cells of a line, none for a blank one.\<close>

definition row_cells :: "string \<Rightarrow> string list option" where
  "row_cells line = (let l = trim line in if l = [] then None else Some (map trim (split_on CHR '','' l)))"

definition row_of :: "nat \<Rightarrow> string list \<Rightarrow> publisher_error + string \<times> string \<times> u128" where
  "row_of n cols =
     and_then (ensure (\<not> (length cols < 3 \<or> cols ! 0 = [] \<or> cols ! 1 = [])) (MalformedRow n)) (\<lambda>_.
     and_then (map_err (RowAmount n) (parse_amount_18dp (cols ! 2))) (\<lambda>amount.
     Ok (cols ! 0, cols ! 1, amount)))"

text \<open>\<open>entry(user).or_default()\<close>.\<close>

definition balances_of :: "u128 bmap bmap \<Rightarrow> string \<Rightarrow> u128 bmap" where
  "balances_of users user = (case bget users user of Some bal \<Rightarrow> bal | None \<Rightarrow> bempty)"

fun read_rows :: "(nat \<times> string) list \<Rightarrow> u128 bmap bmap \<Rightarrow> publisher_error + u128 bmap bmap" where
  "read_rows [] users = Ok users"
| "read_rows ((i, line) # rest) users =
     (case row_cells line of
        None \<Rightarrow> read_rows rest users
      | Some cols \<Rightarrow>
          and_then (row_of (i + 1) cols) (\<lambda>(user, asset, amount).
          and_then (ensure (bget (balances_of users user) asset = None) (RowTwice (i + 1) asset user)) (\<lambda>_.
          read_rows rest (binsert user (binsert asset amount (balances_of users user)) users))))"

text \<open>\<open>sort_by\<close> is stable and compares the salts, then the identifiers.\<close>

definition csv_leaves :: "crates \<Rightarrow> bytes \<Rightarrow> bytes \<Rightarrow> publisher_error + LeafInput list" where
  "csv_leaves C master_salt csv =
     and_then (read_rows (List.enumerate 0 (text_lines csv)) bempty) (\<lambda>users.
     and_then (ensure (\<not> bis_empty users) NoBalances) (\<lambda>_.
     Ok (sort_key (\<lambda>l. arr32 (in_salt l)) (sort_key in_user_id (leaves_in C master_salt users)))))"

definition read_balance_file :: "crates \<Rightarrow> filesystem \<Rightarrow> string \<Rightarrow> bytes \<Rightarrow> publisher_error + LeafInput list" where
  "read_balance_file C F path master_salt = and_then (read_input F path) (csv_leaves C master_salt)"

definition read_json :: "filesystem \<Rightarrow> (bytes \<Rightarrow> string + 'a) \<Rightarrow> string \<Rightarrow> publisher_error + 'a" where
  "read_json F parse path = and_then (read_input F path) (\<lambda>t. map_err (\<lambda>_. Unparsable path) (parse t))"

definition read_optional :: "filesystem \<Rightarrow> (bytes \<Rightarrow> string + 'a) \<Rightarrow> string option \<Rightarrow> publisher_error + 'a option" where
  "read_optional F parse path =
     (case path of None \<Rightarrow> Ok None | Some p \<Rightarrow> and_then (read_json F parse p) (\<lambda>x. Ok (Some x)))"

subsection \<open>File names\<close>

definition safe_char :: "bytes \<Rightarrow> char" where
  "safe_char c = (case c of [b] \<Rightarrow> if is_ascii_alphanumeric b then b else CHR ''_'' | _ \<Rightarrow> CHR ''_'')"

definition sanitised :: "string \<Rightarrow> string" where
  "sanitised user = map safe_char (utf8_chars user)"

definition proof_filename :: "crates \<Rightarrow> string \<Rightarrow> string" where
  "proof_filename C user =
     (if sanitised user = user then ''proof-'' @ sanitised user @ ''.json''
      else ''proof-'' @ sanitised user @ ''-'' @ take 8 (hex_encode C (arr32 (sha256 C user))) @ ''.json'')"

subsection \<open>The program\<close>

record PublisherRun =
  run_report :: SignedReport
  run_anchor :: Anchor
  run_proofs :: "ProofDocument list"
  run_signer :: ReportSigner

definition publisher_meta :: "PublisherArgs \<Rightarrow> Manifest option \<Rightarrow> ReportMetadata" where
  "publisher_meta A m =
     \<lparr>meta_profile = ''solvency.liabilities'', meta_publisher = pa_publisher A,
      meta_snapshot_time = pa_snapshot_time A, meta_ledger_offset = pa_ledger_offset A,
      meta_mark_prices = bempty,
      meta_disclosures = \<lparr>bad_debt = bempty, excluded_house_accounts = 0, excluded_house_totals = bempty\<rparr>,
      meta_manifest = m\<rparr>"

text \<open>\<open>main\<close> up to the first write.\<close>

definition publisher_run :: "crates \<Rightarrow> (bytes \<Rightarrow> string + Manifest) \<Rightarrow> (bytes \<Rightarrow> string + Anchor) \<Rightarrow>
    filesystem \<Rightarrow> PublisherArgs \<Rightarrow> publisher_error + PublisherRun" where
  "publisher_run C de_man de_anc F A =
     and_then (read_seed C F (pa_key_file A)) (\<lambda>sd.
     (let signer = \<lparr>seed = sd\<rparr>;
          master_salt = hex_encode C (arr32 sd) @ ''-'' @ pa_snapshot_time A in
      and_then (read_balance_file C F (pa_balances A) master_salt) (\<lambda>leaves.
      and_then (read_optional F de_man (pa_manifest A)) (\<lambda>m.
      and_then (map_err PublishRefused (publish C leaves (publisher_meta A m) signer)) (\<lambda>pub.
      and_then (read_optional F de_anc (pa_prev_anchor A)) (\<lambda>previous.
      Ok \<lparr>run_report = signed_report pub, run_anchor = anchor_report C (signed_report pub) previous,
          run_proofs = proofs pub, run_signer = signer\<rparr>))))))"

definition publisher_files :: "crates \<Rightarrow> encoders \<Rightarrow> PublisherRun \<Rightarrow> FileOut list" where
  "publisher_files C E r =
     \<lparr>file_name = ''report.json'', file_content = pretty (en_report E) (run_report r)\<rparr> #
     \<lparr>file_name = ''anchor.json'', file_content = pretty (en_anchor E) (run_anchor r)\<rparr> #
     map (\<lambda>p. \<lparr>file_name = proof_filename C (proof_user p), file_content = pretty (en_proof E) p\<rparr>) (run_proofs r)"

text \<open>The writes, in order; the pack is built over the bytes that were written.\<close>

definition write_files :: "FileOut list \<Rightarrow> bytes bmap \<Rightarrow> bytes bmap" where
  "write_files fs dir = fold (\<lambda>f. binsert (file_name f) (file_content f)) fs dir"

definition publisher_pack :: "crates \<Rightarrow> encoders \<Rightarrow> PublisherRun \<Rightarrow> pack_failure + SignedPack" where
  "publisher_pack C E r =
     build_pack C (publisher (report (run_report r))) (snapshot_time (report (run_report r)))
       (report_digest_hex C (report (run_report r)))
       (map (\<lambda>f. (file_name f, file_content f)) (publisher_files C E r)) (run_signer r)"

definition publisher_main :: "crates \<Rightarrow> (bytes \<Rightarrow> string + Manifest) \<Rightarrow> (bytes \<Rightarrow> string + Anchor) \<Rightarrow> encoders \<Rightarrow>
    filesystem \<Rightarrow> string list \<Rightarrow> bytes bmap \<Rightarrow> nat \<times> bytes bmap" where
  "publisher_main C de_man de_anc E F argv dir =
     (case publisher_args argv of
        Inl HelpShown \<Rightarrow> (0, dir)
      | Inl _ \<Rightarrow> (2, dir)
      | Inr A \<Rightarrow>
          (case publisher_run C de_man de_anc F A of
             Inl _ \<Rightarrow> (1, dir)
           | Inr r \<Rightarrow>
               (let written = write_files (publisher_files C E r) dir in
                case publisher_pack C E r of
                  Inl _ \<Rightarrow> (1, written)
                | Inr sp \<Rightarrow> (0, binsert PACK_FILE (pretty (en_pack E) sp) written))))"

lemma publisher_files_named:
  "publisher_files C E r = named_files (proof_filename C) E (run_report r) (run_anchor r) (run_proofs r)"
  by (simp add: publisher_files_def named_files_def)

subsection \<open>What a balance file reads to\<close>

text \<open>The rows of a file, and when each of them is well formed.\<close>

type_synonym csv_row = "string \<times> string \<times> u128"

definition line_row :: "string \<Rightarrow> csv_row option" where
  "line_row line = Option.bind (row_cells line) (\<lambda>cols. case row_of 0 cols of Inl _ \<Rightarrow> None | Inr r \<Rightarrow> Some r)"

definition line_ok :: "string \<Rightarrow> bool" where
  "line_ok line \<longleftrightarrow> row_cells line = None \<or> line_row line \<noteq> None"

definition csv_rows :: "string list \<Rightarrow> csv_row list" where
  "csv_rows lines = List.map_filter line_row lines"

definition row_key :: "csv_row \<Rightarrow> string \<times> string" where
  "row_key r = (fst r, fst (snd r))"

definition add_row :: "csv_row \<Rightarrow> u128 bmap bmap \<Rightarrow> u128 bmap bmap" where
  "add_row = (\<lambda>(user, asset, amount) users. binsert user (binsert asset amount (balances_of users user)) users)"

lemma row_of_any: "row_of n cols = Inr r \<longleftrightarrow> row_of 0 cols = Inr r"
  by (auto simp: row_of_def)

lemma line_row_iff:
  "row_cells line = Some cols \<Longrightarrow> row_of n cols = Inr r \<longleftrightarrow> line_row line = Some r"
  by (auto simp: line_row_def row_of_any [of n] split: sum.splits)

lemma balances_of_binsert: "balances_of (binsert u m users) v = (if v = u then m else balances_of users v)"
  by (simp add: balances_of_def bget_binsert)

lemma read_rows_Ok_iff:
  "read_rows ils users = Inr users' \<longleftrightarrow>
     (\<forall>(i, l) \<in> set ils. line_ok l) \<and>
     (let rs = csv_rows (map snd ils) in
      distinct (map row_key rs) \<and> (\<forall>(u, a, v) \<in> set rs. bget (balances_of users u) a = None) \<and>
      users' = fold add_row rs users)"
proof (induction ils arbitrary: users)
  case Nil
  then show ?case by (auto simp: csv_rows_def map_filter_simps)
next
  case (Cons il rest)
  obtain i line where il: "il = (i, line)" by fastforce
  show ?case
  proof (cases "row_cells line")
    case None
    with Cons show ?thesis
      by (simp add: il line_ok_def csv_rows_def map_filter_simps line_row_def)
  next
    case (Some cols)
    show ?thesis
    proof (cases "row_of (i + 1) cols")
      case (Inl e)
      then have "line_row line = None"
        using line_row_iff [OF Some, of "i + 1"] by (cases "line_row line") auto
      with Inl Some show ?thesis by (simp add: il line_ok_def)
    next
      case (Inr r)
      obtain u a v where r: "r = (u, a, v)" by (cases r) auto
      have row: "line_row line = Some (u, a, v)" using Inr line_row_iff [OF Some] r by blast
      let ?users = "binsert u (binsert a v (balances_of users u)) users"
      let ?rs = "csv_rows (map snd rest)"
      have keyed: "row_key (u, a, v) = (u, a)" and added: "add_row (u, a, v) users = ?users"
        by (simp_all add: row_key_def add_row_def)
      have rows: "csv_rows (map snd (il # rest)) = (u, a, v) # ?rs"
        by (simp add: csv_rows_def map_filter_simps il row)
      have pt: "bget (balances_of ?users u') a' = None \<longleftrightarrow> (u', a') \<noteq> (u, a) \<and> bget (balances_of users u') a' = None"
        for u' a' by (simp add: balances_of_binsert bget_binsert)
      have fresh: "(\<forall>(u', a', v') \<in> set ?rs. bget (balances_of ?users u') a' = None) \<longleftrightarrow>
          (u, a) \<notin> row_key ` set ?rs \<and> (\<forall>(u', a', v') \<in> set ?rs. bget (balances_of users u') a' = None)"
        unfolding pt row_key_def by (force simp: image_iff)
      show ?thesis
      proof (cases "bget (balances_of users u) a")
        case None
        then have "read_rows (il # rest) users = read_rows rest ?users"
          using Inr by (simp add: il Some r)
        with None Cons.IH [of ?users] fresh show ?thesis
          unfolding rows Let_def by (simp add: il line_ok_def row keyed added) blast
      next
        case b: (Some w)
        then have "read_rows (il # rest) users = Err (RowTwice (i + 1) a u)"
          using Inr by (simp add: il Some r ensure_def)
        with b show ?thesis unfolding rows Let_def by simp
      qed
    qed
  qed
qed

text \<open>One customer's balances are what the customer's rows say, whatever rows stand between them.\<close>

definition rows_for :: "string \<Rightarrow> csv_row list \<Rightarrow> (string \<times> u128) list" where
  "rows_for u rs = map snd (filter (\<lambda>r. fst r = u) rs)"

lemma balances_of_fold:
  "balances_of (fold add_row rs users) u = fold (\<lambda>(a, v). binsert a v) (rows_for u rs) (balances_of users u)"
  by (induction rs arbitrary: users) (auto simp: rows_for_def add_row_def balances_of_binsert)

lemma bkeys_fold_add_row: "set (bkeys (fold add_row rs users)) = set (bkeys users) \<union> fst ` set rs"
  by (induction rs arbitrary: users) (auto simp: add_row_def bkeys_binsert)

lemma bget_balances_of: "bget m u = (if u \<in> set (bkeys m) then Some (balances_of m u) else None)"
  by (auto simp: balances_of_def bkeys_bget)

lemma rows_for_distinct: "distinct (map row_key rs) \<Longrightarrow> distinct (map fst (rows_for u rs))"
  by (induction rs) (force simp: rows_for_def row_key_def)+

text \<open>The order of the rows does not show.\<close>

lemma fold_add_row_order:
  assumes "distinct (map row_key rs)" "distinct (map row_key rs')" "set rs = set rs'"
  shows "fold add_row rs bempty = fold add_row rs' bempty"
proof (rule bm.ext, rule ext)
  fix u
  have "set (rows_for u rs) = set (rows_for u rs')" using assms(3) by (auto simp: rows_for_def)
  then have "balances_of (fold add_row rs bempty) u = balances_of (fold add_row rs' bempty) u"
    unfolding balances_of_fold using rows_for_distinct assms(1,2)
    by (simp add: balances_of_def) (rule bm.fold_insert_order)
  then show "bget (fold add_row rs bempty) u = bget (fold add_row rs' bempty) u"
    using assms(3) by (simp add: bget_balances_of bkeys_fold_add_row)
qed

text \<open>The amounts add up to those of the rows.\<close>

lemma amount_of_fold:
  assumes "distinct (map fst kvs)"
  shows "amount_of (fold (\<lambda>(a, v). binsert a v) kvs bempty) a = (\<Sum>(b, v) \<leftarrow> kvs. if b = a then unat v else 0)"
proof -
  have none: "(\<Sum>(b, v) \<leftarrow> kvs. if b = a then unat v else 0) = 0" if "a \<notin> fst ` set kvs" for kvs :: "(string \<times> u128) list"
    using that by (induction kvs) auto
  have "(\<Sum>(b, v) \<leftarrow> kvs. if b = a then unat v else 0) = (case map_of kvs a of None \<Rightarrow> 0 | Some v \<Rightarrow> unat v)"
    using assms
  proof (induction kvs)
    case (Cons kv kvs)
    then show ?case using none [of kvs] by (cases kv; cases "fst kv = a") simp_all
  qed simp
  then show ?thesis
    by (simp add: amount_of_def get0_def bget_bof_list [OF assms, unfolded bof_list_def] split: option.splits)
qed

definition csv_total :: "csv_row list \<Rightarrow> string \<Rightarrow> nat" where
  "csv_total rs a = (\<Sum>(u, b, v) \<leftarrow> rs. if b = a then unat v else 0)"

lemma user_total:
  assumes "distinct (map row_key rs)"
  shows "amount_of (balances_of (fold add_row rs bempty) u) a =
    (\<Sum>(u', b, v) \<leftarrow> rs. if u' = u \<and> b = a then unat v else 0)"
proof -
  have "(\<Sum>(b, v) \<leftarrow> rows_for u rs. if b = a then unat v else 0) =
      (\<Sum>(u', b, v) \<leftarrow> rs. if u' = u \<and> b = a then unat v else 0)"
    by (induction rs) (auto simp: rows_for_def)
  with amount_of_fold [OF rows_for_distinct [OF assms]] show ?thesis
    by (simp add: balances_of_fold balances_of_def [of bempty])
qed

lemma sum_users:
  assumes "finite U" "fst ` set rs \<subseteq> U"
  shows "(\<Sum>u \<in> U. \<Sum>(u', b, v) \<leftarrow> rs. if u' = u \<and> b = a then unat v else 0) = csv_total rs a"
  using assms
proof (induction rs)
  case (Cons r rs)
  obtain u b v where r: "r = (u, b, v)" by (cases r) auto
  have "(\<Sum>x \<in> U. if u = x \<and> b = a then unat v else 0) = (\<Sum>x \<in> U. if u = x then (if b = a then unat v else 0) else 0)"
    by (rule sum.cong) auto
  also have "\<dots> = (if b = a then unat v else 0)" using Cons.prems r by (simp add: sum.delta')
  finally show ?case using Cons r by (simp add: sum.distrib csv_total_def)
qed (simp add: csv_total_def)

lemma leaves_total:
  "(\<Sum>l \<leftarrow> leaves_in C slt users. amount_of (in_balances l) a) =
     (\<Sum>u \<in> set (bkeys users). amount_of (balances_of users u) a)"
proof -
  have bal: "snd kv = balances_of users (fst kv)" if "kv \<in> set (entries users)" for kv
    using that bm.get_Some_iff [of users "fst kv" "snd kv"] by (simp add: balances_of_def)
  have "(\<Sum>l \<leftarrow> leaves_in C slt users. amount_of (in_balances l) a) =
      (\<Sum>kv \<leftarrow> entries users. amount_of (balances_of users (fst kv)) a)"
    by (simp add: leaves_in_def comp_def split_beta) (rule arg_cong [of _ _ sum_list], simp add: bal)
  also have "\<dots> = (\<Sum>u \<leftarrow> bkeys users. amount_of (balances_of users u) a)"
    by (simp add: bkeys_def comp_def)
  also have "\<dots> = (\<Sum>u \<in> set (bkeys users). amount_of (balances_of users u) a)"
    by (rule sum_list_distinct_conv_sum_set) (simp add: bkeys_def bm.listing_distinct)
  finally show ?thesis .
qed

text \<open>A successful reading, said of the rows as a set.\<close>

definition csv_ok :: "bytes \<Rightarrow> bool" where
  "csv_ok csv \<longleftrightarrow> (\<forall>l \<in> set (text_lines csv). line_ok l) \<and>
     distinct (map row_key (csv_rows (text_lines csv))) \<and> csv_rows (text_lines csv) \<noteq> []"

lemma map_snd_enumerate [simp]: "map snd (List.enumerate n xs) = xs"
  by (induction xs arbitrary: n) auto

lemma csv_leaves_Ok_iff:
  "csv_leaves C slt csv = Ok ls \<longleftrightarrow> csv_ok csv \<and>
     ls = sort_key (\<lambda>l. arr32 (in_salt l)) (sort_key in_user_id
       (leaves_in C slt (fold add_row (csv_rows (text_lines csv)) bempty)))"
proof -
  have all: "(\<forall>(i, l) \<in> set (List.enumerate n xs). P l) \<longleftrightarrow> (\<forall>l \<in> set xs. P l)" for n and xs :: "string list" and P
    by (induction xs arbitrary: n) auto
  have "bis_empty (fold add_row rs bempty) \<longleftrightarrow> rs = []" for rs
    by (simp add: bis_empty_iff bkeys_fold_add_row) (simp add: bkeys_def)
  then show ?thesis
    by (auto simp: csv_leaves_def read_rows_Ok_iff csv_ok_def all Let_def balances_of_def [of bempty])
qed

lemma csv_leaves_total:
  assumes "csv_leaves C slt csv = Ok ls"
  shows "(\<Sum>l \<leftarrow> ls. amount_of (in_balances l) a) = csv_total (csv_rows (text_lines csv)) a"
proof -
  let ?rs = "csv_rows (text_lines csv)" and ?users = "fold add_row (csv_rows (text_lines csv)) bempty"
  have ok: "distinct (map row_key ?rs)" and ls: "mset ls = mset (leaves_in C slt ?users)"
    using assms by (auto simp: csv_leaves_Ok_iff csv_ok_def)
  have "(\<Sum>l \<leftarrow> ls. amount_of (in_balances l) a) = (\<Sum>l \<leftarrow> leaves_in C slt ?users. amount_of (in_balances l) a)"
    using arg_cong [OF ls, of "\<lambda>M. sum_mset (image_mset (\<lambda>l. amount_of (in_balances l) a) M)"]
    by (simp add: sum_mset_sum_list flip: mset_map)
  also have "\<dots> = csv_total ?rs a"
    by (simp add: leaves_total user_total [OF ok]) (rule sum_users, simp_all add: bkeys_fold_add_row)
  finally show ?thesis .
qed

lemma csv_leaves_order:
  assumes "csv_leaves C slt csv = Ok ls" "mset (text_lines csv) = mset (text_lines csv')"
  shows "csv_leaves C slt csv' = Ok ls"
proof -
  have rows: "mset (csv_rows (text_lines csv)) = mset (csv_rows (text_lines csv'))"
    using assms(2) by (simp add: csv_rows_def map_filter_def)
  have set: "set (text_lines csv) = set (text_lines csv')"
    "set (csv_rows (text_lines csv)) = set (csv_rows (text_lines csv'))"
    using assms(2) rows by (metis set_mset_mset)+
  have "distinct (map row_key (csv_rows (text_lines csv)))"
    using assms(1) by (simp add: csv_leaves_Ok_iff csv_ok_def)
  moreover have "mset (map row_key (csv_rows (text_lines csv))) = mset (map row_key (csv_rows (text_lines csv')))"
    using rows by simp
  ultimately have "distinct (map row_key (csv_rows (text_lines csv')))"
    by (metis mset_eq_imp_distinct_iff)
  with assms(1) set show ?thesis
    using fold_add_row_order [of "csv_rows (text_lines csv)" "csv_rows (text_lines csv')"]
    by (auto simp: csv_leaves_Ok_iff csv_ok_def)
qed

text \<open>The leaves come in the order of their salts.\<close>

lemma csv_leaves_sorted:
  assumes "csv_leaves C slt csv = Ok ls"
  shows "sorted (map (\<lambda>l. arr32 (in_salt l)) ls)"
    and "distinct (map in_user_id ls)" "\<forall>l \<in> set ls. in_salt l = leaf_salt C slt (in_user_id l)"
    and "in_user_id ` set ls = fst ` set (csv_rows (text_lines csv))"
proof -
  let ?users = "fold add_row (csv_rows (text_lines csv)) bempty"
  have ls: "ls = sort_key (\<lambda>l. arr32 (in_salt l)) (sort_key in_user_id (leaves_in C slt ?users))"
    using assms by (simp add: csv_leaves_Ok_iff)
  then show "sorted (map (\<lambda>l. arr32 (in_salt l)) ls)" by simp
  have m: "mset ls = mset (leaves_in C slt ?users)" by (simp add: ls)
  have ids: "map in_user_id (leaves_in C slt ?users) = bkeys ?users"
    by (simp add: leaves_in_def bkeys_def comp_def split_beta)
  have "mset (map in_user_id ls) = mset (bkeys ?users)" using m ids by (metis mset_map)
  moreover have "distinct (bkeys ?users)" by (simp add: bkeys_def bm.listing_distinct)
  ultimately show "distinct (map in_user_id ls)" by (metis mset_eq_imp_distinct_iff)
  have s: "set ls = set (leaves_in C slt ?users)" using m by (metis set_mset_mset)
  then show "\<forall>l \<in> set ls. in_salt l = leaf_salt C slt (in_user_id l)" by (auto simp: leaves_in_def)
  have "in_user_id ` set ls = set (bkeys ?users)" using s ids by (metis list.set_map)
  then show "in_user_id ` set ls = fst ` set (csv_rows (text_lines csv))"
    by (simp add: bkeys_fold_add_row) (simp add: bkeys_def)
qed

subsection \<open>File names\<close>

lemma sanitised_chars: "c \<in> set (sanitised user) \<Longrightarrow> is_ascii_alphanumeric c \<or> c = CHR ''_''"
  by (auto simp: sanitised_def safe_char_def split: list.splits if_splits)

lemma sanitised_no_dash: "CHR ''-'' \<notin> set (sanitised user)"
proof
  assume "CHR ''-'' \<in> set (sanitised user)"
  from sanitised_chars [OF this] show False by (simp add: is_ascii_alphanumeric_def is_ascii_digit_def)
qed

lemma proof_filename_eq:
  assumes "proof_filename C u = proof_filename C v"
  shows "u = v \<or> sanitised u = sanitised v \<and>
    take 8 (hex_encode C (arr32 (sha256 C u))) = take 8 (hex_encode C (arr32 (sha256 C v)))"
proof -
  have upto: "takeWhile (\<lambda>c. c \<noteq> CHR ''-'') (sanitised w @ CHR ''-'' # r) = sanitised w" for w r
    using sanitised_no_dash [of w] by (subst takeWhile_append2) auto
  have both: "sanitised u = sanitised v" if "sanitised u @ CHR ''-'' # r = sanitised v @ CHR ''-'' # s" for r s
    using arg_cong [OF that, of "takeWhile (\<lambda>c. c \<noteq> CHR ''-'')"] unfolding upto .
  have one: "sanitised w \<noteq> sanitised x @ CHR ''-'' # r" for w x r
    using sanitised_no_dash [of w] by (metis in_set_conv_decomp)
  show ?thesis
  proof (cases "sanitised u = u"; cases "sanitised v = v")
    assume "sanitised u \<noteq> u" "sanitised v \<noteq> v"
    with assms have eq: "sanitised u @ CHR ''-'' # take 8 (hex_encode C (arr32 (sha256 C u))) =
        sanitised v @ CHR ''-'' # take 8 (hex_encode C (arr32 (sha256 C v)))"
      by (simp add: proof_filename_def)
    from eq both [OF eq] show ?thesis by simp
  qed (use assms one one [symmetric] in \<open>auto simp: proof_filename_def\<close>)
qed

lemma proof_filename_ok:
  assumes "hex_lower C"
  shows "name_ok (proof_filename C u)" "safe_file_name (proof_filename C u)"
proof -
  have sub: "set (take 8 (hex_encode C (arr32 (sha256 C u)))) \<subseteq> set ''0123456789abcdef''"
    using assms set_take_subset subset_trans unfolding hex_lower_def by metis
  have "\<forall>c \<in> set ''0123456789abcdef''. code c < 128 \<and> c \<noteq> CHR ''/'' \<and> c \<noteq> CHR 0x5C"
    by simp
  note hex = bspec [OF this subsetD [OF sub]]
  have san: "code c < 128 \<and> c \<noteq> CHR ''/'' \<and> c \<noteq> CHR 0x5C" if "c \<in> set (sanitised u)" for c
    using sanitised_chars [OF that] by (elim disjE) (auto simp: is_ascii_alphanumeric_def is_ascii_digit_def)
  have all: "\<forall>c \<in> set (proof_filename C u). code c < 128 \<and> c \<noteq> CHR ''/'' \<and> c \<noteq> CHR 0x5C"
  proof
    fix c
    assume "c \<in> set (proof_filename C u)"
    then consider "c \<in> set ''proof-.json''" | "c \<in> set (sanitised u)"
      | "c \<in> set (take 8 (hex_encode C (arr32 (sha256 C u))))"
      by (auto simp: proof_filename_def split: if_splits)
    then show "code c < 128 \<and> c \<noteq> CHR ''/'' \<and> c \<noteq> CHR 0x5C"
    proof cases
      case 1
      then show ?thesis by auto
    next
      case 2
      then show ?thesis by (rule san)
    next
      case 3
      then show ?thesis by (rule hex)
    qed
  qed
  then have "\<forall>c \<in> set (proof_filename C u). code c < 0x80" by simp
  then have "valid_utf8 (proof_filename C u)" by (rule valid_utf8_ascii)
  then show "name_ok (proof_filename C u)"
    by (simp add: name_ok_def json_name_def ends_with_def proof_filename_def PACK_FILE_def)
  have "CHR ''/'' \<notin> set (proof_filename C u)" "CHR 0x5C \<notin> set (proof_filename C u)"
    using all by blast+
  moreover have "proof_filename C u \<noteq> ''.''" "proof_filename C u \<noteq> ''..''" "proof_filename C u \<noteq> []"
    by (simp_all add: proof_filename_def)
  ultimately show "safe_file_name (proof_filename C u)" by (simp add: safe_file_name_def)
qed

subsection \<open>What a run delivers\<close>

lemma publisher_run_Ok:
  assumes "publisher_run C de_man de_anc F A = Ok r"
  obtains sd csv ls m pub previous where
    "read_seed C F (pa_key_file A) = Ok sd" "read_input F (pa_balances A) = Ok csv"
    "csv_leaves C (hex_encode C (arr32 sd) @ ''-'' @ pa_snapshot_time A) csv = Ok ls"
    "publish C ls (publisher_meta A m) \<lparr>seed = sd\<rparr> = Ok pub"
    "run_report r = signed_report pub" "run_anchor r = anchor_report C (signed_report pub) previous"
    "run_proofs r = proofs pub" "run_signer r = \<lparr>seed = sd\<rparr>"
  using assms by (auto simp: publisher_run_def Let_def read_balance_file_def)

lemma csv_row_credits:
  assumes "csv_leaves C slt csv = Ok ls"
  shows "\<exists>l \<in> set ls. bkeys (in_balances l) \<noteq> []"
proof -
  obtain u a v where r: "(u, a, v) \<in> set (csv_rows (text_lines csv))" (is "_ \<in> set ?rs")
    using assms by (cases "csv_rows (text_lines csv)") (auto simp: csv_leaves_Ok_iff csv_ok_def)
  let ?users = "fold add_row ?rs bempty"
  have keys: "set (bkeys (fold (\<lambda>(a, v). binsert a v) kvs m)) = set (bkeys m) \<union> fst ` set kvs" for kvs :: "(string \<times> u128) list" and m
    by (induction kvs arbitrary: m) (auto simp: bkeys_binsert)
  have "(a, v) \<in> set (rows_for u ?rs)" using r by (force simp: rows_for_def)
  then have "a \<in> set (bkeys (balances_of ?users u))" by (force simp: balances_of_fold keys)
  moreover have "bget ?users u = Some (balances_of ?users u)"
    using r by (force simp: bget_balances_of bkeys_fold_add_row)
  then have "(u, balances_of ?users u) \<in> set (entries ?users)" by (simp add: bm.get_Some_iff)
  then have "\<exists>l \<in> set (leaves_in C slt ?users). in_balances l = balances_of ?users u"
    by (force simp: leaves_in_def)
  moreover have "set ls = set (leaves_in C slt ?users)" using assms by (simp add: csv_leaves_Ok_iff)
  ultimately show ?thesis by (metis empty_iff list.set(1))
qed

lemma publisher_proofs_verify:
  assumes "hex_spec C" "ed25519_spec C" "publisher_run C de_man de_anc F A = Ok r" "p \<in> set (run_proofs r)"
  shows "verify C (run_report r) p (public_key_hex C (run_signer r)) = Ok () \<longleftrightarrow>
    well_formed_report (report (run_report r))"
proof -
  obtain sd csv ls m pub where
    ls: "csv_leaves C (hex_encode C (arr32 sd) @ ''-'' @ pa_snapshot_time A) csv = Ok ls"
    and pub: "publish C ls (publisher_meta A m) \<lparr>seed = sd\<rparr> = Ok pub"
    and r: "run_report r = signed_report pub" "run_proofs r = proofs pub" "run_signer r = \<lparr>seed = sd\<rparr>"
    by (rule publisher_run_Ok [OF assms(3)]) (rule that; assumption)
  obtain i where i: "i < length ls" "p = proofs pub ! i"
    using assms(4) pub by (auto simp: r in_set_conv_nth publish_Ok_iff)
  have "profile (report (signed_report pub)) = ''solvency.liabilities''"
    by (simp add: published_report(2) [OF pub] publisher_meta_def)
  moreover have "\<not> bis_empty (root_sums (report (signed_report pub)))"
    using csv_row_credits [OF ls] by (auto simp: bis_empty_iff published_report(3) [OF pub])
  ultimately show ?thesis
    using validate_liabilities publish_verifies_iff [OF assms(1,2) pub i(1)] by (simp add: r i(2))
qed

lemma publisher_has_proofs:
  assumes "publisher_run C de_man de_anc F A = Ok r"
  shows "\<exists>p. p \<in> set (run_proofs r)"
proof -
  obtain sd csv ls m pub where
    ls: "csv_leaves C (hex_encode C (arr32 sd) @ ''-'' @ pa_snapshot_time A) csv = Ok ls"
    and pub: "publish C ls (publisher_meta A m) \<lparr>seed = sd\<rparr> = Ok pub" and r: "run_proofs r = proofs pub"
    by (rule publisher_run_Ok [OF assms]) (rule that; assumption)
  have "length (proofs pub) = length ls" using pub by (auto simp: publish_Ok_iff)
  moreover have "ls \<noteq> []" using csv_row_credits [OF ls] by auto
  ultimately have "proofs pub \<noteq> []" by auto
  then show ?thesis unfolding r by (cases "proofs pub") auto
qed

text \<open>The files of a directory, and a delivery that consists of them.\<close>

definition files_of :: "bytes bmap \<Rightarrow> FileOut list" where
  "files_of dir = map (\<lambda>(n, c). \<lparr>file_name = n, file_content = c\<rparr>) (entries dir)"

lemma holds_delivery_set: "set fs = set fs' \<Longrightarrow> holds_delivery F dir fs \<longleftrightarrow> holds_delivery F dir fs'"
  by (simp add: holds_delivery_def)

lemma files_of_written:
  assumes "distinct (map file_name fs)"
  shows "set (files_of (write_files fs bempty)) = set fs"
proof -
  let ?kvs = "map (\<lambda>f. (file_name f, file_content f)) fs"
  have "write_files fs bempty = bof_list ?kvs"
    by (simp add: write_files_def bof_list_def fold_map comp_def)
  moreover have "set (entries (bof_list ?kvs)) = set ?kvs"
    by (rule mset_eq_setD, rule mset_entries_bof_list) (use assms in \<open>simp add: comp_def\<close>)
  ultimately have "set (files_of (write_files fs bempty)) = (\<lambda>(n, c). \<lparr>file_name = n, file_content = c\<rparr>) ` set ?kvs"
    by (simp add: files_of_def)
  moreover have "(\<lambda>(n, c). \<lparr>file_name = n, file_content = c\<rparr>) (file_name f, file_content f) = f" for f :: FileOut
    by simp
  ultimately show ?thesis by (simp only: set_map image_image image_ident)
qed

end
