(* ===== verification/Publisher_Properties.thy ===== *)
theory Publisher_Properties
  imports Publisher Service_Properties
begin

text \<open>
  The properties of the publisher binary, from its balance file to the command line that checks
  the delivery.
\<close>

subsection \<open>A sample run\<close>

definition sample_csv :: bytes where
  "sample_csv = ''alice,BTC,5'' @ [CHR 0x0A] @ ''bob,USD,7'' @ [CHR 0x0A]"

definition swapped_csv :: bytes where
  "swapped_csv = ''bob,USD,7'' @ [CHR 0x0A] @ ''alice,BTC,5''"

lemma sample_lines:
  "text_lines sample_csv = [''alice,BTC,5'', ''bob,USD,7'']"
  "text_lines swapped_csv = [''bob,USD,7'', ''alice,BTC,5'']"
  by (simp_all add: text_lines_def sample_csv_def swapped_csv_def)

lemma sample_row_trims:
  "trim ''alice,BTC,5'' = ''alice,BTC,5''" "trim ''bob,USD,7'' = ''bob,USD,7''" "trim ''bob'' = ''bob''"
  by (simp_all add: trim_plain plain_char_def)

lemma sample_rows:
  "line_row ''alice,BTC,5'' = Some (''alice'', ''BTC'', 5000000000000000000)"
  "line_row ''bob,USD,7'' = Some (''bob'', ''USD'', 7000000000000000000)"
  by (simp_all add: line_row_def row_cells_def sample_row_trims row_of_def)

lemma sample_csv_rows:
  "csv_rows (text_lines sample_csv) =
     [(''alice'', ''BTC'', 5000000000000000000), (''bob'', ''USD'', 7000000000000000000)]"
  by (simp add: sample_lines csv_rows_def map_filter_simps sample_rows)

lemma sample_csv_ok: "csv_ok sample_csv"
  unfolding csv_ok_def sample_csv_rows by (simp add: sample_lines line_ok_def sample_rows row_key_def)

text \<open>A file of one row.\<close>

definition single_csv :: bytes where
  "single_csv = ''alice,BTC,5''"

lemma single_csv_rows:
  "csv_rows (text_lines single_csv) = [(''alice'', ''BTC'', 5000000000000000000)]" "csv_ok single_csv"
  using sample_rows(1)
  by (simp_all add: text_lines_def single_csv_def csv_rows_def map_filter_simps csv_ok_def line_ok_def)

definition publisher_disk :: "bytes \<Rightarrow> filesystem" where
  "publisher_disk csv =
     \<lparr>is_file = (\<lambda>_. True), is_dir = (\<lambda>_. False),
      read_file = (\<lambda>path. if path = ''seed'' then Some (hex_encode sample_crates (arr32 (seed venue_signer)))
                          else if path = ''balances'' then Some csv else None),
      read_dir = (\<lambda>_. None)\<rparr>"

definition publisher_argv :: "string list" where
  "publisher_argv = [''--balances'', ''balances'', ''--key-file'', ''seed'', ''--publisher'', ''venue'',
     ''--snapshot-time'', ''2026-01-01T00:00:00Z'', ''--ledger-offset'', ''000042'', ''--out'', ''d'']"

definition sample_args :: PublisherArgs where
  "sample_args = \<lparr>pa_balances = ''balances'', pa_key_file = ''seed'', pa_publisher = ''venue'',
     pa_snapshot_time = ''2026-01-01T00:00:00Z'', pa_ledger_offset = ''000042'', pa_out = ''d'',
     pa_manifest = None, pa_prev_anchor = None\<rparr>"

lemma publisher_argv_parsed: "publisher_args publisher_argv = Ok sample_args"
  by (simp add: publisher_args_def publisher_argv_def sample_args_def bget_binsert)

lemma seed_text:
  "trim (hex_encode sample_crates bs) = hex_encode sample_crates bs" "valid_utf8 (hex_encode sample_crates bs)"
proof -
  have "\<forall>c \<in> set ''0123456789abcdef''. plain_char c \<and> code c < 0x80" by (simp add: plain_char_def)
  then have "\<forall>c \<in> set (hex_encode sample_crates bs). plain_char c \<and> code c < 0x80"
    using sample_hex_lower unfolding hex_lower_def by blast
  then show "trim (hex_encode sample_crates bs) = hex_encode sample_crates bs"
    "valid_utf8 (hex_encode sample_crates bs)"
    by (simp_all add: trim_plain list_all_iff valid_utf8_ascii)
qed

lemma publisher_reads:
  "read_seed sample_crates (publisher_disk csv) ''seed'' = Ok (seed venue_signer)"
  "\<forall>c \<in> set csv. code c < 0x80 \<Longrightarrow> read_input (publisher_disk csv) ''balances'' = Ok csv"
proof -
  have "hex_decode sample_crates (hex_encode sample_crates bs) = Some bs" for bs
    using sample_hex_spec by (simp add: hex_spec_def)
  then show "read_seed sample_crates (publisher_disk csv) ''seed'' = Ok (seed venue_signer)"
    by (simp add: read_seed_def read_input_def read_text_def publisher_disk_def seed_text try32_Some)
  assume "\<forall>c \<in> set csv. code c < 0x80"
  then show "read_input (publisher_disk csv) ''balances'' = Ok csv"
    by (simp add: read_input_def read_text_def publisher_disk_def valid_utf8_ascii)
qed

lemma sample_publisher_run:
  assumes "csv = sample_csv \<or> csv = single_csv"
  shows "\<exists>r. publisher_run sample_crates M N (publisher_disk csv) sample_args = Ok r \<and>
     run_signer r = venue_signer \<and> manifest (report (run_report r)) = None"
    and "read_input (publisher_disk csv) (pa_balances sample_args) = Ok csv"
proof -
  let ?slt = "hex_encode sample_crates (arr32 (seed venue_signer)) @ ''-'' @ pa_snapshot_time sample_args"
  have ascii: "\<forall>c \<in> set csv. code c < 0x80" using assms by (auto simp: sample_csv_def single_csv_def)
  have "csv_ok csv" using assms sample_csv_ok single_csv_rows(2) by blast
  then obtain ls where ls: "csv_leaves sample_crates ?slt csv = Ok ls" by (simp add: csv_leaves_Ok_iff)
  have "csv_total (csv_rows (text_lines csv)) a < 2 ^ 128" for a
    using assms by (elim disjE) (simp_all add: sample_csv_rows single_csv_rows csv_total_def)
  then have "(\<Sum>l \<leftarrow> ls. amount_of (in_balances l) a) < 2 ^ 128" for a
    unfolding csv_leaves_total [OF ls] .
  moreover have "ls \<noteq> []" using csv_row_credits [OF ls] by auto
  ultimately obtain pub where pub: "publish sample_crates ls (publisher_meta sample_args None) venue_signer = Ok pub"
    using publish_succeeds_iff by metis
  have "manifest (report (signed_report pub)) = None"
    using published_report(1) [OF pub] by (simp add: publisher_meta_def)
  then show "\<exists>r. publisher_run sample_crates M N (publisher_disk csv) sample_args = Ok r \<and>
      run_signer r = venue_signer \<and> manifest (report (run_report r)) = None"
    using ls pub publisher_reads(1) publisher_reads(2) [OF ascii]
    by (simp add: publisher_run_def read_balance_file_def read_optional_def sample_args_def Let_def venue_signer_def)
  show "read_input (publisher_disk csv) (pa_balances sample_args) = Ok csv"
    using publisher_reads(2) [OF ascii] by (simp add: sample_args_def)
qed

subsection \<open>The balance file\<close>

text \<open>
  The leaves do not depend on how the rows are ordered: a file with the same lines in another
  order reads to the same leaves. They come in the order of the secret salts, one for each
  customer of the file, each under the salt derived from the customer's identifier.
\<close>

theorem csv_order_irrelevant:
  assumes "csv_leaves C slt csv = Ok ls" "mset (text_lines csv) = mset (text_lines csv')"
  shows "csv_leaves C slt csv' = Ok ls \<and> sorted (map (\<lambda>l. arr32 (in_salt l)) ls) \<and>
    distinct (map in_user_id ls) \<and> in_user_id ` set ls = fst ` set (csv_rows (text_lines csv)) \<and>
    (\<forall>l \<in> set ls. in_salt l = leaf_salt C slt (in_user_id l))"
  using csv_leaves_order [OF assms] csv_leaves_sorted [OF assms(1)] by blast

theorem csv_order_irrelevant_witness:
  "\<exists>ls. csv_leaves sample_crates ''s'' sample_csv = Ok ls \<and> csv_leaves sample_crates ''s'' swapped_csv = Ok ls \<and>
     in_user_id ` set ls = {''alice'', ''bob''}"
proof -
  obtain ls where ls: "csv_leaves sample_crates ''s'' sample_csv = Ok ls"
    by (simp add: csv_leaves_Ok_iff sample_csv_ok)
  have "mset (text_lines sample_csv) = mset (text_lines swapped_csv)" by (simp add: sample_lines)
  from csv_order_irrelevant [OF ls this] ls show ?thesis
    unfolding sample_csv_rows by (intro exI [of _ ls]) auto
qed

lemma publisher_proof_users:
  assumes "publisher_run C de_man de_anc F A = Ok r" "read_input F (pa_balances A) = Ok csv"
  shows "distinct (map proof_user (run_proofs r))"
    and "proof_user ` set (run_proofs r) = fst ` set (csv_rows (text_lines csv))"
proof -
  obtain sd csv' ls m pub where csv: "read_input F (pa_balances A) = Ok csv'"
    and ls: "csv_leaves C (hex_encode C (arr32 sd) @ ''-'' @ pa_snapshot_time A) csv' = Ok ls"
    and pub: "publish C ls (publisher_meta A m) \<lparr>seed = sd\<rparr> = Ok pub" and r: "run_proofs r = proofs pub"
    by (rule publisher_run_Ok [OF assms(1)]) (rule that; assumption)
  have "csv' = csv" using csv assms(2) by simp
  note sorted = csv_leaves_sorted [OF ls [unfolded this]]
  have ids: "map proof_user (proofs pub) = map in_user_id ls"
    using pub by (auto simp: publish_Ok_iff proof_user_def input_document_def intro!: nth_equalityI)
  show "distinct (map proof_user (run_proofs r))" using sorted(2) by (simp add: r ids)
  have "proof_user ` set (proofs pub) = in_user_id ` set ls" using ids by (metis list.set_map)
  then show "proof_user ` set (run_proofs r) = fst ` set (csv_rows (text_lines csv))"
    by (simp add: r sorted(4))
qed

text \<open>
  The book that is published is the book in the file: for every asset the report totals the
  amounts of all rows, which list no asset twice for a customer, and there is one proof for each
  customer and for nobody else.
\<close>

theorem publisher_book_exact:
  assumes "publisher_run C de_man de_anc F A = Ok r" "read_input F (pa_balances A) = Ok csv"
  shows "(\<forall>a. amount_of (root_sums (report (run_report r))) a =
      (\<Sum>(u, b, v) \<leftarrow> csv_rows (text_lines csv). if b = a then unat v else 0)) \<and>
    distinct (map row_key (csv_rows (text_lines csv))) \<and>
    distinct (map proof_user (run_proofs r)) \<and>
    proof_user ` set (run_proofs r) = fst ` set (csv_rows (text_lines csv))"
proof -
  obtain sd csv' ls m pub where csv: "read_input F (pa_balances A) = Ok csv'"
    and ls: "csv_leaves C (hex_encode C (arr32 sd) @ ''-'' @ pa_snapshot_time A) csv' = Ok ls"
    and pub: "publish C ls (publisher_meta A m) \<lparr>seed = sd\<rparr> = Ok pub"
    and r: "run_report r = signed_report pub" "run_proofs r = proofs pub"
    by (rule publisher_run_Ok [OF assms(1)]) (rule that; assumption)
  have "csv' = csv" using csv assms(2) by simp
  note ls = ls [unfolded this]
  have "distinct (map row_key (csv_rows (text_lines csv)))"
    using ls by (simp add: csv_leaves_Ok_iff csv_ok_def)
  then show ?thesis
    using csv_leaves_total [OF ls] publisher_proof_users [OF assms]
    by (simp add: r published_report(4) [OF pub] csv_total_def)
qed

theorem publisher_book_exact_witness:
  "\<exists>r. publisher_run sample_crates (\<lambda>_. Err []) (\<lambda>_. Err []) (publisher_disk sample_csv) sample_args = Ok r \<and>
     amount_of (root_sums (report (run_report r))) ''BTC'' = 5000000000000000000 \<and>
     proof_user ` set (run_proofs r) = {''alice'', ''bob''}"
proof -
  obtain r where r: "publisher_run sample_crates (\<lambda>_. Err []) (\<lambda>_. Err []) (publisher_disk sample_csv) sample_args = Ok r"
    using sample_publisher_run(1) by blast
  from publisher_book_exact [OF r sample_publisher_run(2)] r show ?thesis
    unfolding sample_csv_rows by (intro exI [of _ r]) auto
qed

subsection \<open>File names\<close>

text \<open>
  Two customers get one file name only when their identifiers sanitise to the same text and
  their SHA-256 digests agree in the first 32 bits. That is rarer than with sanitising alone, but
  not impossible, as the comment on the function has it: with a hash that is constant there, the
  identifiers \<open>a b\<close> and \<open>a-b\<close> share a file.
\<close>

theorem shared_proof_filename:
  assumes "proof_filename C u = proof_filename C v"
  shows "u = v \<or> sanitised u = sanitised v \<and>
    take 8 (hex_encode C (arr32 (sha256 C u))) = take 8 (hex_encode C (arr32 (sha256 C v)))"
  using assms by (rule proof_filename_eq)

theorem shared_proof_filename_witness:
  "proof_filename (sample_crates\<lparr>sha256 := (\<lambda>_. mk32 [])\<rparr>) ''a b'' =
     proof_filename (sample_crates\<lparr>sha256 := (\<lambda>_. mk32 [])\<rparr>) ''a-b'' \<and> sanitised ''a b'' = sanitised ''a-b''"
proof -
  let ?C = "sample_crates\<lparr>sha256 := (\<lambda>_. mk32 [])\<rparr>"
  have chars: "utf8_chars ''a b'' = [''a'', '' '', ''b'']" "utf8_chars ''a-b'' = [''a'', ''-'', ''b'']"
    by (simp_all add: utf8_chars.simps utf8_char_def)
  then have "sanitised ''a b'' = ''a_b''" "sanitised ''a-b'' = ''a_b''"
    by (simp_all add: sanitised_def safe_char_def is_ascii_alphanumeric_def is_ascii_digit_def)
  then have "proof_filename ?C ''a b'' = proof_filename ?C ''a-b''" by (simp add: proof_filename_def)
  with shared_proof_filename [OF this] show ?thesis by simp
qed

subsection \<open>The delivery\<close>

lemma publisher_main_0:
  assumes "publisher_args argv = Ok A" "publisher_main C de_man de_anc E F argv bempty = (0, dir')"
  obtains r sp where "publisher_run C de_man de_anc F A = Ok r" "publisher_pack C E r = Ok sp"
    "dir' = binsert PACK_FILE (pretty (en_pack E) sp) (write_files (publisher_files C E r) bempty)"
  using assms by (auto simp: publisher_main_def Let_def split: sum.splits)

lemma publisher_dir:
  assumes "hex_lower C" "publisher_pack C E r = Ok sp"
  shows "set (files_of (binsert PACK_FILE (pretty (en_pack E) sp) (write_files (publisher_files C E r) bempty))) =
    set (publisher_files C E r @ [\<lparr>file_name = PACK_FILE, file_content = pretty (en_pack E) sp\<rparr>])"
proof -
  let ?fs = "publisher_files C E r @ [\<lparr>file_name = PACK_FILE, file_content = pretty (en_pack E) sp\<rparr>]"
  have "\<forall>f \<in> set (publisher_files C E r). name_ok (file_name f)"
    unfolding publisher_files_named using proof_filename_ok(1) [OF assms(1)] by (intro named_files_ok) simp
  then have "PACK_FILE \<notin> file_name ` set (publisher_files C E r)" by (auto simp: name_ok_def)
  moreover have "distinct (map file_name (publisher_files C E r))"
    using assms(2) by (simp add: publisher_pack_def build_pack_Ok_iff comp_def)
  ultimately have "distinct (map file_name ?fs)" by simp
  from files_of_written [OF this] show ?thesis by (simp add: write_files_def)
qed

lemma publisher_well_formed:
  assumes "publisher_run C de_man de_anc F A = Ok r"
  shows "well_formed_report (report (run_report r)) \<longleftrightarrow>
    (\<forall>m. manifest (report (run_report r)) = Some m \<longrightarrow> manifest_consistent (report (run_report r)) m)"
proof -
  obtain sd csv ls m pub where pub: "publish C ls (publisher_meta A m) \<lparr>seed = sd\<rparr> = Ok pub"
    and r: "run_report r = signed_report pub"
    by (rule publisher_run_Ok [OF assms]) (rule that; assumption)
  have "format_version (report (signed_report pub)) =
      (if manifest (report (signed_report pub)) \<noteq> None then REPORT_FORMAT_VERSION_V2 else REPORT_FORMAT_VERSION)"
    using pub by (auto simp: publish_Ok_iff sign_report_def report_of_def)
  then show ?thesis
    by (auto simp: r well_formed_report_def REPORT_FORMAT_VERSION_def REPORT_FORMAT_VERSION_V2_def split: if_splits)
qed

text \<open>
  C21. What the publisher writes passes the verifier: when it exits 0 on an empty directory, then
  with decoders that read its files back, \<open>verify-pack\<close> on that directory under the signer's key
  exits 0 exactly when a manifest, if one was given, is consistent with the report. A manifest that
  is not is published all the same, and refused by every reader.
\<close>

theorem publisher_delivery_verifies:
  assumes "hex_spec C" "hex_lower C" "ed25519_spec C"
    and "publisher_args argv = Ok A" "publisher_main C de_man de_anc E F argv bempty = (0, dir')"
    and "publisher_run C de_man de_anc F A = Ok r" "publisher_pack C E r = Ok sp"
    and "reads_documents D E (run_report r) (run_anchor r) (run_proofs r) sp"
    and "holds_delivery G dir (files_of dir')"
    and "parse_args argv' = Ok (CmdVerifyPack dir (public_key_hex C (run_signer r)) json)"
  shows "main_exit C D G argv' = 0 \<longleftrightarrow>
    (\<forall>m. manifest (report (run_report r)) = Some m \<longrightarrow> manifest_consistent (report (run_report r)) m)"
proof -
  have "dir' = binsert PACK_FILE (pretty (en_pack E) sp) (write_files (publisher_files C E r) bempty)"
    using assms(5-7) by (rule_tac publisher_main_0 [OF assms(4,5)]) simp
  then have disk: "holds_delivery G dir (named_files (proof_filename C) E (run_report r) (run_anchor r) (run_proofs r) @
      [\<lparr>file_name = PACK_FILE, file_content = pretty (en_pack E) sp\<rparr>])"
    using assms(9) holds_delivery_set [OF publisher_dir [OF assms(2,7)]]
    by (simp add: publisher_files_named)
  have "(\<exists>s. run_pack C D G dir (public_key_hex C (run_signer r)) = Ok s \<and> pack_all_passed s) \<longleftrightarrow>
      (\<forall>p \<in> set (run_proofs r). verify C (run_report r) p (public_key_hex C (run_signer r)) = Ok ())"
    using proof_filename_ok(1) [OF assms(2)] assms(7,8) disk
    by (intro delivery_passes [OF assms(1-3)]) (auto simp: publisher_pack_def publisher_files_named)
  also have "\<dots> \<longleftrightarrow> well_formed_report (report (run_report r))"
    using publisher_proofs_verify [OF assms(1,3,6)] publisher_has_proofs [OF assms(6)] by blast
  finally show ?thesis
    using publisher_well_formed [OF assms(6)] by (simp add: main_exit_parsed [OF assms(10)] command_exit_def)
qed

text \<open>Texts and decoders for a run with one proof.\<close>

definition run_decoders :: "PublisherRun \<Rightarrow> SignedPack \<Rightarrow> decoders" where
  "run_decoders r sp = service_decoders
     \<lparr>doc_report = run_report r, doc_anchor = run_anchor r, doc_proofs = run_proofs r, doc_pack = sp, doc_clamped = 0\<rparr>"

lemma run_decoders_read:
  assumes "run_proofs r = [p]"
  shows "reads_documents (run_decoders r sp) service_encoders (run_report r) (run_anchor r) (run_proofs r) sp"
proof -
  have "valid_utf8 [c, CHR 0x0A]" if "c \<in> set ''RAPK''" for c
    using that by (intro valid_utf8_ascii) auto
  then show ?thesis
    by (auto simp: reads_documents_def Let_def run_decoders_def service_decoders_def service_encoders_def pretty_def
        assms parse_proof_def sample_decoders_def is_ok_def PROOF_FORMAT_VERSION_def PROOF_FORMAT_VERSION_V2_def)
qed

lemma one_proof_pack:
  assumes "hex_lower C" "run_proofs r = [p]"
  shows "\<exists>sp. publisher_pack C E r = Ok sp"
proof -
  have "proof_filename C (proof_user p) \<notin> {''report.json'', ''anchor.json''}"
    by (simp add: proof_filename_def)
  moreover have "safe_file_name ''report.json''" "safe_file_name ''anchor.json''"
    by (simp_all add: safe_file_name_def)
  ultimately show ?thesis
    using proof_filename_ok(2) [OF assms(1)]
    by (auto simp: publisher_pack_def build_pack_Ok_iff publisher_files_def assms(2))
qed

theorem publisher_delivery_verifies_witness:
  "\<exists>r sp dir'. publisher_main sample_crates (\<lambda>_. Err []) (\<lambda>_. Err []) service_encoders (publisher_disk single_csv)
      publisher_argv bempty = (0, dir') \<and>
     main_exit sample_crates (run_decoders r sp) (directory_of (files_of dir'))
       [''verify-pack'', ''--pack-dir'', ''d'', ''--key'', public_key_hex sample_crates venue_signer] = 0"
proof -
  let ?none = "\<lambda>_. Err []" and ?F = "publisher_disk single_csv" and ?C = sample_crates and ?E = service_encoders
  obtain r where r: "publisher_run ?C ?none ?none ?F sample_args = Ok r" "run_signer r = venue_signer"
    "manifest (report (run_report r)) = None"
    using sample_publisher_run(1) by blast
  have "distinct (map proof_user (run_proofs r))" "proof_user ` set (run_proofs r) = {''alice''}"
    using publisher_proof_users [OF r(1) sample_publisher_run(2)] single_csv_rows(1) by simp_all
  then obtain p where p: "run_proofs r = [p]"
    by (cases "run_proofs r"; cases "tl (run_proofs r)") auto
  obtain sp where sp: "publisher_pack ?C ?E r = Ok sp" using one_proof_pack [OF sample_hex_lower p] by blast
  let ?dir = "binsert PACK_FILE (pretty (en_pack ?E) sp) (write_files (publisher_files ?C ?E r) bempty)"
  have main: "publisher_main ?C ?none ?none ?E ?F publisher_argv bempty = (0, ?dir)"
    by (simp add: publisher_main_def publisher_argv_parsed r(1) sp Let_def)
  have "distinct (map file_name (files_of ?dir))"
    using bm.listing_distinct [of ?dir] by (simp add: files_of_def comp_def split_beta)
  note disk = directory_holds [OF this]
  show ?thesis
    using publisher_delivery_verifies [OF sample_hex_spec sample_hex_lower sample_ed25519_spec publisher_argv_parsed main
        r(1) sp run_decoders_read [OF p] disk] parse_pack [OF key_hex_venue] main r(2,3) by auto
qed

end
