(* ===== verification/Effects.thy ===== *)
theory Effects
  imports Json_Value
begin

text \<open>
  Reading a prepared transaction, \<open>sim-core/src/prepared.rs\<close> and the records of
  \<open>sim-core/src/model.rs\<close> it fills. The messages are those of the \<open>.proto\<close> files under
  \<open>sim-proto/proto\<close>, with the fields the code reads. The walk over the nodes follows
  references a participant sent, so it is a \<open>partial_function\<close>: that it returns is a theorem
  of \<open>Effects_Correct\<close>. Base64, protobuf and the calendar of \<open>chrono\<close> are parameters.
\<close>

subsection \<open>Messages\<close>

record lf_identifier =
  lf_package_id :: string
  lf_module_name :: string
  lf_entity_name :: string

text \<open>A \<open>Value\<close> with its \<open>oneof\<close>, \<open>VNone\<close> when none is set. Fields that hold a message may be
  absent.\<close>

datatype lf_value =
    VNone
  | VUnit
  | VBool bool
  | VInt64 u64
  | VDate "32 word"
  | VTimestamp u64
  | VNumeric string
  | VParty string
  | VText string
  | VContractId string
  | VOptional "lf_value option"
  | VList "lf_value list"
  | VTextMap "(string \<times> lf_value option) list"
  | VGenMap "(lf_value option \<times> lf_value option) list"
  | VRecord "(string \<times> lf_value option) list"
  | VVariant string "lf_value option"
  | VEnum string

record create_node =
  cr_contract_id :: string
  cr_package_name :: string
  cr_template_id :: "lf_identifier option"
  cr_argument :: "lf_value option"
  cr_signatories :: "string list"
  cr_stakeholders :: "string list"

record exercise_node =
  ex_contract_id :: string
  ex_package_name :: string
  ex_template_id :: "lf_identifier option"
  ex_signatories :: "string list"
  ex_stakeholders :: "string list"
  ex_acting_parties :: "string list"
  ex_interface_id :: "lf_identifier option"
  ex_choice_id :: string
  ex_chosen_value :: "lf_value option"
  ex_consuming :: bool
  ex_children :: "string list"
  ex_exercise_result :: "lf_value option"
  ex_choice_observers :: "string list"

record fetch_node =
  fe_contract_id :: string
  fe_package_name :: string
  fe_template_id :: "lf_identifier option"
  fe_signatories :: "string list"
  fe_stakeholders :: "string list"
  fe_acting_parties :: "string list"
  fe_interface_id :: "lf_identifier option"

datatype node_type =
    NCreate create_node
  | NExercise exercise_node
  | NFetch fetch_node
  | NRollback "string list"

record tx_node =
  tn_node_id :: string
  tn_versioned_node :: "node_type option option"

record daml_transaction =
  tx_version :: string
  tx_roots :: "string list"
  tx_nodes :: "tx_node list"

record submitter_info =
  si_act_as :: "string list"
  si_command_id :: string

record meta_input =
  mi_contract :: "create_node option"
  mi_created_at :: u64

record metadata =
  md_submitter_info :: "submitter_info option"
  md_synchronizer_id :: string
  md_mediator_group :: "32 word"
  md_transaction_uuid :: string
  md_preparation_time :: u64
  md_input_contracts :: "meta_input list"
  md_min_ledger_effective_time :: "u64 option"
  md_max_ledger_effective_time :: "u64 option"
  md_max_record_time :: "u64 option"

record prepared_transaction =
  pt_transaction :: "daml_transaction option"
  pt_metadata :: "metadata option"

definition default_submitter :: submitter_info where
  "default_submitter = \<lparr>si_act_as = [], si_command_id = []\<rparr>"

definition default_metadata :: metadata where
  "default_metadata =
     \<lparr>md_submitter_info = None, md_synchronizer_id = [], md_mediator_group = 0, md_transaction_uuid = [],
      md_preparation_time = 0, md_input_contracts = [], md_min_ledger_effective_time = None,
      md_max_ledger_effective_time = None, md_max_record_time = None\<rparr>"

subsection \<open>What is reported\<close>

datatype node_kind = KCreate | KExercise | KFetch | KRollback

record effect_node =
  en_node_id :: string
  en_depth :: nat
  en_kind :: node_kind
  en_template_id :: "string option"
  en_package_name :: "string option"
  en_interface_id :: "string option"
  en_contract_id :: "string option"
  en_choice :: "string option"
  en_consuming :: "bool option"
  en_acting_parties :: "string list"
  en_signatories :: "string list"
  en_stakeholders :: "string list"
  en_choice_observers :: "string list"
  en_argument :: "json option"
  en_result :: "json option"
  en_children :: "string list"

record input_contract =
  ic_contract_id :: string
  ic_template_id :: "string option"
  ic_created_at :: "string option"
  ic_signatories :: "string list"
  ic_stakeholders :: "string list"
  ic_consumed :: bool

record effect_counts =
  ec_creates :: nat
  ec_archives :: nat
  ec_exercises :: nat
  ec_fetches :: nat
  ec_rollbacks :: nat

definition no_counts :: effect_counts where
  "no_counts = \<lparr>ec_creates = 0, ec_archives = 0, ec_exercises = 0, ec_fetches = 0, ec_rollbacks = 0\<rparr>"

record effects =
  fx_transaction_version :: string
  fx_roots :: "string list"
  fx_nodes :: "effect_node list"
  fx_counts :: effect_counts
  fx_informees :: "string list"
  fx_input_contracts :: "input_contract list"
  fx_act_as :: "string list"
  fx_command_id :: string
  fx_synchronizer_id :: string
  fx_mediator_group :: "32 word"
  fx_transaction_uuid :: string
  fx_preparation_time :: "string option"
  fx_min_ledger_effective_time :: "string option"
  fx_max_ledger_effective_time :: "string option"
  fx_max_record_time :: "string option"
  fx_prepared_size_bytes :: nat
  fx_prepared_transaction_hash_hex :: string
  fx_hashing_scheme_version :: string

subsection \<open>Parameters\<close>

text \<open>
  The base64 engine, the decoder \<open>prost\<close> generates, and the two calendar functions of
  \<open>chrono\<close>: an instant given in microseconds in RFC 3339 with six fractional digits, and the
  date of an instant given in seconds; nothing when the instant is out of its range.
\<close>

record ledger_wire =
  b64_decode :: "bytes \<Rightarrow> bytes option"
  proto_decode :: "bytes \<Rightarrow> prepared_transaction option"
  instant_text :: "int \<Rightarrow> string option"
  date_text :: "int \<Rightarrow> string option"

datatype decode_error = BadBase64 | BadProto | MissingTransaction

definition decode_prepared :: "ledger_wire \<Rightarrow> string \<Rightarrow> decode_error + prepared_transaction \<times> nat" where
  "decode_prepared W base64_tx =
     and_then (ok_or (b64_decode W (trim base64_tx)) BadBase64) (\<lambda>bs.
     and_then (ok_or (proto_decode W bs) BadProto) (\<lambda>tx. Ok (tx, length bs)))"

subsection \<open>Values\<close>

definition identifier_string :: "lf_identifier \<Rightarrow> string" where
  "identifier_string i = lf_package_id i @ '':'' @ lf_module_name i @ '':'' @ lf_entity_name i"

definition non_empty :: "string \<Rightarrow> string option" where
  "non_empty s = (if s \<noteq> [] then Some s else None)"

text \<open>\<open>micros as i64\<close> reads the same 64 bits as a signed number.\<close>

definition micros_to_rfc3339 :: "ledger_wire \<Rightarrow> u64 \<Rightarrow> string option" where
  "micros_to_rfc3339 W micros = (if micros = 0 then None else instant_text W (sint micros))"

definition show_int :: "int \<Rightarrow> string" where
  "show_int i = (if i < 0 then ''-'' @ show_nat (nat (- i)) else show_nat (nat i))"

definition hex_nibble :: "nat \<Rightarrow> char" where
  "hex_nibble n = (if n < 10 then char_of (48 + n) else char_of (87 + n))"

definition hex_text :: "bytes \<Rightarrow> string" where
  "hex_text bs = concat (map (\<lambda>c. [hex_nibble (code c div 16), hex_nibble (code c mod 16)]) bs)"

fun value_to_json :: "ledger_wire \<Rightarrow> lf_value \<Rightarrow> json"
  and field_to_json :: "ledger_wire \<Rightarrow> lf_value option \<Rightarrow> json" where
  "value_to_json W VNone = json_object []"
| "value_to_json W VUnit = json_object []"
| "value_to_json W (VBool b) = JBool b"
| "value_to_json W (VInt64 i) = JString (show_int (sint i))"
| "value_to_json W (VDate d) =
     JString (case date_text W (sint d * 86400) of Some t \<Rightarrow> t | None \<Rightarrow> show_int (sint d))"
| "value_to_json W (VTimestamp t) =
     JString (case micros_to_rfc3339 W t of Some s \<Rightarrow> s | None \<Rightarrow> show_int (sint t))"
| "value_to_json W (VNumeric n) = JString n"
| "value_to_json W (VParty p) = JString p"
| "value_to_json W (VText t) = JString t"
| "value_to_json W (VContractId c) = JString c"
| "value_to_json W (VOptional v) = field_to_json W v"
| "value_to_json W (VList vs) = JArray (map (value_to_json W) vs)"
| "value_to_json W (VTextMap es) =
     json_object (zip (map fst es) (map (field_to_json W) (map snd es)))"
| "value_to_json W (VGenMap es) =
     JArray (map (\<lambda>e. JArray [field_to_json W (fst e), field_to_json W (snd e)]) es)"
| "value_to_json W (VRecord fs) =
     json_object (zip (map (\<lambda>(i, l). if l = [] then ''_'' @ show_nat i else l) (enumerate 0 (map fst fs)))
       (map (field_to_json W) (map snd fs)))"
| "value_to_json W (VVariant c v) =
     json_object [(''tag'', JString c), (''value'', field_to_json W v)]"
| "value_to_json W (VEnum c) = JString c"
| "field_to_json W None = JNull"
| "field_to_json W (Some v) = value_to_json W v"

subsection \<open>The walk\<close>

record walk_state =
  ws_out :: "effect_node list"
  ws_counts :: effect_counts
  ws_informees :: "string set"
  ws_consumed :: "string set"
  ws_visited :: "string set"

definition walk_start :: walk_state where
  "walk_start = \<lparr>ws_out = [], ws_counts = no_counts, ws_informees = {}, ws_consumed = {}, ws_visited = {}\<rparr>"

text \<open>The four arms of \<open>walk\<close>: the effect that is pushed, and the nodes to walk next.\<close>

definition argument_json :: "ledger_wire \<Rightarrow> bool \<Rightarrow> lf_value option \<Rightarrow> json option" where
  "argument_json W incl v = (if incl then map_option (value_to_json W) v else None)"

definition effect_of :: "ledger_wire \<Rightarrow> bool \<Rightarrow> string \<Rightarrow> nat \<Rightarrow> node_type \<Rightarrow> effect_node" where
  "effect_of W incl node_id depth n = (case n of
     NCreate c \<Rightarrow>
       \<lparr>en_node_id = node_id, en_depth = depth, en_kind = KCreate,
        en_template_id = map_option identifier_string (cr_template_id c),
        en_package_name = non_empty (cr_package_name c), en_interface_id = None,
        en_contract_id = non_empty (cr_contract_id c), en_choice = None, en_consuming = None,
        en_acting_parties = [], en_signatories = cr_signatories c, en_stakeholders = cr_stakeholders c,
        en_choice_observers = [], en_argument = argument_json W incl (cr_argument c),
        en_result = None, en_children = []\<rparr>
   | NExercise e \<Rightarrow>
       \<lparr>en_node_id = node_id, en_depth = depth, en_kind = KExercise,
        en_template_id = map_option identifier_string (ex_template_id e),
        en_package_name = non_empty (ex_package_name e),
        en_interface_id = map_option identifier_string (ex_interface_id e),
        en_contract_id = non_empty (ex_contract_id e), en_choice = non_empty (ex_choice_id e),
        en_consuming = Some (ex_consuming e), en_acting_parties = ex_acting_parties e,
        en_signatories = ex_signatories e, en_stakeholders = ex_stakeholders e,
        en_choice_observers = ex_choice_observers e,
        en_argument = argument_json W incl (ex_chosen_value e),
        en_result = argument_json W incl (ex_exercise_result e), en_children = ex_children e\<rparr>
   | NFetch f \<Rightarrow>
       \<lparr>en_node_id = node_id, en_depth = depth, en_kind = KFetch,
        en_template_id = map_option identifier_string (fe_template_id f),
        en_package_name = non_empty (fe_package_name f),
        en_interface_id = map_option identifier_string (fe_interface_id f),
        en_contract_id = non_empty (fe_contract_id f), en_choice = None, en_consuming = None,
        en_acting_parties = fe_acting_parties f, en_signatories = fe_signatories f,
        en_stakeholders = fe_stakeholders f, en_choice_observers = [], en_argument = None,
        en_result = None, en_children = []\<rparr>
   | NRollback children \<Rightarrow>
       \<lparr>en_node_id = node_id, en_depth = depth, en_kind = KRollback, en_template_id = None,
        en_package_name = None, en_interface_id = None, en_contract_id = None, en_choice = None,
        en_consuming = None, en_acting_parties = [], en_signatories = [], en_stakeholders = [],
        en_choice_observers = [], en_argument = None, en_result = None, en_children = children\<rparr>)"

definition count_node :: "node_type \<Rightarrow> effect_counts \<Rightarrow> effect_counts" where
  "count_node n c = (case n of
     NCreate _ \<Rightarrow> c\<lparr>ec_creates := ec_creates c + 1\<rparr>
   | NExercise e \<Rightarrow>
       (let c = c\<lparr>ec_exercises := ec_exercises c + 1\<rparr>
        in if ex_consuming e then c\<lparr>ec_archives := ec_archives c + 1\<rparr> else c)
   | NFetch _ \<Rightarrow> c\<lparr>ec_fetches := ec_fetches c + 1\<rparr>
   | NRollback _ \<Rightarrow> c\<lparr>ec_rollbacks := ec_rollbacks c + 1\<rparr>)"

definition node_informees :: "node_type \<Rightarrow> string list" where
  "node_informees n = (case n of
     NCreate c \<Rightarrow> cr_signatories c @ cr_stakeholders c
   | NExercise e \<Rightarrow> ex_signatories e @ ex_stakeholders e @ ex_acting_parties e @ ex_choice_observers e
   | NFetch f \<Rightarrow> fe_signatories f @ fe_stakeholders f @ fe_acting_parties f
   | NRollback _ \<Rightarrow> [])"

definition node_consumes :: "node_type \<Rightarrow> string set" where
  "node_consumes n = (case n of NExercise e \<Rightarrow> if ex_consuming e then {ex_contract_id e} else {} | _ \<Rightarrow> {})"

definition node_children :: "node_type \<Rightarrow> string list" where
  "node_children n = (case n of NExercise e \<Rightarrow> ex_children e | NRollback cs \<Rightarrow> cs | _ \<Rightarrow> [])"

text \<open>
  \<open>walk\<close> up to its loop over the children: a node is entered once, and an unknown identifier or
  a node without a type ends there. The result is the state and the children to descend to,
  of which those that are no node of the transaction are skipped.
\<close>

definition enter :: "ledger_wire \<Rightarrow> bool \<Rightarrow> node_type option bmap \<Rightarrow> string \<Rightarrow> nat \<Rightarrow> walk_state \<Rightarrow>
    walk_state \<times> string list" where
  "enter W incl by_id node_id depth s =
     (if node_id \<in> ws_visited s then (s, [])
      else let s = s\<lparr>ws_visited := insert node_id (ws_visited s)\<rparr> in
        (case bget by_id node_id of
           None \<Rightarrow> (s, [])
         | Some None \<Rightarrow> (s, [])
         | Some (Some n) \<Rightarrow>
             (s\<lparr>ws_counts := count_node n (ws_counts s),
                ws_informees := ws_informees s \<union> set (node_informees n),
                ws_consumed := ws_consumed s \<union> node_consumes n,
                ws_out := ws_out s @ [effect_of W incl node_id depth n]\<rparr>,
              filter (bcontains by_id) (node_children n))))"

text \<open>\<open>for id in ids { walk(id, depth, ...) }\<close>, with the recursive calls of \<open>walk\<close> on the children.\<close>

partial_function (option) walk_all ::
    "ledger_wire \<Rightarrow> bool \<Rightarrow> node_type option bmap \<Rightarrow> string list \<Rightarrow> nat \<Rightarrow> walk_state \<Rightarrow> walk_state option" where
  "walk_all W incl by_id ids depth s =
     (case ids of
        [] \<Rightarrow> Some s
      | node_id # rest \<Rightarrow>
          (case enter W incl by_id node_id depth s of (s', children) \<Rightarrow>
             Option.bind (walk_all W incl by_id children (Suc depth) s') (\<lambda>s''.
             walk_all W incl by_id rest depth s'')))"

definition node_map :: "daml_transaction \<Rightarrow> node_type option bmap" where
  "node_map tx = bof_list (List.map_filter
     (\<lambda>n. map_option (\<lambda>v1. (tn_node_id n, v1)) (tn_versioned_node n)) (tx_nodes tx))"

text \<open>The roots, and after them the nodes the roots did not reach: the test that guards the second
  loop is the first test of \<open>walk\<close>.\<close>

definition walk_transaction :: "ledger_wire \<Rightarrow> bool \<Rightarrow> daml_transaction \<Rightarrow> walk_state option" where
  "walk_transaction W incl tx =
     Option.bind (walk_all W incl (node_map tx) (tx_roots tx) 0 walk_start) (\<lambda>s.
     walk_all W incl (node_map tx) (map tn_node_id (tx_nodes tx)) 0 s)"

definition input_contract_of :: "ledger_wire \<Rightarrow> string set \<Rightarrow> meta_input \<Rightarrow> input_contract" where
  "input_contract_of W consumed ic =
     (let cid = (case mi_contract ic of Some c \<Rightarrow> cr_contract_id c | None \<Rightarrow> []) in
      \<lparr>ic_contract_id = cid,
       ic_template_id = Option.bind (mi_contract ic) (\<lambda>c. map_option identifier_string (cr_template_id c)),
       ic_created_at = micros_to_rfc3339 W (mi_created_at ic),
       ic_signatories = (case mi_contract ic of Some c \<Rightarrow> cr_signatories c | None \<Rightarrow> []),
       ic_stakeholders = (case mi_contract ic of Some c \<Rightarrow> cr_stakeholders c | None \<Rightarrow> []),
       ic_consumed = (cid \<in> consumed)\<rparr>)"

text \<open>\<open>None\<close> would be a walk that does not return.\<close>

definition effects_of :: "ledger_wire \<Rightarrow> prepared_transaction \<Rightarrow> nat \<Rightarrow> string \<Rightarrow> string \<Rightarrow> bool \<Rightarrow>
    (decode_error + effects) option" where
  "effects_of W prepared size_bytes hash_base64 scheme incl =
     (case pt_transaction prepared of
        None \<Rightarrow> Some (Err MissingTransaction)
      | Some tx \<Rightarrow>
          (let meta = (case pt_metadata prepared of Some m \<Rightarrow> m | None \<Rightarrow> default_metadata);
               submitter = (case md_submitter_info meta of Some s \<Rightarrow> s | None \<Rightarrow> default_submitter) in
           map_option (\<lambda>s. Ok
             \<lparr>fx_transaction_version = tx_version tx,
              fx_roots = tx_roots tx,
              fx_nodes = ws_out s,
              fx_counts = ws_counts s,
              fx_informees = sorted_list_of_set (ws_informees s),
              fx_input_contracts = map (input_contract_of W (ws_consumed s)) (md_input_contracts meta),
              fx_act_as = si_act_as submitter,
              fx_command_id = si_command_id submitter,
              fx_synchronizer_id = md_synchronizer_id meta,
              fx_mediator_group = md_mediator_group meta,
              fx_transaction_uuid = md_transaction_uuid meta,
              fx_preparation_time = micros_to_rfc3339 W (md_preparation_time meta),
              fx_min_ledger_effective_time =
                Option.bind (md_min_ledger_effective_time meta) (micros_to_rfc3339 W),
              fx_max_ledger_effective_time =
                Option.bind (md_max_ledger_effective_time meta) (micros_to_rfc3339 W),
              fx_max_record_time = Option.bind (md_max_record_time meta) (micros_to_rfc3339 W),
              fx_prepared_size_bytes = size_bytes,
              fx_prepared_transaction_hash_hex =
                (case b64_decode W (trim hash_base64) of Some b \<Rightarrow> hex_text b | None \<Rightarrow> []),
              fx_hashing_scheme_version = scheme\<rparr>)
             (walk_transaction W incl tx)))"

end
