(* ===== verification/Effects_Correct.thy ===== *)
theory Effects_Correct
  imports Effects
begin

text \<open>
  What the walk over a prepared transaction does: it returns on every graph of nodes, cyclic ones
  included, lists every node that has a type exactly once, and its counters, parties and consumed
  contracts are those of the listed nodes.
\<close>

subsection \<open>Termination\<close>

text \<open>The nodes a walk can still enter.\<close>

definition unseen :: "node_type option bmap \<Rightarrow> walk_state \<Rightarrow> string set" where
  "unseen by_id s = set (bkeys by_id) - ws_visited s"

lemma finite_unseen [simp]: "finite (unseen by_id s)"
  by (simp add: unseen_def)

lemma enter_visited: "ws_visited (fst (enter W incl by_id i d s)) = insert i (ws_visited s)"
  by (auto simp: enter_def Let_def insert_absorb split: option.splits)

lemma enter_children:
  "snd (enter W incl by_id i d s) \<noteq> [] \<Longrightarrow> i \<in> unseen by_id s"
  by (auto simp: enter_def Let_def unseen_def bkeys_def bget_def dest!: map_of_SomeD
      split: option.splits if_splits intro!: image_eqI)

lemma card_unseen_enter:
  assumes "enter W incl by_id i d s = (s', c # cs)"
  shows "card (unseen by_id s') < card (unseen by_id s)"
proof (rule psubset_card_mono)
  have "i \<in> unseen by_id s" using enter_children assms by (metis list.distinct(1) snd_conv)
  moreover have "ws_visited s' = insert i (ws_visited s)" using enter_visited assms by (metis fst_conv)
  ultimately show "unseen by_id s' \<subset> unseen by_id s" by (auto simp: unseen_def)
qed simp

lemma card_unseen_mono: "ws_visited s \<subseteq> ws_visited s' \<Longrightarrow> card (unseen by_id s') \<le> card (unseen by_id s)"
  by (rule card_mono) (auto simp: unseen_def)

lemma walk_all_Nil [simp]: "walk_all W incl by_id [] d s = Some s"
  by (simp add: walk_all.simps)

lemma walk_all_Cons:
  "walk_all W incl by_id (i # rest) d s =
     (case enter W incl by_id i d s of (s', children) \<Rightarrow>
        Option.bind (walk_all W incl by_id children (Suc d) s') (walk_all W incl by_id rest d))"
  by (subst walk_all.simps) (simp add: case_prod_beta)

lemma walk_all_returns:
  "\<exists>s'. walk_all W incl by_id ids d s = Some s' \<and> ws_visited s \<union> set ids \<subseteq> ws_visited s'"
proof (induction "card (unseen by_id s)" arbitrary: ids d s rule: less_induct)
  case less
  have outer: "\<exists>s'. walk_all W incl by_id is e t = Some s' \<and> ws_visited t \<union> set is \<subseteq> ws_visited s'"
    if "card (unseen by_id t) < card (unseen by_id s)" for "is" e t
    using less that by blast
  show ?case
  proof -
    have "\<exists>s'. walk_all W incl by_id ids d t = Some s' \<and> ws_visited t \<union> set ids \<subseteq> ws_visited s'"
      if "card (unseen by_id t) \<le> card (unseen by_id s)" for t
      using that
    proof (induction ids arbitrary: t)
      case Nil
      then show ?case by simp
    next
      case (Cons i rest)
      obtain t' cs where e: "enter W incl by_id i d t = (t', cs)" by fastforce
      then have v: "ws_visited t' = insert i (ws_visited t)" using enter_visited by (metis fst_conv)
      obtain u where u: "walk_all W incl by_id cs (Suc d) t' = Some u" "ws_visited t' \<subseteq> ws_visited u"
      proof (cases cs)
        case Nil
        with that show ?thesis by simp
      next
        case c: (Cons c cs')
        with card_unseen_enter e Cons.prems have "card (unseen by_id t') < card (unseen by_id s)"
          by (metis order_less_le_trans)
        with outer that show ?thesis by (metis le_sup_iff)
      qed
      have "card (unseen by_id u) \<le> card (unseen by_id s)"
        using Cons.prems card_unseen_mono [of t u] u v by (metis insert_subset order_trans)
      from Cons.IH [OF this] u v e show ?case by (auto simp: walk_all_Cons)
    qed
    then show ?thesis by blast
  qed
qed

subsection \<open>The walk as a relation\<close>

inductive walks :: "ledger_wire \<Rightarrow> bool \<Rightarrow> node_type option bmap \<Rightarrow> string list \<Rightarrow> nat \<Rightarrow> walk_state \<Rightarrow> walk_state \<Rightarrow> bool"
  for W :: ledger_wire and incl :: bool and by_id :: "node_type option bmap" where
  walks_done: "walks W incl by_id [] d s s"
| walks_next: "enter W incl by_id i d s = (t, cs) \<Longrightarrow> walks W incl by_id cs (Suc d) t u \<Longrightarrow>
    walks W incl by_id rest d u s' \<Longrightarrow> walks W incl by_id (i # rest) d s s'"

lemma walk_all_walks: "walk_all W incl by_id ids d s = Some s' \<Longrightarrow> walks W incl by_id ids d s s'"
proof (rule walk_all.raw_induct [where P = walks])
  fix walk W incl by_id ids d s s'
  assume IH: "\<And>W incl by_id ids d s s'. walk W incl by_id ids d s = Some s' \<Longrightarrow> walks W incl by_id ids d s s'"
    and body: "(case ids of [] \<Rightarrow> Some s
      | i # rest \<Rightarrow> (case enter W incl by_id i d s of (t, cs) \<Rightarrow>
          Option.bind (walk W incl by_id cs (Suc d) t) (walk W incl by_id rest d))) = Some s'"
  show "walks W incl by_id ids d s s'"
  proof (cases ids)
    case Nil
    with body show ?thesis by (simp add: walks_done)
  next
    case (Cons i rest)
    obtain t cs where e: "enter W incl by_id i d s = (t, cs)" by fastforce
    with body Cons obtain u where "walk W incl by_id cs (Suc d) t = Some u"
      "walk W incl by_id rest d u = Some s'" by (auto split: bind_splits)
    with IH e Cons show ?thesis by (blast intro: walks_next)
  qed
qed

lemma walks_visited: "walks W incl by_id ids d s s' \<Longrightarrow> ws_visited s \<union> set ids \<subseteq> ws_visited s'"
proof (induction rule: walks.induct)
  case (walks_next i d s t cs u rest s')
  then show ?case using enter_visited [of W incl by_id i d s] by auto
qed simp

text \<open>What entering a node keeps, the walk keeps.\<close>

lemma walks_invariant:
  assumes "walks W incl by_id ids d s s'" "I s"
    and "\<And>i d s. I s \<Longrightarrow> I (fst (enter W incl by_id i d s))"
  shows "I s'"
  using assms by (induction rule: walks.induct) (metis fst_conv)+

text \<open>A node that is listed was unseen, and only listed nodes have children to descend to.\<close>

lemma enter_cases:
  obtains (skipped) "enter W incl by_id i d s = (s\<lparr>ws_visited := insert i (ws_visited s)\<rparr>, [])"
      "i \<in> ws_visited s \<or> (\<forall>n. bget by_id i \<noteq> Some (Some n))"
  | (listed) n where "i \<notin> ws_visited s" "bget by_id i = Some (Some n)"
      "enter W incl by_id i d s =
        (s\<lparr>ws_visited := insert i (ws_visited s), ws_counts := count_node n (ws_counts s),
           ws_informees := ws_informees s \<union> set (node_informees n),
           ws_consumed := ws_consumed s \<union> node_consumes n,
           ws_out := ws_out s @ [effect_of W incl i d n]\<rparr>,
         filter (bcontains by_id) (node_children n))"
proof (cases "i \<in> ws_visited s \<or> (\<forall>n. bget by_id i \<noteq> Some (Some n))")
  case True
  then have "enter W incl by_id i d s = (s\<lparr>ws_visited := insert i (ws_visited s)\<rparr>, [])"
    by (cases "bget by_id i") (auto simp: enter_def Let_def insert_absorb split: option.splits)
  with True skipped show ?thesis by blast
next
  case False
  then show ?thesis by (auto simp: enter_def intro!: listed)
qed

subsection \<open>Depth\<close>

lemma effect_of_simps [simp]:
  "en_depth (effect_of W incl i d n) = d" "en_node_id (effect_of W incl i d n) = i"
  by (simp_all add: effect_of_def split: node_type.split)

lemma card_entered:
  assumes "bget by_id i = Some v" "i \<notin> ws_visited s"
  shows "card (set (bkeys by_id) \<inter> insert i (ws_visited s)) = Suc (card (set (bkeys by_id) \<inter> ws_visited s))"
  using assms by (simp add: bkeys_bget)

lemma card_keys_le: "card (set (bkeys by_id) \<inter> A) \<le> blen by_id"
  by (rule order_trans [OF card_mono [of "set (bkeys by_id)"]])
     (auto simp: blen_def bkeys_def intro: order_trans [OF card_image_le] card_length)

text \<open>The depth is at most the number of nodes entered before.\<close>

lemma walks_depth:
  assumes "walks W incl by_id ids d s s'" "\<forall>e \<in> set (ws_out s). en_depth e < blen by_id"
    "d \<le> card (set (bkeys by_id) \<inter> ws_visited s)"
  shows "\<forall>e \<in> set (ws_out s'). en_depth e < blen by_id"
  using assms
proof (induction rule: walks.induct)
  case (walks_done d s)
  then show ?case by simp
next
  case (walks_next i d s t cs u rest s')
  let ?K = "set (bkeys by_id)"
  have visited: "card (?K \<inter> ws_visited s) \<le> card (?K \<inter> ws_visited u)"
    using walks_visited [OF walks_next.hyps(2)] enter_visited [of W incl by_id i d s] walks_next.hyps(1)
    by (intro card_mono) auto
  have t: "\<forall>e \<in> set (ws_out t). en_depth e < blen by_id" "cs \<noteq> [] \<longrightarrow> Suc d \<le> card (?K \<inter> ws_visited t)"
  proof (atomize (full), cases rule: enter_cases [of W incl by_id i d s])
    case skipped
    with walks_next.hyps(1) walks_next.prems(1) show "(\<forall>e \<in> set (ws_out t). en_depth e < blen by_id) \<and>
        (cs \<noteq> [] \<longrightarrow> Suc d \<le> card (?K \<inter> ws_visited t))" by auto
  next
    case (listed n)
    have deep: "Suc d \<le> card (?K \<inter> ws_visited t)"
      using listed walks_next.hyps(1) walks_next.prems(2) by (simp add: card_entered)
    then have "d < blen by_id" using card_keys_le le_trans Suc_le_lessD by metis
    with deep listed(3) walks_next.hyps(1) walks_next.prems(1) show "(\<forall>e \<in> set (ws_out t). en_depth e < blen by_id) \<and>
        (cs \<noteq> [] \<longrightarrow> Suc d \<le> card (?K \<inter> ws_visited t))" by auto
  qed
  have "\<forall>e \<in> set (ws_out u). en_depth e < blen by_id"
  proof (cases cs)
    case Nil
    with walks_next.hyps(2) have "u = t" by (auto elim: walks.cases)
    with t(1) show ?thesis by simp
  next
    case (Cons c cs')
    with t walks_next.IH(1) show ?thesis by simp
  qed
  with walks_next.IH(2) walks_next.prems(2) visited show ?case by (meson order_trans)
qed

subsection \<open>What is listed\<close>

text \<open>
  The nodes a walk entered, with their depths, in order: the state is what they add up to.
\<close>

definition replays :: "ledger_wire \<Rightarrow> bool \<Rightarrow> node_type option bmap \<Rightarrow> (string \<times> nat \<times> node_type) list \<Rightarrow>
    walk_state \<Rightarrow> bool" where
  "replays W incl by_id steps s \<longleftrightarrow>
     distinct (map fst steps) \<and>
     (\<forall>(i, d, n) \<in> set steps. bget by_id i = Some (Some n)) \<and>
     fst ` set steps = {i \<in> ws_visited s. \<exists>n. bget by_id i = Some (Some n)} \<and>
     ws_out s = map (\<lambda>(i, d, n). effect_of W incl i d n) steps \<and>
     ws_counts s = fold (\<lambda>(i, d, n). count_node n) steps no_counts \<and>
     ws_informees s = (\<Union>(i, d, n) \<in> set steps. set (node_informees n)) \<and>
     ws_consumed s = (\<Union>(i, d, n) \<in> set steps. node_consumes n)"

lemma replays_start: "replays W incl by_id [] walk_start"
  by (simp add: replays_def walk_start_def)

lemma replays_enter:
  assumes "replays W incl by_id steps s"
  shows "\<exists>steps'. replays W incl by_id steps' (fst (enter W incl by_id i d s))"
proof (cases rule: enter_cases [of W incl by_id i d s])
  case skipped
  then have "replays W incl by_id steps (fst (enter W incl by_id i d s))"
    using assms by (auto simp: replays_def)
  then show ?thesis by blast
next
  case (listed n)
  have "i \<notin> fst ` set steps" using assms listed(1) by (auto simp: replays_def)
  with assms listed have "replays W incl by_id (steps @ [(i, d, n)]) (fst (enter W incl by_id i d s))"
    by (auto simp: replays_def)
  then show ?thesis by blast
qed

lemma walks_replays:
  "walks W incl by_id ids d s s' \<Longrightarrow> \<exists>steps. replays W incl by_id steps s \<Longrightarrow>
     \<exists>steps. replays W incl by_id steps s'"
  by (erule walks_invariant) (auto dest: replays_enter)

text \<open>The counters of a list of effects.\<close>

definition counts_of :: "effect_node list \<Rightarrow> effect_counts" where
  "counts_of es =
     \<lparr>ec_creates = length (filter (\<lambda>e. en_kind e = KCreate) es),
      ec_archives = length (filter (\<lambda>e. en_consuming e = Some True) es),
      ec_exercises = length (filter (\<lambda>e. en_kind e = KExercise) es),
      ec_fetches = length (filter (\<lambda>e. en_kind e = KFetch) es),
      ec_rollbacks = length (filter (\<lambda>e. en_kind e = KRollback) es)\<rparr>"

lemma count_node_snoc:
  "count_node n (counts_of es) = counts_of (es @ [effect_of W incl i d n])"
  by (simp add: counts_of_def count_node_def effect_of_def Let_def split: node_type.split)

lemma fold_count_node:
  "fold (\<lambda>(i, d, n). count_node n) steps no_counts = counts_of (map (\<lambda>(i, d, n). effect_of W incl i d n) steps)"
proof (induction steps rule: rev_induct)
  case Nil
  then show ?case by (simp add: counts_of_def no_counts_def)
next
  case (snoc x xs)
  then show ?case by (cases x) (simp add: count_node_snoc [of _ _ W incl])
qed

definition effect_informees :: "effect_node \<Rightarrow> string set" where
  "effect_informees e = set (en_signatories e) \<union> set (en_stakeholders e) \<union> set (en_acting_parties e) \<union>
     set (en_choice_observers e)"

lemma effect_informees_of [simp]: "effect_informees (effect_of W incl i d n) = set (node_informees n)"
  by (auto simp: effect_informees_def effect_of_def node_informees_def split: node_type.split)

text \<open>The whole transaction: the walk enters every node of the map.\<close>

lemma node_map_keys: "set (bkeys (node_map tx)) \<subseteq> set (map tn_node_id (tx_nodes tx))"
  by (auto simp: node_map_def bkeys_bof_list map_filter_def)

lemma walk_transaction_Some:
  obtains s steps where "walk_transaction W incl tx = Some s"
    "replays W incl (node_map tx) steps s" "set (bkeys (node_map tx)) \<subseteq> ws_visited s"
    "\<forall>e \<in> set (ws_out s). en_depth e < blen (node_map tx)"
proof -
  obtain s where s: "walk_all W incl (node_map tx) (tx_roots tx) 0 walk_start = Some s"
    using walk_all_returns by blast
  obtain s' where s': "walk_all W incl (node_map tx) (map tn_node_id (tx_nodes tx)) 0 s = Some s'"
    "set (map tn_node_id (tx_nodes tx)) \<subseteq> ws_visited s'"
    using walk_all_returns by (metis le_sup_iff)
  have walks: "walks W incl (node_map tx) (tx_roots tx) 0 walk_start s"
    "walks W incl (node_map tx) (map tn_node_id (tx_nodes tx)) 0 s s'"
    using s s'(1) walk_all_walks by blast+
  have "\<exists>steps. replays W incl (node_map tx) steps s'"
    using walks_replays [OF walks(2) walks_replays [OF walks(1)]] replays_start by blast
  moreover have "\<forall>e \<in> set (ws_out s'). en_depth e < blen (node_map tx)"
    using walks_depth [OF walks(2) walks_depth [OF walks(1)]] by (simp add: walk_start_def)
  moreover have "walk_transaction W incl tx = Some s'" using s s'(1) by (simp add: walk_transaction_def)
  ultimately show ?thesis using that s'(2) node_map_keys by blast
qed

subsection \<open>Transactions that are forests\<close>

text \<open>
  A transaction a participant prepares is a forest, every node below one parent or a root. On
  such a transaction the visited set never cuts a branch: the walk lists the forest in preorder.
\<close>

datatype tx_tree = Tx_Tree string node_type "tx_tree list"

fun tree_ids :: "tx_tree \<Rightarrow> string list" where
  "tree_ids (Tx_Tree i n ts) = i # concat (map tree_ids ts)"

fun tree_effects :: "ledger_wire \<Rightarrow> bool \<Rightarrow> nat \<Rightarrow> tx_tree \<Rightarrow> effect_node list" where
  "tree_effects W incl d (Tx_Tree i n ts) =
     effect_of W incl i d n # concat (map (tree_effects W incl (Suc d)) ts)"

fun tree_of :: "node_type option bmap \<Rightarrow> tx_tree \<Rightarrow> bool" where
  "tree_of by_id (Tx_Tree i n ts) \<longleftrightarrow>
     bget by_id i = Some (Some n) \<and> node_children n = map (\<lambda>t. hd (tree_ids t)) ts \<and>
     list_all (tree_of by_id) ts"

abbreviation tree_root :: "tx_tree \<Rightarrow> string" where
  "tree_root t \<equiv> hd (tree_ids t)"

lemma tree_of_root: "tree_of by_id t \<Longrightarrow> bcontains by_id (tree_root t)"
  by (cases t) (simp add: bcontains_def)

lemma walks_forest:
  assumes "walks W incl by_id ids d s s'" "ids = map tree_root ts" "list_all (tree_of by_id) ts"
    "distinct (concat (map tree_ids ts))" "set (concat (map tree_ids ts)) \<inter> ws_visited s = {}"
  shows "ws_out s' = ws_out s @ concat (map (tree_effects W incl d) ts) \<and>
    ws_visited s' = ws_visited s \<union> set (concat (map tree_ids ts))"
  using assms
proof (induction arbitrary: ts rule: walks.induct)
  case (walks_done d s)
  then show ?case by simp
next
  case (walks_next i d s t cs u rest s')
  obtain n us ts' where ts: "ts = Tx_Tree i n us # ts'" "rest = map tree_root ts'"
  proof (cases ts)
    case (Cons a ts')
    with walks_next.prems(1) that show ?thesis by (cases a) auto
  qed (use walks_next.prems(1) in simp)
  have n: "bget by_id i = Some (Some n)" "node_children n = map tree_root us" "list_all (tree_of by_id) us"
    using walks_next.prems(2) ts by simp_all
  have "filter (bcontains by_id) (node_children n) = node_children n"
    using n(2,3) tree_of_root by (auto simp: filter_id_conv list_all_iff)
  then have t: "cs = map tree_root us" "ws_visited t = insert i (ws_visited s)"
    "ws_out t = ws_out s @ [effect_of W incl i d n]"
    using walks_next.hyps(1) walks_next.prems(4) ts n by (auto simp: enter_def Let_def)
  have u: "ws_out u = ws_out t @ concat (map (tree_effects W incl (Suc d)) us)"
    "ws_visited u = ws_visited t \<union> set (concat (map tree_ids us))"
    using walks_next.IH(1) [OF t(1) n(3)] walks_next.prems(3,4) ts(1) t(2) by auto
  have "ws_out s' = ws_out u @ concat (map (tree_effects W incl d) ts') \<and>
      ws_visited s' = ws_visited u \<union> set (concat (map tree_ids ts'))"
    using walks_next.prems(2-4) ts(1) u(2) t(2) by (intro walks_next.IH(2) [OF ts(2)]) auto
  with u t ts(1) show ?case by (simp add: Un_assoc)
qed

lemma walks_all_visited:
  assumes "walks W incl by_id ids d s s'" "set ids \<subseteq> ws_visited s"
  shows "s' = s"
  using assms
proof (induction rule: walks.induct)
  case (walks_next i d s t cs u rest s')
  then have "t = s" "cs = []" by (auto simp: enter_def)
  with walks_next have "u = s" by (auto elim: walks.cases)
  with walks_next show ?case by simp
qed simp

end
