(* ===== verification/Simulation_Properties.thy ===== *)
theory Simulation_Properties
  imports Effects_Correct
begin

text \<open>
  The properties of the transaction simulator, with a small transaction to apply them to.
\<close>

subsection \<open>A sample transaction\<close>

text \<open>
  A rollback node over a consuming exercise that creates a contract. The identifiers are \<open>0\<close>,
  \<open>1\<close> and \<open>2\<close>; the exercised contract \<open>c\<close> is an input.
\<close>

definition sample_wire :: ledger_wire where
  "sample_wire = \<lparr>b64_decode = Some, proto_decode = (\<lambda>_. None), instant_text = (\<lambda>_. Some ''then''),
     date_text = (\<lambda>_. Some ''day'')\<rparr>"

definition sample_exercise :: exercise_node where
  "sample_exercise =
     \<lparr>ex_contract_id = ''c'', ex_package_name = ''p'', ex_template_id = None, ex_signatories = [''alice''],
      ex_stakeholders = [''alice''], ex_acting_parties = [''bob''], ex_interface_id = None,
      ex_choice_id = ''Debit'', ex_chosen_value = None, ex_consuming = True, ex_children = [''2''],
      ex_exercise_result = None, ex_choice_observers = []\<rparr>"

definition sample_create :: create_node where
  "sample_create =
     \<lparr>cr_contract_id = ''d'', cr_package_name = ''p'', cr_template_id = None, cr_argument = None,
      cr_signatories = [''alice''], cr_stakeholders = [''alice'', ''carol'']\<rparr>"

definition sample_transaction :: daml_transaction where
  "sample_transaction =
     \<lparr>tx_version = ''2.1'', tx_roots = [''0''],
      tx_nodes =
        [\<lparr>tn_node_id = ''0'', tn_versioned_node = Some (Some (NRollback [''1'']))\<rparr>,
         \<lparr>tn_node_id = ''1'', tn_versioned_node = Some (Some (NExercise sample_exercise))\<rparr>,
         \<lparr>tn_node_id = ''2'', tn_versioned_node = Some (Some (NCreate sample_create))\<rparr>]\<rparr>"

definition sample_prepared :: prepared_transaction where
  "sample_prepared =
     \<lparr>pt_transaction = Some sample_transaction,
      pt_metadata = Some (default_metadata\<lparr>md_input_contracts :=
        [\<lparr>mi_contract = Some (sample_create\<lparr>cr_contract_id := ''c''\<rparr>), mi_created_at = 1\<rparr>]\<rparr>)\<rparr>"

lemma sample_node_map:
  "bget (node_map sample_transaction) =
     [''0'' \<mapsto> Some (NRollback [''1'']), ''1'' \<mapsto> Some (NExercise sample_exercise), ''2'' \<mapsto> Some (NCreate sample_create)]"
  by (simp add: node_map_def sample_transaction_def map_filter_simps bget_bof_list fun_eq_iff)

lemma sample_walk: "\<exists>s. walk_transaction W incl sample_transaction = Some s"
  using walk_transaction_Some by metis

lemma sample_effects:
  "\<exists>fx. effects_of sample_wire sample_prepared 9 ''h'' ''v2'' True = Some (Inr fx)"
  using sample_walk [of sample_wire True] by (auto simp: effects_of_def sample_prepared_def Let_def)

subsection \<open>Effects\<close>

lemma effects_of_Ok:
  assumes "effects_of W p n h v incl = Some (Inr fx)" "pt_transaction p = Some tx"
  obtains s steps where "replays W incl (node_map tx) steps s" "set (bkeys (node_map tx)) \<subseteq> ws_visited s"
    "walk_transaction W incl tx = Some s"
    "fx_nodes fx = ws_out s" "fx_counts fx = ws_counts s" "fx_informees fx = sorted_list_of_set (ws_informees s)"
    "fx_input_contracts fx = map (input_contract_of W (ws_consumed s))
       (md_input_contracts (case pt_metadata p of Some m \<Rightarrow> m | None \<Rightarrow> default_metadata))"
    "\<forall>e \<in> set (ws_out s). en_depth e < blen (node_map tx)"
proof -
  obtain s steps where "walk_transaction W incl tx = Some s"
    "replays W incl (node_map tx) steps s" "set (bkeys (node_map tx)) \<subseteq> ws_visited s"
    "\<forall>e \<in> set (ws_out s). en_depth e < blen (node_map tx)"
    using walk_transaction_Some by metis
  with assms that [of steps s] show ?thesis by (auto simp: effects_of_def Let_def)
qed

text \<open>
  C23. Reading the effects of a prepared transaction always returns, whatever graph the nodes
  form: references may be cyclic, shared or dangling. The only error is a message without a
  transaction.
\<close>

theorem effects_always_returned:
  "\<exists>r. effects_of W prepared n hash scheme incl = Some r \<and>
     (is_ok r \<longleftrightarrow> pt_transaction prepared \<noteq> None) \<and> (\<not> is_ok r \<longleftrightarrow> r = Inl MissingTransaction)"
proof (cases "pt_transaction prepared")
  case (Some tx)
  obtain s where "walk_transaction W incl tx = Some s" using walk_transaction_Some by metis
  with Some show ?thesis by (auto simp: effects_of_def Let_def)
qed (simp add: effects_of_def)

text \<open>
  C24. Every node of the transaction that has a type is listed exactly once, under the last message
  that carries its identifier, whether a root reaches it or not; the counters are those of the
  list, and the informees are the parties of the listed nodes, each once and in order.
\<close>

theorem effects_list_nodes_once:
  assumes "effects_of W prepared n hash scheme incl = Some (Inr fx)" "pt_transaction prepared = Some tx"
  shows "distinct (map en_node_id (fx_nodes fx)) \<and>
    en_node_id ` set (fx_nodes fx) = {i. \<exists>nt. bget (node_map tx) i = Some (Some nt)} \<and>
    (\<forall>e \<in> set (fx_nodes fx). \<exists>nt. bget (node_map tx) (en_node_id e) = Some (Some nt) \<and>
       e = effect_of W incl (en_node_id e) (en_depth e) nt) \<and>
    fx_counts fx = counts_of (fx_nodes fx) \<and>
    sorted_wrt (<) (fx_informees fx) \<and> set (fx_informees fx) = (\<Union>e \<in> set (fx_nodes fx). effect_informees e)"
  using assms
proof (rule effects_of_Ok)
  fix s steps
  assume r: "replays W incl (node_map tx) steps s" and all: "set (bkeys (node_map tx)) \<subseteq> ws_visited s"
    and fx: "fx_nodes fx = ws_out s" "fx_counts fx = ws_counts s"
      "fx_informees fx = sorted_list_of_set (ws_informees s)"
  have out: "fx_nodes fx = map (\<lambda>(i, d, nt). effect_of W incl i d nt) steps"
    using r fx by (simp add: replays_def)
  have ids: "map en_node_id (fx_nodes fx) = map fst steps" by (simp add: out comp_def split_beta)
  have "fst ` set steps = {i. \<exists>nt. bget (node_map tx) i = Some (Some nt)}"
    using r all by (auto simp: replays_def bkeys_bget subset_iff)
  then have "en_node_id ` set (fx_nodes fx) = {i. \<exists>nt. bget (node_map tx) i = Some (Some nt)}"
    using ids by (metis list.set_map)
  moreover have "distinct (map en_node_id (fx_nodes fx))" using r ids by (simp add: replays_def)
  moreover have "\<forall>e \<in> set (fx_nodes fx). \<exists>nt. bget (node_map tx) (en_node_id e) = Some (Some nt) \<and>
      e = effect_of W incl (en_node_id e) (en_depth e) nt"
    using r by (fastforce simp: out replays_def)
  moreover have "fx_counts fx = counts_of (fx_nodes fx)"
    using r fx by (simp add: out replays_def fold_count_node [of _ W incl])
  moreover have "ws_informees s = (\<Union>e \<in> set (fx_nodes fx). effect_informees e)"
    using r by (auto simp: out replays_def split_beta)
  moreover from this have "finite (ws_informees s)" by (simp add: effect_informees_def)
  ultimately show ?thesis using fx by (simp add: strict_sorted_iff)
qed

theorem effects_list_nodes_once_witness:
  "\<exists>fx. effects_of sample_wire sample_prepared 9 ''h'' ''v2'' True = Some (Inr fx) \<and>
     en_node_id ` set (fx_nodes fx) = {''0'', ''1'', ''2''}"
proof -
  obtain fx where fx: "effects_of sample_wire sample_prepared 9 ''h'' ''v2'' True = Some (Inr fx)"
    using sample_effects by blast
  have "pt_transaction sample_prepared = Some sample_transaction" by (simp add: sample_prepared_def)
  from effects_list_nodes_once [OF fx this] fx show ?thesis
    by (intro exI [of _ fx]) (auto simp: sample_node_map)
qed

text \<open>
  No effect lies deeper than the number of nodes allows: the depth of a listed node is
  smaller than the number of distinct identifiers in the message. The depth is the number of
  nested calls of the walk, so this bounds its stack as well.
\<close>

theorem effects_depth_bounded:
  assumes "effects_of W prepared n hash scheme incl = Some (Inr fx)" "pt_transaction prepared = Some tx"
  shows "\<forall>e \<in> set (fx_nodes fx). en_depth e < blen (node_map tx)"
  using effects_of_Ok [OF assms] by metis

theorem effects_depth_bounded_witness:
  "\<exists>fx. effects_of sample_wire sample_prepared 9 ''h'' ''v2'' True = Some (Inr fx) \<and>
     (\<forall>e \<in> set (fx_nodes fx). en_depth e < 3)"
proof -
  obtain fx where fx: "effects_of sample_wire sample_prepared 9 ''h'' ''v2'' True = Some (Inr fx)"
    using sample_effects by blast
  have "pt_transaction sample_prepared = Some sample_transaction" by (simp add: sample_prepared_def)
  moreover have "blen (node_map sample_transaction) = 3"
    by (simp add: blen_def node_map_def sample_transaction_def map_filter_simps bof_list_def)
  ultimately show ?thesis using effects_depth_bounded [OF fx] fx by auto
qed

text \<open>
  C22. On a transaction that is a forest over its roots, the walk never meets a node twice: the
  effects are the preorder listing of the trees, each node one deeper than its parent.
\<close>

theorem effects_are_preorder:
  assumes "effects_of W prepared n hash scheme incl = Some (Inr fx)" "pt_transaction prepared = Some tx"
    and "tx_roots tx = map tree_root ts" "list_all (tree_of (node_map tx)) ts"
    and "distinct (concat (map tree_ids ts))"
    and "set (map tn_node_id (tx_nodes tx)) = set (concat (map tree_ids ts))"
  shows "fx_nodes fx = concat (map (tree_effects W incl 0) ts)"
  using assms(1,2)
proof (rule effects_of_Ok)
  fix s
  assume w: "walk_transaction W incl tx = Some s" and fx: "fx_nodes fx = ws_out s"
  then obtain t where t: "walks W incl (node_map tx) (map tree_root ts) 0 walk_start t"
    "walks W incl (node_map tx) (map tn_node_id (tx_nodes tx)) 0 t s"
    using assms(3) by (auto simp: walk_transaction_def bind_eq_Some_conv intro: walk_all_walks)
  have "ws_out t = concat (map (tree_effects W incl 0) ts)" "ws_visited t = set (concat (map tree_ids ts))"
    using walks_forest [OF t(1) refl assms(4,5)] by (simp_all add: walk_start_def)
  with walks_all_visited [OF t(2)] assms(6) fx show ?thesis by simp
qed

theorem effects_are_preorder_witness:
  "\<exists>fx. effects_of sample_wire sample_prepared 9 ''h'' ''v2'' True = Some (Inr fx) \<and>
     map (\<lambda>e. (en_node_id e, en_depth e)) (fx_nodes fx) = [(''0'', 0), (''1'', 1), (''2'', 2)]"
proof -
  obtain fx where fx: "effects_of sample_wire sample_prepared 9 ''h'' ''v2'' True = Some (Inr fx)"
    using sample_effects by blast
  let ?ts = "[Tx_Tree ''0'' (NRollback [''1'']) [Tx_Tree ''1'' (NExercise sample_exercise)
    [Tx_Tree ''2'' (NCreate sample_create) []]]]"
  have "fx_nodes fx = concat (map (tree_effects sample_wire True 0) ?ts)"
    using fx by (rule effects_are_preorder [where tx = sample_transaction])
      (simp_all add: sample_prepared_def sample_transaction_def [symmetric] sample_node_map node_children_def,
       simp_all add: sample_transaction_def sample_exercise_def)
  with fx show ?thesis by simp
qed

text \<open>
  C39. An input contract is reported as consumed exactly when some consuming exercise of the
  transaction names it, wherever that exercise stands. In particular an exercise below a rollback
  node counts, although the ledger undoes it: the sample reports an archive that will not happen.
\<close>

theorem consumed_wherever_exercised:
  assumes "effects_of W prepared n hash scheme incl = Some (Inr fx)" "pt_transaction prepared = Some tx"
  shows "\<forall>ic \<in> set (fx_input_contracts fx). ic_consumed ic \<longleftrightarrow>
    (\<exists>i x. bget (node_map tx) i = Some (Some (NExercise x)) \<and> ex_consuming x \<and>
       ex_contract_id x = ic_contract_id ic)"
  using assms
proof (rule effects_of_Ok)
  fix s steps
  assume r: "replays W incl (node_map tx) steps s" and all: "set (bkeys (node_map tx)) \<subseteq> ws_visited s"
    and ics: "fx_input_contracts fx = map (input_contract_of W (ws_consumed s))
       (md_input_contracts (case pt_metadata prepared of Some m \<Rightarrow> m | None \<Rightarrow> default_metadata))"
  have known: "fst ` set steps = {i. \<exists>nt. bget (node_map tx) i = Some (Some nt)}"
    using r all by (auto simp: replays_def bkeys_bget subset_iff)
  have "cid \<in> ws_consumed s \<longleftrightarrow> (\<exists>i nt. bget (node_map tx) i = Some (Some nt) \<and> cid \<in> node_consumes nt)" for cid
  proof
    assume "cid \<in> ws_consumed s"
    then show "\<exists>i nt. bget (node_map tx) i = Some (Some nt) \<and> cid \<in> node_consumes nt"
      using r by (fastforce simp: replays_def)
  next
    assume "\<exists>i nt. bget (node_map tx) i = Some (Some nt) \<and> cid \<in> node_consumes nt"
    then obtain i nt where nt: "bget (node_map tx) i = Some (Some nt)" "cid \<in> node_consumes nt" by blast
    then obtain d nt' where st: "(i, d, nt') \<in> set steps" using known by fastforce
    with r nt have "nt' = nt" by (fastforce simp: replays_def)
    with st nt r show "cid \<in> ws_consumed s" by (fastforce simp: replays_def)
  qed
  moreover have "(cid \<in> node_consumes nt) = (\<exists>x. nt = NExercise x \<and> ex_consuming x \<and> ex_contract_id x = cid)"
    for cid nt by (auto simp: node_consumes_def split: node_type.splits)
  ultimately show ?thesis by (auto simp: ics input_contract_of_def Let_def)
qed

theorem consumed_wherever_exercised_witness:
  "\<exists>fx. effects_of sample_wire sample_prepared 9 ''h'' ''v2'' True = Some (Inr fx) \<and>
     map ic_consumed (fx_input_contracts fx) = [True] \<and>
     tx_roots sample_transaction = [''0''] \<and> bget (node_map sample_transaction) ''0'' = Some (Some (NRollback [''1'']))"
proof -
  obtain fx where fx: "effects_of sample_wire sample_prepared 9 ''h'' ''v2'' True = Some (Inr fx)"
    using sample_effects by blast
  have tx: "pt_transaction sample_prepared = Some sample_transaction" by (simp add: sample_prepared_def)
  obtain ic where ic: "fx_input_contracts fx = [ic]" "ic_contract_id ic = ''c''"
    using fx by (auto simp: effects_of_def sample_prepared_def Let_def input_contract_of_def)
  have "bget (node_map sample_transaction) ''1'' = Some (Some (NExercise sample_exercise))"
    "ex_consuming sample_exercise" "ex_contract_id sample_exercise = ''c''"
    by (simp_all add: sample_node_map sample_exercise_def)
  with consumed_wherever_exercised [OF fx tx] ic have "ic_consumed ic" by force
  with fx ic show ?thesis by (simp add: sample_node_map, simp add: sample_transaction_def)
qed

end
