(* ===== verification/Fees.thy ===== *)
theory Fees
  imports Json_Value
begin

text \<open>
  Fee estimation, \<open>sim-fee/src/lib.rs\<close>. The arithmetic of \<open>rust_decimal\<close> is a parameter
  \<open>decimals\<close>: an operation that panics, on overflow or on a division by zero, is \<open>None\<close>, and so
  is the result of a function that reaches it. Byte counts are 64-bit words that wrap, as a
  release build does.
\<close>

record 'd decimals =
  d_zero :: 'd
  d_add :: "'d \<Rightarrow> 'd \<Rightarrow> 'd option"
  d_sub :: "'d \<Rightarrow> 'd \<Rightarrow> 'd option"
  d_mul :: "'d \<Rightarrow> 'd \<Rightarrow> 'd option"
  d_div :: "'d \<Rightarrow> 'd \<Rightarrow> 'd option"
  d_le :: "'d \<Rightarrow> 'd \<Rightarrow> bool"
  d_is_zero :: "'d \<Rightarrow> bool"
  d_round :: "nat \<Rightarrow> 'd \<Rightarrow> 'd"
  d_of_nat :: "nat \<Rightarrow> 'd"
  d_to_u64 :: "'d \<Rightarrow> u64 option"
  d_parse :: "string \<Rightarrow> 'd option"

subsection \<open>Traffic\<close>

record traffic_cost =
  tc_confirmation_request :: u64
  tc_confirmation_response :: u64
  tc_total :: u64

definition traffic_cost_new :: "u64 \<Rightarrow> u64 \<Rightarrow> traffic_cost" where
  "traffic_cost_new req resp =
     \<lparr>tc_confirmation_request = req, tc_confirmation_response = resp, tc_total = req + resp\<rparr>"

record 'd traffic_pricing =
  tp_extra_traffic_price_usd_per_mb :: 'd
  tp_amulet_price_usd :: 'd
  tp_min_topup_bytes :: "u64 option"
  tp_source :: string

record 'd traffic_quote =
  tq_cost :: traffic_cost
  tq_usd :: 'd
  tq_cc :: 'd
  tq_pricing :: "'d traffic_pricing"

text \<open>\<open>note\<close> is a constant text and is left out of the quote.\<close>

definition in_cc :: "'d decimals \<Rightarrow> 'd \<Rightarrow> 'd \<Rightarrow> 'd option" where
  "in_cc D usd price =
     (if d_is_zero D price then Some (d_zero D)
      else map_option (d_round D 10) (d_div D usd price))"

definition quote_traffic :: "'d decimals \<Rightarrow> traffic_cost \<Rightarrow> 'd traffic_pricing \<Rightarrow> 'd traffic_quote option" where
  "quote_traffic D cost pricing =
     Option.bind (d_div D (d_of_nat D (unat (tc_total cost))) (d_of_nat D 1000000)) (\<lambda>mb.
     Option.bind (map_option (d_round D 10) (d_mul D mb (tp_extra_traffic_price_usd_per_mb pricing))) (\<lambda>usd.
     Option.bind (in_cc D usd (tp_amulet_price_usd pricing)) (\<lambda>cc.
     Some \<lparr>tq_cost = cost, tq_usd = usd, tq_cc = cc, tq_pricing = pricing\<rparr>)))"

subsection \<open>The Amulet fee schedule\<close>

record 'd amulet_fee_schedule =
  as_create_fee_usd :: 'd
  as_holding_fee_usd_per_round :: 'd
  as_lock_holder_fee_usd :: 'd
  as_transfer_fee_initial_rate :: 'd
  as_transfer_fee_steps :: "('d \<times> 'd) list"
  as_source :: string

text \<open>The loop over the steps, with the \<open>fee\<close>, \<open>lower\<close> and \<open>rate\<close> it carries.\<close>

definition charge :: "'d decimals \<Rightarrow> 'd \<Rightarrow> 'd \<Rightarrow> 'd \<Rightarrow> 'd \<Rightarrow> 'd option" where
  "charge D fee upper lower rate =
     Option.bind (d_sub D upper lower) (\<lambda>part. Option.bind (d_mul D part rate) (d_add D fee))"

fun charge_steps :: "'d decimals \<Rightarrow> 'd \<Rightarrow> ('d \<times> 'd) list \<Rightarrow> 'd \<Rightarrow> 'd \<Rightarrow> 'd \<Rightarrow> 'd option" where
  "charge_steps D amount [] fee lower rate =
     map_option (d_round D 10) (charge D fee amount lower rate)"
| "charge_steps D amount ((threshold, next_rate) # steps) fee lower rate =
     (if d_le D amount threshold then map_option (d_round D 10) (charge D fee amount lower rate)
      else Option.bind (charge D fee threshold lower rate) (\<lambda>fee.
           charge_steps D amount steps fee threshold next_rate))"

definition transfer_fee_usd :: "'d decimals \<Rightarrow> 'd amulet_fee_schedule \<Rightarrow> 'd \<Rightarrow> 'd option" where
  "transfer_fee_usd D S amount_usd =
     (if d_le D amount_usd (d_zero D) then Some (d_zero D)
      else charge_steps D amount_usd (as_transfer_fee_steps S) (d_zero D) (d_zero D)
             (as_transfer_fee_initial_rate S))"

record 'd transfer_output =
  to_amount_cc :: 'd
  to_to_self :: bool
  to_lock_holders :: "32 word"

record 'd amulet_fee_quote =
  aq_amulet_price_usd :: 'd
  aq_transfer_fee_usd :: 'd
  aq_create_fee_usd :: 'd
  aq_lock_holder_fee_usd :: 'd
  aq_total_usd :: 'd
  aq_total_cc :: 'd
  aq_outputs :: nat
  aq_schedule_source :: string

text \<open>The loop over the outputs: the transfer fee and the lock fee so far.\<close>

fun output_fees :: "'d decimals \<Rightarrow> 'd amulet_fee_schedule \<Rightarrow> 'd \<Rightarrow> 'd transfer_output list \<Rightarrow> 'd \<Rightarrow> 'd \<Rightarrow>
    ('d \<times> 'd) option" where
  "output_fees D S price [] transfer_fee lock_fee = Some (transfer_fee, lock_fee)"
| "output_fees D S price (out # outs) transfer_fee lock_fee =
     Option.bind (d_mul D (to_amount_cc out) price) (\<lambda>usd.
     Option.bind (if to_to_self out then Some transfer_fee
                  else Option.bind (transfer_fee_usd D S usd) (d_add D transfer_fee)) (\<lambda>transfer_fee.
     Option.bind (d_mul D (as_lock_holder_fee_usd S) (d_of_nat D (unat (to_lock_holders out)))) (\<lambda>lock.
     Option.bind (d_add D lock_fee lock) (\<lambda>lock_fee.
     output_fees D S price outs transfer_fee lock_fee))))"

definition quote_amulet_transfer :: "'d decimals \<Rightarrow> 'd transfer_output list \<Rightarrow> 'd amulet_fee_schedule \<Rightarrow> 'd \<Rightarrow>
    'd amulet_fee_quote option" where
  "quote_amulet_transfer D outputs S price =
     Option.bind (output_fees D S price outputs (d_zero D) (d_zero D)) (\<lambda>(transfer_fee, lock_fee).
     Option.bind (d_mul D (as_create_fee_usd S) (d_of_nat D (length outputs))) (\<lambda>create_fee.
     Option.bind (d_add D transfer_fee create_fee) (\<lambda>sum.
     Option.bind (map_option (d_round D 10) (d_add D sum lock_fee)) (\<lambda>total_usd.
     Option.bind (in_cc D total_usd price) (\<lambda>total_cc.
     Some \<lparr>aq_amulet_price_usd = price,
           aq_transfer_fee_usd = d_round D 10 transfer_fee,
           aq_create_fee_usd = create_fee,
           aq_lock_holder_fee_usd = lock_fee,
           aq_total_usd = total_usd,
           aq_total_cc = total_cc,
           aq_outputs = length outputs,
           aq_schedule_source = as_source S\<rparr>)))))"

subsection \<open>Schedules\<close>

record 'd fee_schedule =
  fs_traffic :: "'d traffic_pricing"
  fs_amulet :: "'d amulet_fee_schedule"

text \<open>\<open>dec\<close> panics on a literal that does not parse.\<close>

definition traffic_defaults :: "'d decimals \<Rightarrow> 'd traffic_pricing option" where
  "traffic_defaults D =
     Option.bind (d_parse D ''60.0'') (\<lambda>mb.
     Option.bind (d_parse D ''0.005'') (\<lambda>cc.
     Some \<lparr>tp_extra_traffic_price_usd_per_mb = mb, tp_amulet_price_usd = cc, tp_min_topup_bytes = None,
           tp_source = ''splice-defaults''\<rparr>))"

definition amulet_defaults :: "'d decimals \<Rightarrow> 'd amulet_fee_schedule option" where
  "amulet_defaults D =
     Option.bind (those (map (d_parse D)
       [''0.03'', ''0.0000190259'', ''0.005'', ''0.01'', ''100.0'', ''0.001'', ''1000.0'', ''0.0001'',
        ''1000000.0'', ''0.00001''])) (\<lambda>ds.
     Some \<lparr>as_create_fee_usd = ds ! 0, as_holding_fee_usd_per_round = ds ! 1, as_lock_holder_fee_usd = ds ! 2,
           as_transfer_fee_initial_rate = ds ! 3,
           as_transfer_fee_steps = [(ds ! 4, ds ! 5), (ds ! 6, ds ! 7), (ds ! 8, ds ! 9)],
           as_source = ''splice-defaults''\<rparr>)"

definition splice_defaults :: "'d decimals \<Rightarrow> 'd fee_schedule option" where
  "splice_defaults D =
     Option.bind (traffic_defaults D) (\<lambda>t. Option.bind (amulet_defaults D) (\<lambda>a.
     Some \<lparr>fs_traffic = t, fs_amulet = a\<rparr>))"

datatype fee_error = MissingTransferConfig | MissingAmuletPrice | BadDecimal string

definition decimal_of :: "'d decimals \<Rightarrow> json \<Rightarrow> 'd option" where
  "decimal_of D v = (case v of JString s \<Rightarrow> d_parse D (trim s) | JNumber n \<Rightarrow> d_parse D n | _ \<Rightarrow> None)"

text \<open>The first object under a key, depth first; the members of an object come in the order of
  their keys.\<close>

fun find_key :: "string \<Rightarrow> json \<Rightarrow> json option"
  and find_first :: "string \<Rightarrow> json list \<Rightarrow> json option" where
  "find_key key (JObject kvs) =
     (case map_of kvs key of Some hit \<Rightarrow> Some hit | None \<Rightarrow> find_first key (map snd kvs))"
| "find_key key (JArray xs) = find_first key xs"
| "find_key key JNull = None"
| "find_key key (JBool b) = None"
| "find_key key (JNumber n) = None"
| "find_key key (JString s) = None"
| "find_first key [] = None"
| "find_first key (x # xs) = (case find_key key x of Some hit \<Rightarrow> Some hit | None \<Rightarrow> find_first key xs)"

text \<open>\<open>FromStr\<close> of \<open>i64\<close>, and \<open>as_i64\<close> of a number.\<close>

definition parse_i64 :: "string \<Rightarrow> int option" where
  "parse_i64 s =
     (case s of
        [] \<Rightarrow> None
      | c # cs \<Rightarrow>
          let ds = (if c = CHR ''-'' \<or> c = CHR ''+'' then cs else s);
              n = int (digits_val ds)
          in if ds = [] \<or> \<not> list_all is_ascii_digit ds then None
             else if c = CHR ''-'' then (if n \<le> 2 ^ 63 then Some (- n) else None)
             else (if n < 2 ^ 63 then Some n else None))"

definition as_i64 :: "json \<Rightarrow> int option" where
  "as_i64 v = (case v of JNumber n \<Rightarrow> parse_i64 n | _ \<Rightarrow> None)"

definition round_number :: "json \<Rightarrow> int" where
  "round_number v =
     (let number = Option.bind (json_get ''round'' v) (\<lambda>r. case json_get ''number'' r of Some n \<Rightarrow> Some n | None \<Rightarrow> Some r)
      in case Option.bind number (\<lambda>n. case as_i64 n of Some i \<Rightarrow> Some i
           | None \<Rightarrow> Option.bind (as_str n) parse_i64) of
        Some i \<Rightarrow> i | None \<Rightarrow> - 1)"

definition better_price :: "'d decimals \<Rightarrow> json \<Rightarrow> (int \<times> 'd) option \<Rightarrow> (int \<times> 'd) option" where
  "better_price D v best =
     (case Option.bind (json_get ''amuletPrice'' v) (decimal_of D) of
        None \<Rightarrow> best
      | Some price \<Rightarrow>
          (let r = round_number v in
           if (case best of Some (r', _) \<Rightarrow> r' \<le> r | None \<Rightarrow> True) then Some (r, price) else best))"

fun collect_prices :: "'d decimals \<Rightarrow> json \<Rightarrow> (int \<times> 'd) option \<Rightarrow> (int \<times> 'd) option"
  and collect_each :: "'d decimals \<Rightarrow> json list \<Rightarrow> (int \<times> 'd) option \<Rightarrow> (int \<times> 'd) option" where
  "collect_prices D (JObject kvs) best = collect_each D (map snd kvs) (better_price D (JObject kvs) best)"
| "collect_prices D (JArray xs) best = collect_each D xs best"
| "collect_prices D JNull best = best"
| "collect_prices D (JBool b) best = best"
| "collect_prices D (JNumber n) best = best"
| "collect_prices D (JString s) best = best"
| "collect_each D [] best = best"
| "collect_each D (x # xs) best = collect_each D xs (collect_prices D x best)"

definition newest_amulet_price :: "'d decimals \<Rightarrow> json \<Rightarrow> 'd option" where
  "newest_amulet_price D v = map_option snd (collect_prices D v None)"

text \<open>One step of the transfer fee; an entry of another shape is passed over.\<close>

definition step_of :: "'d decimals \<Rightarrow> json \<Rightarrow> fee_error + ('d \<times> 'd) option" where
  "step_of D s =
     (let parsed = (\<lambda>a b.
        and_then (ok_or (decimal_of D a) (BadDecimal ''transferFee.steps._1'')) (\<lambda>x.
        and_then (ok_or (decimal_of D b) (BadDecimal ''transferFee.steps._2'')) (\<lambda>y. Ok (Some (x, y)))))
      in case s of
           JArray [a, b] \<Rightarrow> parsed a b
         | JObject _ \<Rightarrow> parsed (json_index s ''_1'') (json_index s ''_2'')
         | _ \<Rightarrow> Ok None)"

definition fee_steps :: "'d decimals \<Rightarrow> json \<Rightarrow> fee_error + ('d \<times> 'd) list" where
  "fee_steps D cfg =
     (case Option.bind (Option.bind (json_get ''transferFee'' cfg) (json_get ''steps'')) as_array of
        None \<Rightarrow> Ok []
      | Some arr \<Rightarrow> and_then (collect_ok (step_of D) arr) (\<lambda>steps. Ok (List.map_filter (\<lambda>s. s) steps)))"

definition config_decimal :: "'d decimals \<Rightarrow> json \<Rightarrow> string list \<Rightarrow> fee_error + 'd" where
  "config_decimal D cfg path =
     ok_or (decimal_of D (fold (\<lambda>p cur. json_index cur p) path cfg)) (BadDecimal (join ''.'' path))"

definition from_scan_json :: "'d decimals \<Rightarrow> json \<Rightarrow> json \<Rightarrow> string \<Rightarrow> fee_error + 'd fee_schedule" where
  "from_scan_json D amulet_rules mining_rounds source =
     and_then (ok_or (find_key ''transferConfig'' amulet_rules) MissingTransferConfig) (\<lambda>cfg.
     and_then (fee_steps D cfg) (\<lambda>steps.
     and_then (ok_or (newest_amulet_price D mining_rounds) MissingAmuletPrice) (\<lambda>amulet_price.
     (let min_topup = Option.bind (Option.bind (json_get ''minTopupAmount'' cfg) (decimal_of D)) (d_to_u64 D) in
     and_then (config_decimal D cfg [''extraTrafficPrice'']) (\<lambda>extra.
     and_then (config_decimal D cfg [''createFee'', ''fee'']) (\<lambda>create.
     and_then (config_decimal D cfg [''holdingFee'', ''rate'']) (\<lambda>holding.
     and_then (config_decimal D cfg [''lockHolderFee'', ''fee'']) (\<lambda>lock.
     and_then (config_decimal D cfg [''transferFee'', ''initialRate'']) (\<lambda>initial.
     Ok \<lparr>fs_traffic =
           \<lparr>tp_extra_traffic_price_usd_per_mb = extra, tp_amulet_price_usd = amulet_price,
            tp_min_topup_bytes = min_topup, tp_source = source\<rparr>,
         fs_amulet =
           \<lparr>as_create_fee_usd = create, as_holding_fee_usd_per_round = holding, as_lock_holder_fee_usd = lock,
            as_transfer_fee_initial_rate = initial, as_transfer_fee_steps = steps,
            as_source = source\<rparr>\<rparr>)))))))))"

subsection \<open>A standalone quote\<close>

record 'd standalone_fee_quote =
  sq_traffic :: "'d traffic_quote option"
  sq_amulet_fee :: "'d amulet_fee_quote option"
  sq_schedule :: "'d fee_schedule"

definition plain_output :: "'d \<Rightarrow> bool \<Rightarrow> 'd transfer_output" where
  "plain_output amount to_self = \<lparr>to_amount_cc = amount, to_to_self = to_self, to_lock_holders = 0\<rparr>"

text \<open>The outer option is the panic, the inner one the code's own result.\<close>

definition quote_standalone :: "'d decimals \<Rightarrow> 'd fee_schedule \<Rightarrow> u64 \<Rightarrow> u64 \<Rightarrow> 'd list \<Rightarrow>
    'd standalone_fee_quote option option" where
  "quote_standalone D S request_bytes response_bytes transfer_cc =
     Option.bind (if 0 < request_bytes + response_bytes
                  then map_option Some (quote_traffic D (traffic_cost_new request_bytes response_bytes) (fs_traffic S))
                  else Some None) (\<lambda>traffic.
     Option.bind (if transfer_cc \<noteq> []
                  then map_option Some (quote_amulet_transfer D
                         (map (\<lambda>amt. plain_output amt False) transfer_cc @ [plain_output (d_zero D) True])
                         (fs_amulet S) (tp_amulet_price_usd (fs_traffic S)))
                  else Some None) (\<lambda>amulet_fee.
     Some (if traffic = None \<and> amulet_fee = None then None
           else Some \<lparr>sq_traffic = traffic, sq_amulet_fee = amulet_fee, sq_schedule = S\<rparr>)))"

end
