(* ===== verification/Fees_Correct.thy ===== *)
theory Fees_Correct
  imports Fees Complex_Main
begin

text \<open>
  The fee arithmetic over the rationals: what \<open>rust_decimal\<close> documents, the marginal fee a
  schedule of steps means, and that the loop of \<open>transfer_fee_usd\<close> computes it without
  rounding before the end and without overflow.
\<close>

subsection \<open>Decimals\<close>

text \<open>
  A \<open>Decimal\<close> is a 96-bit integer with up to 28 decimals. An operation whose exact result is
  of this form returns it; rounding is to the nearest, ties to even.
\<close>

definition on_grid :: "nat \<Rightarrow> rat \<Rightarrow> bool" where
  "on_grid k q \<longleftrightarrow> (\<exists>m :: int. q * 10 ^ k = of_int m)"

definition representable :: "rat \<Rightarrow> bool" where
  "representable q \<longleftrightarrow> (\<exists>k \<le> 28. on_grid k q \<and> \<bar>q\<bar> * 10 ^ k < 2 ^ 96)"

definition half_even :: "rat \<Rightarrow> int" where
  "half_even x =
     (let f = \<lfloor>x\<rfloor>; r = x - of_int f in
      if r < 1 / 2 then f else if 1 / 2 < r then f + 1 else if even f then f else f + 1)"

definition dround :: "nat \<Rightarrow> rat \<Rightarrow> rat" where
  "dround n q = of_int (half_even (q * 10 ^ n)) / 10 ^ n"

definition exact_op :: "('d \<Rightarrow> rat) \<Rightarrow> ('d \<Rightarrow> 'd \<Rightarrow> 'd option) \<Rightarrow> (rat \<Rightarrow> rat \<Rightarrow> rat) \<Rightarrow> bool" where
  "exact_op val f g \<longleftrightarrow>
     (\<forall>a b. representable (g (val a) (val b)) \<longrightarrow> (\<exists>c. f a b = Some c \<and> val c = g (val a) (val b)))"

definition decimal_spec :: "'d decimals \<Rightarrow> ('d \<Rightarrow> rat) \<Rightarrow> bool" where
  "decimal_spec D val \<longleftrightarrow>
     val (d_zero D) = 0 \<and> exact_op val (d_add D) (+) \<and> exact_op val (d_sub D) (-) \<and>
     exact_op val (d_mul D) (*) \<and> (\<forall>a b. d_le D a b \<longleftrightarrow> val a \<le> val b) \<and>
     (\<forall>n a. val (d_round D n a) = dround n (val a))"

lemma on_grid_0 [simp]: "on_grid k 0"
  by (simp add: on_grid_def exI [of _ 0])

lemma on_grid_add: "on_grid k p \<Longrightarrow> on_grid k q \<Longrightarrow> on_grid k (p + q)"
  by (auto simp: on_grid_def distrib_right) (metis of_int_add)

lemma on_grid_diff: "on_grid k p \<Longrightarrow> on_grid k q \<Longrightarrow> on_grid k (p - q)"
  by (auto simp: on_grid_def left_diff_distrib) (metis of_int_diff)

lemma on_grid_mult: "on_grid j p \<Longrightarrow> on_grid k q \<Longrightarrow> on_grid (j + k) (p * q)"
proof -
  assume "on_grid j p" "on_grid k q"
  then obtain m n :: int where "p * 10 ^ j = of_int m" "q * 10 ^ k = of_int n" by (auto simp: on_grid_def)
  then have "p * q * 10 ^ (j + k) = of_int (m * n)" by (simp add: power_add) (metis mult.assoc mult.left_commute)
  then show ?thesis unfolding on_grid_def by blast
qed

lemma on_grid_mono: "on_grid j q \<Longrightarrow> j \<le> k \<Longrightarrow> on_grid k q"
proof -
  assume "on_grid j q" "j \<le> k"
  then obtain m :: int where "q * 10 ^ j = of_int m" by (auto simp: on_grid_def)
  then have "q * 10 ^ k = of_int (m * 10 ^ (k - j))"
    using \<open>j \<le> k\<close> by (simp add: mult.assoc power_add [symmetric] flip: \<open>q * 10 ^ j = of_int m\<close>)
  then show ?thesis unfolding on_grid_def by blast
qed

lemma representableI:
  assumes "on_grid k q" "k \<le> 28" "0 \<le> q" "q \<le> x" "x * 10 ^ k < 2 ^ 96"
  shows "representable q"
proof -
  have "\<bar>q\<bar> * 10 ^ k \<le> x * 10 ^ k" using assms(3,4) by simp
  with assms(5) have "\<bar>q\<bar> * 10 ^ k < 2 ^ 96" by (rule le_less_trans [rotated])
  with assms(1,2) show ?thesis unfolding representable_def by blast
qed

subsection \<open>Rounding\<close>

lemma half_even_mono: "x \<le> y \<Longrightarrow> half_even x \<le> half_even y"
proof -
  assume le: "x \<le> y"
  have fl: "\<lfloor>x\<rfloor> \<le> \<lfloor>y\<rfloor>" using le by (rule floor_mono)
  show ?thesis
  proof (cases "\<lfloor>x\<rfloor> = \<lfloor>y\<rfloor>")
    case True
    with le show ?thesis by (auto simp: half_even_def Let_def)
  next
    case False
    with fl have "\<lfloor>x\<rfloor> + 1 \<le> \<lfloor>y\<rfloor>" by simp
    then show ?thesis by (auto simp: half_even_def Let_def)
  qed
qed

lemma dround_mono: "p \<le> q \<Longrightarrow> dround n p \<le> dround n q"
  by (simp add: dround_def divide_right_mono half_even_mono)

lemma half_even_of_int [simp]: "half_even (of_int m) = m"
  by (simp add: half_even_def)

lemma dround_on_grid: "on_grid n q \<Longrightarrow> dround n q = q"
  by (auto simp: on_grid_def dround_def) (metis nonzero_mult_div_cancel_right power_not_zero zero_neq_numeral)

subsection \<open>The marginal fee\<close>

text \<open>
  Each bracket \<open>(lower, upper]\<close> of the amount is charged at the rate of its lower threshold: the
  part of the amount that lies in it, times the rate.
\<close>

fun bracket_fee :: "rat \<Rightarrow> rat \<Rightarrow> (rat \<times> rat) list \<Rightarrow> rat \<Rightarrow> rat" where
  "bracket_fee lower rate [] x = rate * max 0 (x - lower)"
| "bracket_fee lower rate ((t, r) # steps) x =
     rate * max 0 (min x t - lower) + bracket_fee t r steps x"

text \<open>Thresholds ascend from \<open>lower\<close>, and rates are fractions.\<close>

fun ascending :: "rat \<Rightarrow> (rat \<times> rat) list \<Rightarrow> bool" where
  "ascending lower [] \<longleftrightarrow> True"
| "ascending lower ((t, r) # steps) \<longleftrightarrow> lower \<le> t \<and> 0 \<le> r \<and> r \<le> 1 \<and> ascending t steps"

lemma bracket_fee_below: "ascending lower steps \<Longrightarrow> x \<le> lower \<Longrightarrow> bracket_fee lower rate steps x = 0"
proof (induction lower rate steps x rule: bracket_fee.induct)
  case (2 lower rate t r steps x)
  then have "min x t - lower \<le> 0" by simp
  with 2 show ?case by simp
qed simp

lemma bracket_fee_mono:
  "ascending lower steps \<Longrightarrow> 0 \<le> rate \<Longrightarrow> x \<le> y \<Longrightarrow> bracket_fee lower rate steps x \<le> bracket_fee lower rate steps y"
proof (induction steps arbitrary: lower rate)
  case Nil
  then show ?case by (simp add: mult_left_mono)
next
  case (Cons s steps)
  obtain t r where "s = (t, r)" by fastforce
  with Cons show ?case by (auto intro!: add_mono mult_left_mono)
qed

subsection \<open>The loop computes the marginal fee\<close>

abbreviation steps_val :: "('d \<Rightarrow> rat) \<Rightarrow> ('d \<times> 'd) list \<Rightarrow> (rat \<times> rat) list" where
  "steps_val val steps \<equiv> map (map_prod val val) steps"

text \<open>Amounts with \<open>a\<close> decimals below \<open>2 ^ 96 / 10 ^ (a + b)\<close>, rates with \<open>b\<close> decimals.\<close>

definition fee_range :: "nat \<Rightarrow> nat \<Rightarrow> rat \<Rightarrow> bool" where
  "fee_range a b x \<longleftrightarrow> on_grid a x \<and> x * 10 ^ (a + b) < 2 ^ 96"

definition steps_grid :: "nat \<Rightarrow> nat \<Rightarrow> (rat \<times> rat) list \<Rightarrow> bool" where
  "steps_grid a b steps \<longleftrightarrow> (\<forall>(t, r) \<in> set steps. on_grid a t \<and> on_grid b r)"

lemma charge_exact:
  assumes D: "decimal_spec D val" and ab: "a + b \<le> 28"
    and grid: "on_grid a (val upper)" "on_grid a (val lower)" "on_grid b (val rate)" "on_grid (a + b) (val fee)"
    and le: "0 \<le> val fee" "val fee \<le> val lower" "val lower \<le> val upper" "val upper \<le> x"
      "0 \<le> val rate" "val rate \<le> 1"
    and x: "x * 10 ^ (a + b) < 2 ^ 96"
  obtains c where "charge D fee upper lower rate = Some c" "val c = val fee + (val upper - val lower) * val rate"
    "on_grid (a + b) (val c)" "0 \<le> val c" "val c \<le> val upper"
proof -
  have in_range: "representable q" if "on_grid (a + b) q" "0 \<le> q" "q \<le> x" for q
    by (rule representableI [OF that(1) ab that(2,3) x])
  have diff: "on_grid a (val upper - val lower)" using grid by (intro on_grid_diff)
  then have "on_grid (a + b) (val upper - val lower)" by (rule on_grid_mono) simp
  then have "representable (val upper - val lower)" using le by (intro in_range) auto
  with D obtain p where p: "d_sub D upper lower = Some p" "val p = val upper - val lower"
    unfolding decimal_spec_def exact_op_def by blast
  have part: "0 \<le> val p * val rate" "val p * val rate \<le> val p"
    using p(2) le by (simp_all add: mult_left_le)
  have prod: "on_grid (a + b) (val p * val rate)" using p(2) diff grid(3) by (simp add: on_grid_mult)
  then have "representable (val p * val rate)" using part p(2) le by (intro in_range) auto
  with D obtain m where m: "d_mul D p rate = Some m" "val m = val p * val rate"
    unfolding decimal_spec_def exact_op_def by blast
  have sum: "on_grid (a + b) (val fee + val m)" "0 \<le> val fee + val m" "val fee + val m \<le> val upper"
    using grid(4) prod part p(2) le m(2) by (auto intro: on_grid_add)
  then have "representable (val fee + val m)" using le by (intro in_range) auto
  with D obtain c where "d_add D fee m = Some c" "val c = val fee + val m"
    unfolding decimal_spec_def exact_op_def by blast
  with sum p m show ?thesis by (intro that [of c]) (simp_all add: charge_def)
qed

lemma charge_steps_exact:
  assumes D: "decimal_spec D val" and ab: "a + b \<le> 28" and x: "fee_range a b (val x)"
  shows "ascending (val lower) (steps_val val steps) \<Longrightarrow> steps_grid a b (steps_val val steps) \<Longrightarrow>
    on_grid a (val lower) \<Longrightarrow> on_grid b (val rate) \<Longrightarrow> on_grid (a + b) (val fee) \<Longrightarrow>
    0 \<le> val fee \<Longrightarrow> val fee \<le> val lower \<Longrightarrow> val lower \<le> val x \<Longrightarrow> 0 \<le> val rate \<Longrightarrow> val rate \<le> 1 \<Longrightarrow>
    \<exists>f. charge_steps D x steps fee lower rate = Some f \<and>
        val f = dround 10 (val fee + bracket_fee (val lower) (val rate) (steps_val val steps) (val x))"
proof (induction steps arbitrary: fee lower rate)
  case Nil
  obtain c where c: "charge D fee x lower rate = Some c" "val c = val fee + (val x - val lower) * val rate"
    using Nil x by (auto simp: fee_range_def intro: charge_exact [OF D ab, of x lower rate fee "val x"])
  with Nil D show ?case by (auto simp: decimal_spec_def mult.commute)
next
  case (Cons s steps)
  obtain t r where s: "s = (t, r)" by fastforce
  have le: "d_le D x t \<longleftrightarrow> val x \<le> val t" using D by (simp add: decimal_spec_def)
  show ?case
  proof (cases "val x \<le> val t")
    case True
    obtain c where c: "charge D fee x lower rate = Some c" "val c = val fee + (val x - val lower) * val rate"
      using Cons.prems x by (auto simp: fee_range_def intro: charge_exact [OF D ab, of x lower rate fee "val x"])
    have "bracket_fee (val t) (val r) (steps_val val steps) (val x) = 0"
      using Cons.prems(1) s True by (intro bracket_fee_below) simp_all
    with c True D Cons.prems(8) show ?thesis
      by (auto simp: s le decimal_spec_def mult.commute)
  next
    case False
    have t: "val lower \<le> val t" "on_grid a (val t)" "on_grid b (val r)" "0 \<le> val r" "val r \<le> 1"
      "ascending (val t) (steps_val val steps)" "steps_grid a b (steps_val val steps)"
      using Cons.prems(1,2) by (simp_all add: s steps_grid_def)
    obtain c where c: "charge D fee t lower rate = Some c" "val c = val fee + (val t - val lower) * val rate"
      "on_grid (a + b) (val c)" "0 \<le> val c" "val c \<le> val t"
      using Cons.prems t x False
      by (auto simp: fee_range_def intro: charge_exact [OF D ab, of t lower rate fee "val x"])
    from Cons.IH [OF t(6,7,2,3) c(3-5) _ t(4,5)] False obtain f where
      "charge_steps D x steps c t r = Some f"
      "val f = dround 10 (val c + bracket_fee (val t) (val r) (steps_val val steps) (val x))" by auto
    with c False t(1) show ?thesis by (auto simp: s le mult.commute add.assoc)
  qed
qed

end
