(* ===== verification/Fee_Properties.thy ===== *)
theory Fee_Properties
  imports Fees_Correct
begin

text \<open>
  The properties of the fee estimation, with exact rational arithmetic as the instance they are
  applied to.
\<close>

subsection \<open>Sample arithmetic and schedule\<close>

definition rat_decimals :: "rat decimals" where
  "rat_decimals =
     \<lparr>d_zero = 0, d_add = (\<lambda>a b. Some (a + b)), d_sub = (\<lambda>a b. Some (a - b)), d_mul = (\<lambda>a b. Some (a * b)),
      d_div = (\<lambda>a b. if b = 0 then None else Some (a / b)), d_le = (\<le>), d_is_zero = (\<lambda>a. a = 0),
      d_round = dround, d_of_nat = of_nat, d_to_u64 = (\<lambda>_. None),
      d_parse = (\<lambda>s. map_option of_nat (map_option unat (parse_unsigned s :: u64 option)))\<rparr>"

lemma rat_decimals_spec: "decimal_spec rat_decimals (\<lambda>q. q)"
  by (simp add: decimal_spec_def exact_op_def rat_decimals_def)

definition sample_schedule :: "rat amulet_fee_schedule" where
  "sample_schedule =
     \<lparr>as_create_fee_usd = 3 / 100, as_holding_fee_usd_per_round = 0, as_lock_holder_fee_usd = 5 / 1000,
      as_transfer_fee_initial_rate = 1 / 100,
      as_transfer_fee_steps = [(100, 1 / 1000), (1000, 1 / 10000), (1000000, 1 / 100000)],
      as_source = ''splice-defaults''\<rparr>"

subsection \<open>Transfer fees\<close>

text \<open>
  C25. The transfer fee is the marginal fee of the schedule: each part of the amount is charged at
  the rate of the bracket it lies in, and the sum is rounded once, to ten decimals. For amounts
  with \<open>a\<close> and rates with \<open>b\<close> decimals, \<open>a + b\<close> at most 28, and amounts below
  \<open>2 ^ 96 / 10 ^ (a + b)\<close>, no operation overflows or rounds on the way, so the call returns.
\<close>

theorem transfer_fee_exact:
  assumes "decimal_spec D val" "a + b \<le> 28" "fee_range a b (val x)"
    and "on_grid b (val (as_transfer_fee_initial_rate S))"
    and "0 \<le> val (as_transfer_fee_initial_rate S)" "val (as_transfer_fee_initial_rate S) \<le> 1"
    and "ascending 0 (steps_val val (as_transfer_fee_steps S))"
    and "steps_grid a b (steps_val val (as_transfer_fee_steps S))"
  shows "\<exists>fee. transfer_fee_usd D S x = Some fee \<and>
    val fee = dround 10 (bracket_fee 0 (val (as_transfer_fee_initial_rate S))
      (steps_val val (as_transfer_fee_steps S)) (val x))"
proof (cases "val x \<le> 0")
  case True
  with assms bracket_fee_below show ?thesis
    by (simp add: transfer_fee_usd_def decimal_spec_def dround_def half_even_def)
next
  case False
  have z: "val (d_zero D) = 0" "d_le D x (d_zero D) \<longleftrightarrow> val x \<le> 0"
    using assms(1) by (simp_all add: decimal_spec_def)
  with False assms charge_steps_exact [OF assms(1-3), of "d_zero D" "as_transfer_fee_steps S"
      "as_transfer_fee_initial_rate S" "d_zero D"]
  show ?thesis by (simp add: transfer_fee_usd_def)
qed

theorem transfer_fee_exact_witness:
  "transfer_fee_usd rat_decimals sample_schedule 1000 = Some (19 / 10)"
proof -
  have grid: "on_grid k q" if "q * 10 ^ k = of_int m" for k q and m :: int
    using that unfolding on_grid_def by blast
  have "\<exists>fee. transfer_fee_usd rat_decimals sample_schedule 1000 = Some fee \<and>
      fee = dround 10 (bracket_fee 0 (1 / 100) [(100, 1 / 1000), (1000, 1 / 10000), (1000000, 1 / 100000)] 1000)"
    using transfer_fee_exact [OF rat_decimals_spec, of 0 5 1000 sample_schedule]
    by (simp add: sample_schedule_def fee_range_def steps_grid_def grid [of 100 0 100] grid [of 1000 0 1000]
        grid [of 1000000 0 1000000] grid [of "1 / 100" 5 1000] grid [of "1 / 1000" 5 100]
        grid [of "1 / 10000" 5 10] grid [of "1 / 100000" 5 1])
  moreover have "bracket_fee 0 (1 / 100) [(100, 1 / 1000), (1000, 1 / 10000), (1000000, 1 / 100000)] 1000 = (19 / 10 :: rat)"
    by simp
  moreover have "dround 10 (19 / 10) = 19 / 10"
    by (rule dround_on_grid) (rule grid [of _ _ 19000000000], simp)
  ultimately show ?thesis by metis
qed

subsection \<open>Standalone quotes\<close>

text \<open>
  Without transfers, a quote is refused as empty exactly when the two byte counts add up to
  zero modulo \<open>2 ^ 64\<close>. Nonzero counts whose sum wraps are therefore answered as if nothing had
  been given: two times \<open>2 ^ 63\<close> bytes is the usage error.
\<close>

theorem wrapped_traffic_not_quoted:
  "(quote_standalone D S req resp [] = Some None \<longleftrightarrow> 2 ^ 64 dvd unat req + unat resp) \<and>
   quote_standalone D S (2 ^ 63) (2 ^ 63) [] = Some None"
proof -
  have none: "quote_standalone D S r s [] = Some None \<longleftrightarrow> r + s = 0" for r s
    by (cases "r + s = 0") (auto simp: quote_standalone_def word_gt_0 bind_eq_Some_conv)
  have "req + resp = 0 \<longleftrightarrow> unat (req + resp) = 0" by (simp add: unat_eq_zero)
  also have "\<dots> \<longleftrightarrow> 2 ^ 64 dvd unat req + unat resp" by (simp add: unat_word_ariths dvd_eq_mod_eq_0)
  finally show ?thesis by (simp add: none)
qed

subsection \<open>Reading a Scan instance\<close>

text \<open>
  The configuration is the first one in key order, and \<open>futureValues\<close> sorts before
  \<open>initialValue\<close>: once a change of the schedule is announced, quotes are computed with the
  announced configuration, whatever the one in force says, before its time has come.
\<close>

theorem future_config_quoted:
  "from_scan_json D
     (json_object [(''configSchedule'', json_object
        [(''initialValue'', json_object [(''transferConfig'', current)]),
         (''futureValues'', JArray (json_object [(''_1'', JString time), (''_2'', json_object [(''transferConfig'', announced)])] # later))])])
     rounds source =
   from_scan_json D (json_object [(''transferConfig'', announced)]) rounds source"
proof -
  have "find_key ''transferConfig''
     (json_object [(''configSchedule'', json_object
        [(''initialValue'', json_object [(''transferConfig'', current)]),
         (''futureValues'', JArray (json_object [(''_1'', JString time), (''_2'', json_object [(''transferConfig'', announced)])] # later))])]) =
     Some announced"
    by (simp add: json_object_def bof_list_def)
  moreover have "find_key ''transferConfig'' (json_object [(''transferConfig'', announced)]) = Some announced"
    by (simp add: json_object_def bof_list_def)
  ultimately show ?thesis by (simp add: from_scan_json_def)
qed

text \<open>The objects that carry a price, in document order, with their round number.\<close>

fun price_objects :: "'d decimals \<Rightarrow> json \<Rightarrow> (int \<times> 'd) list"
  and price_objects_of :: "'d decimals \<Rightarrow> json list \<Rightarrow> (int \<times> 'd) list" where
  "price_objects D (JObject kvs) =
     (case Option.bind (json_get ''amuletPrice'' (JObject kvs)) (decimal_of D) of
        None \<Rightarrow> [] | Some p \<Rightarrow> [(round_number (JObject kvs), p)]) @ price_objects_of D (map snd kvs)"
| "price_objects D (JArray xs) = price_objects_of D xs"
| "price_objects D JNull = []"
| "price_objects D (JBool b) = []"
| "price_objects D (JNumber n) = []"
| "price_objects D (JString s) = []"
| "price_objects_of D [] = []"
| "price_objects_of D (x # xs) = price_objects D x @ price_objects_of D xs"

definition pick :: "int \<times> 'd \<Rightarrow> (int \<times> 'd) option \<Rightarrow> (int \<times> 'd) option" where
  "pick e best = (if (case best of Some (r', _) \<Rightarrow> r' \<le> fst e | None \<Rightarrow> True) then Some e else best)"

lemma collect_prices_pick:
  "collect_prices D v best = fold pick (price_objects D v) best"
  "collect_each D vs best = fold pick (price_objects_of D vs) best"
  by (induction D v and D vs arbitrary: best and best rule: price_objects_price_objects_of.induct)
    (auto simp: better_price_def pick_def Let_def split: option.splits)

text \<open>Folding \<open>pick\<close> keeps the last of the entries with the highest round.\<close>

definition newest_of :: "(int \<times> 'd) list \<Rightarrow> int \<times> 'd \<Rightarrow> bool" where
  "newest_of es e \<longleftrightarrow> (\<exists>xs ys. es = xs @ e # ys \<and> (\<forall>x \<in> set xs. fst x \<le> fst e) \<and> (\<forall>y \<in> set ys. fst y < fst e))"

lemma fold_pick_Some: "\<exists>e'. fold pick es (Some e) = Some e'"
  by (induction es arbitrary: e) (simp_all add: pick_def)

lemma fold_pick_newest: "fold pick es None = Some e \<longleftrightarrow> newest_of es e"
proof (induction es arbitrary: e rule: rev_induct)
  case Nil
  then show ?case by (simp add: newest_of_def)
next
  case (snoc x es)
  have last: "newest_of (es @ [x]) e \<longleftrightarrow>
      e = x \<and> (\<forall>y \<in> set es. fst y \<le> fst x) \<or> fst x < fst e \<and> newest_of es e" for e
  proof
    assume "newest_of (es @ [x]) e"
    then obtain xs ys where d: "es @ [x] = xs @ e # ys" "\<forall>z \<in> set xs. fst z \<le> fst e"
      "\<forall>y \<in> set ys. fst y < fst e" unfolding newest_of_def by blast
    then show "e = x \<and> (\<forall>y \<in> set es. fst y \<le> fst x) \<or> fst x < fst e \<and> newest_of es e"
      by (cases ys rule: rev_cases) (auto simp: newest_of_def)
  next
    assume "e = x \<and> (\<forall>y \<in> set es. fst y \<le> fst x) \<or> fst x < fst e \<and> newest_of es e"
    then show "newest_of (es @ [x]) e"
    proof
      assume "e = x \<and> (\<forall>y \<in> set es. fst y \<le> fst x)"
      then show ?thesis unfolding newest_of_def by (intro exI [of _ es] exI [of _ "[]"]) simp
    next
      assume "fst x < fst e \<and> newest_of es e"
      then obtain xs ys where "es = xs @ e # ys" "\<forall>z \<in> set xs. fst z \<le> fst e" "\<forall>y \<in> set (ys @ [x]). fst y < fst e"
        unfolding newest_of_def by auto
      then show ?thesis unfolding newest_of_def by (intro exI [of _ xs] exI [of _ "ys @ [x]"]) simp
    qed
  qed
  have above: "(\<forall>y \<in> set es. fst y \<le> fst x) \<longleftrightarrow> fst b \<le> fst x" if "newest_of es b" for b
    using that by (force simp: newest_of_def)
  show ?case
  proof (cases "fold pick es None")
    case None
    then have "es = []"
    proof (cases es)
      case (Cons a as)
      then have "fold pick es None = fold pick as (Some a)" by (simp add: pick_def)
      with None fold_pick_Some [of as a] show ?thesis by simp
    qed
    then show ?thesis unfolding last by (simp add: pick_def newest_of_def eq_commute)
  next
    case (Some b)
    then have b: "newest_of es b" using snoc.IH by blast
    have "newest_of es e \<longleftrightarrow> e = b" using snoc.IH [of e] Some by auto
    moreover have "fold pick (es @ [x]) None = (if fst b \<le> fst x then Some x else Some b)"
      using Some by (simp add: pick_def [of x] case_prod_beta)
    ultimately show ?thesis using above [OF b] by (auto simp: last)
  qed
qed

text \<open>
  The Canton Coin price of a schedule read from Scan is the price of the round with the highest
  number, the last one in document order among equals, over all objects of the response however
  they are wrapped; an object whose round cannot be read counts as round \<open>- 1\<close>.
\<close>

theorem newest_price_quoted:
  "newest_amulet_price D rounds = Some p \<longleftrightarrow> (\<exists>r. newest_of (price_objects D rounds) (r, p))"
  by (auto simp: newest_amulet_price_def collect_prices_pick fold_pick_newest)

end
