(* ===== verification/Rejection.thy ===== *)
theory Rejection
  imports Fees
begin

text \<open>
  The errors of a participant, \<open>sim-diagnose/src/ledger_error.rs\<close> and \<open>catalog.rs\<close>: a rejection
  arrives as JSON, as a line of a log or wrapped in the text of an HTTP client, and is read to
  one record. Regular expressions are the parameter \<open>patterns\<close>, one field per expression of the
  source; the error catalog, a data file, is a map. A lemma says where the JSON is found.
\<close>

subsection \<open>Parameters\<close>

text \<open>The groups that an expression captures, or the matches it finds, in the order of the text.\<close>

record patterns =
  p_grpc :: "string \<Rightarrow> (string \<times> string \<times> string \<times> string) option"
  p_bare :: "string \<Rightarrow> string list"
  p_returned :: "string \<Rightarrow> string option"
  p_template :: "string \<Rightarrow> string option"
  p_contract_ids :: "string \<Rightarrow> string list"
  p_parties :: "string \<Rightarrow> string list"
  p_authorizers :: "string \<Rightarrow> (string \<times> string) option"
  p_missing_auth :: "string \<Rightarrow> string option"
  p_exception :: "string \<Rightarrow> (string \<times> string) option"
  p_message_field :: "string \<Rightarrow> string option"
  p_error_id :: "string \<Rightarrow> string option"
  p_precondition_template :: "string \<Rightarrow> string option"
  p_choice :: "string \<Rightarrow> string option"
  p_sync_ids :: "string \<Rightarrow> string list"

subsection \<open>The catalog\<close>

record CatalogEntry =
  ce_category :: string
  ce_explanation :: string
  ce_resolution :: string
  ce_source :: string

definition to_ascii_uppercase :: "char \<Rightarrow> char" where
  "to_ascii_uppercase c = (if CHR ''a'' \<le> c \<and> c \<le> CHR ''z'' then char_of (code c - 32) else c)"

definition lookup_code :: "CatalogEntry bmap \<Rightarrow> string \<Rightarrow> CatalogEntry option" where
  "lookup_code cat c = bget cat (map to_ascii_uppercase (trim c))"

definition category_name :: "32 word \<Rightarrow> string" where
  "category_name c =
     (if c = 1 then ''TransientServerFailure''
      else if c = 2 then ''ContentionOnSharedResources''
      else if c = 3 then ''DeadlineExceededRequestStateUnknown''
      else if c = 4 then ''SystemInternalAssumptionViolated''
      else if c = 5 then ''AuthInterceptorInvalidAuthenticationCredentials''
      else if c = 6 then ''InsufficientPermission''
      else if c = 7 then ''SecurityAlert''
      else if c = 8 then ''InvalidIndependentOfSystemState''
      else if c = 9 then ''InvalidGivenCurrentSystemStateOther''
      else if c = 10 then ''InvalidGivenCurrentSystemStateResourceExists''
      else if c = 11 then ''InvalidGivenCurrentSystemStateResourceMissing''
      else if c = 12 then ''InvalidGivenCurrentSystemStateSeekAfterEnd''
      else if c = 13 then ''BackgroundProcessDegradationWarning''
      else if c = 14 then ''InternalUnsupportedOperation''
      else ''Unknown'')"

definition category_is_retryable :: "32 word \<Rightarrow> bool" where
  "category_is_retryable c \<longleftrightarrow> 1 \<le> c \<and> c \<le> 3"

subsection \<open>Errors\<close>

text \<open>\<open>retry_after_secs\<close> keeps the number as its text.\<close>

record LedgerError =
  le_http_status :: "16 word option"
  le_code :: string
  le_cause :: string
  le_error_category :: "32 word option"
  le_grpc_code :: "32 word option"
  le_definite_answer :: "bool option"
  le_retry_after_secs :: "string option"
  le_correlation_id :: "string option"
  le_trace_id :: "string option"
  le_context :: "string bmap"
  le_resources :: "(string \<times> string) list"
  le_raw :: string

definition no_error :: LedgerError where
  "no_error =
     \<lparr>le_http_status = None, le_code = [], le_cause = [], le_error_category = None, le_grpc_code = None,
      le_definite_answer = None, le_retry_after_secs = None, le_correlation_id = None, le_trace_id = None,
      le_context = bempty, le_resources = [], le_raw = []\<rparr>"

definition resource :: "LedgerError \<Rightarrow> string \<Rightarrow> string option" where
  "resource e k = map_option snd (List.find (\<lambda>(k', _). eq_ignore_ascii_case k' k) (le_resources e))"

definition value_to_string :: "json_text \<Rightarrow> json \<Rightarrow> string" where
  "value_to_string J v = (case v of JString s \<Rightarrow> s | JNull \<Rightarrow> [] | other \<Rightarrow> to_text J other)"

definition as_bool :: "json \<Rightarrow> bool option" where
  "as_bool v = (case v of JBool b \<Rightarrow> Some b | _ \<Rightarrow> None)"

definition as_object :: "json \<Rightarrow> (string \<times> json) list option" where
  "as_object v = (case v of JObject kvs \<Rightarrow> Some kvs | _ \<Rightarrow> None)"

definition as_number :: "json \<Rightarrow> string option" where
  "as_number v = (case v of JNumber n \<Rightarrow> Some n | _ \<Rightarrow> None)"

text \<open>An integer prints as its digits, so \<open>as_u64\<close> reads a number that consists of digits.\<close>

definition as_u64 :: "json \<Rightarrow> u64 option" where
  "as_u64 v = Option.bind (as_number v) parse_unsigned"

definition parse_bool :: "string \<Rightarrow> bool option" where
  "parse_bool s = (if s = ''true'' then Some True else if s = ''false'' then Some False else None)"

definition or_else :: "'a option \<Rightarrow> 'a option \<Rightarrow> 'a option" where
  "or_else a b = (case a of Some x \<Rightarrow> Some x | None \<Rightarrow> b)"

definition text_or_empty :: "string option \<Rightarrow> string" where
  "text_or_empty s = (case s of Some t \<Rightarrow> t | None \<Rightarrow> [])"

definition resource_of :: "json_text \<Rightarrow> json \<Rightarrow> (string \<times> string) option" where
  "resource_of J item = (case item of
     JArray [a, b] \<Rightarrow> Some (value_to_string J a, value_to_string J b)
   | JObject kvs \<Rightarrow>
       Some (text_or_empty (map_option (value_to_string J)
               (or_else (json_get ''type'' item) (json_get ''resourceType'' item))),
             text_or_empty (map_option (value_to_string J)
               (or_else (json_get ''name'' item) (json_get ''value'' item))))
   | _ \<Rightarrow> None)"

definition error_context :: "json_text \<Rightarrow> json \<Rightarrow> string bmap" where
  "error_context J v =
     (case Option.bind (json_get ''context'' v) as_object of
        Some kvs \<Rightarrow> bof_list (map (\<lambda>(k, x). (k, value_to_string J x)) kvs)
      | None \<Rightarrow> bempty)"

definition from_json :: "json_text \<Rightarrow> json \<Rightarrow> LedgerError option" where
  "from_json J v =
     Option.bind (as_object v) (\<lambda>_.
     Option.bind (map_option trim (Option.bind (json_get ''code'' v) as_str)) (\<lambda>c.
     if c = [] then None
     else let ctx = error_context J v in Some
       \<lparr>le_http_status = None,
        le_code = c,
        le_cause = text_or_empty (Option.bind (json_get ''cause'' v) as_str),
        le_error_category =
          or_else (map_option ucast (Option.bind (json_get ''errorCategory'' v) as_u64))
                  (Option.bind (bget ctx ''category'') parse_unsigned),
        le_grpc_code = map_option word_of_int (Option.bind (json_get ''grpcCodeValue'' v) as_i64),
        le_definite_answer =
          or_else (Option.bind (json_get ''definiteAnswer'' v) as_bool)
                  (Option.bind (bget ctx ''definite_answer'') parse_bool),
        le_retry_after_secs =
          Option.bind (json_get ''retryInfo'' v) (\<lambda>r. Option.bind (as_object r) (\<lambda>_.
            or_else (Option.bind (json_get ''seconds'' r) as_number) (Option.bind (json_get ''value'' r) as_number))),
        le_correlation_id = Option.bind (json_get ''correlationId'' v) as_str,
        le_trace_id = Option.bind (json_get ''traceId'' v) as_str,
        le_context = ctx,
        le_resources =
          (case Option.bind (json_get ''resources'' v) as_array of
             Some arr \<Rightarrow> List.map_filter (resource_of J) arr
           | None \<Rightarrow> []),
        le_raw = []\<rparr>))"

text \<open>The line of a log, or else the first word that is a code of the catalog.\<close>

definition from_grpc_text :: "patterns \<Rightarrow> CatalogEntry bmap \<Rightarrow> string \<Rightarrow> LedgerError" where
  "from_grpc_text P cat t =
     (case p_grpc P t of
        Some (c, category, correlation, cause) \<Rightarrow>
          no_error\<lparr>le_code := c, le_error_category := parse_unsigned category,
                   le_correlation_id := Some correlation, le_cause := trim cause\<rparr>
      | None \<Rightarrow>
          no_error\<lparr>le_code := (case List.find (\<lambda>c. lookup_code cat c \<noteq> None) (p_bare P t) of
                                 Some c \<Rightarrow> c | None \<Rightarrow> ''UNKNOWN''),
                   le_cause := t\<rparr>)"

text \<open>From the first opening brace to the last closing one.\<close>

definition find_json_object :: "string \<Rightarrow> string option" where
  "find_json_object t =
     (if CHR ''{'' \<in> set t \<and> CHR ''}'' \<in> set t then
        (let start = length (takeWhile (\<lambda>c. c \<noteq> CHR ''{'') t);
             stop = length t - 1 - length (takeWhile (\<lambda>c. c \<noteq> CHR ''}'') (rev t))
         in if start < stop then Some (take (stop + 1 - start) (drop start t)) else None)
      else None)"

definition parse_inner :: "json_text \<Rightarrow> patterns \<Rightarrow> CatalogEntry bmap \<Rightarrow> string \<Rightarrow> LedgerError" where
  "parse_inner J P cat body =
     (let trimmed = trim body in
      case Option.bind (Option.bind (find_json_object trimmed) (from_text J)) (from_json J) of
        Some e \<Rightarrow> e
      | None \<Rightarrow> from_grpc_text P cat trimmed)"

definition parse_error :: "json_text \<Rightarrow> patterns \<Rightarrow> CatalogEntry bmap \<Rightarrow> 16 word option \<Rightarrow> string \<Rightarrow> LedgerError" where
  "parse_error J P cat status body =
     (parse_inner J P cat body)\<lparr>le_http_status := status, le_raw := body\<rparr>"

definition extract_wrapped_status :: "patterns \<Rightarrow> string \<Rightarrow> 16 word option" where
  "extract_wrapped_status P t = Option.bind (p_returned P t) parse_unsigned"

definition error_from_text :: "json_text \<Rightarrow> patterns \<Rightarrow> CatalogEntry bmap \<Rightarrow> string \<Rightarrow> LedgerError" where
  "error_from_text J P cat t = parse_error J P cat (extract_wrapped_status P t) t"

subsection \<open>Where the JSON is found\<close>

lemma takeWhile_prefix:
  assumes "c \<notin> set u"
  shows "takeWhile (\<lambda>x. x \<noteq> c) (u @ c # v) = u"
  using assms by (induction u) auto

lemma find_json_object_wrapped:
  assumes "CHR ''{'' \<notin> set u" "CHR ''}'' \<notin> set v"
  shows "find_json_object (u @ CHR ''{'' # body @ CHR ''}'' # v) = Some (CHR ''{'' # body @ [CHR ''}''])"
proof -
  let ?t = "u @ CHR ''{'' # body @ CHR ''}'' # v"
  have "takeWhile (\<lambda>c. c \<noteq> CHR ''{'') ?t = u" using assms(1) by (rule takeWhile_prefix)
  moreover have "rev ?t = rev v @ CHR ''}'' # rev (u @ CHR ''{'' # body)" by simp
  then have "takeWhile (\<lambda>c. c \<noteq> CHR ''}'') (rev ?t) = rev v"
    using assms(2) by (simp add: takeWhile_prefix)
  ultimately show ?thesis
    by (simp add: find_json_object_def Let_def)
qed

end
