(* ===== verification/Diagnosis_Model.thy ===== *)
theory Diagnosis_Model
  imports Rejection
begin

text \<open>
  The classifier of rejections, \<open>sim-diagnose/src/classify.rs\<close>. Titles, summaries and hints are
  constructors with the values their texts interpolate; two hints are one when their texts are.
  A slice of a string at a byte that starts no character panics: such a result is \<open>None\<close>.
\<close>

subsection \<open>Phases\<close>

datatype Phase = Auth | Request | Interpretation | Authorization | Routing | Sequencing | Confirmation
  | Participant | UnknownPhase

definition request_codes :: "string list" where
  "request_codes =
     [''INVALID_ARGUMENT'', ''INVALID_FIELD'', ''MISSING_FIELD'', ''COMMAND_PREPROCESSING_FAILED'',
      ''DAML_INTERPRETER_INVALID_ARGUMENT'', ''TEMPLATES_OR_INTERFACES_NOT_FOUND'', ''PACKAGE_NOT_FOUND'',
      ''PACKAGE_NAMES_NOT_FOUND'', ''NO_TEMPLATES_FOR_PACKAGE_NAME_AND_QUALIFIED_NAME'',
      ''NO_INTERFACE_FOR_PACKAGE_NAME_AND_QUALIFIED_NAME'', ''INVALID_DEDUPLICATION_PERIOD'',
      ''DISCLOSED_CONTRACT_KEY_HASHING_ERROR'', ''UNRESOLVED_PACKAGE_NAME'', ''PACKAGE_SELECTION_FAILED'',
      ''NO_PREFERRED_PACKAGES_FOUND'', ''ALLOWED_LANGUAGE_VERSIONS'', ''VALUE_NESTING'', ''MALFORMED_TEXT'',
      ''UNSUPPORTED_OPERATION'', ''PACKAGE_VALIDATION_FAILED'', ''USER_NOT_FOUND'', ''PARTY_NOT_FOUND'',
      ''PARTY_NOT_KNOWN_ON_LEDGER'']"

definition routing_codes :: "string list" where
  "routing_codes =
     [''NO_SYNCHRONIZER_FOR_SUBMISSION'', ''NOT_CONNECTED_TO_ANY_SYNCHRONIZER'',
      ''NOT_CONNECTED_TO_SYNCHRONIZER'', ''UNKNOWN_SUBMITTERS'', ''UNKNOWN_INFORMEES'',
      ''SUBMITTERS_NOT_ACTIVE'', ''INVALID_PRESCRIBED_SYNCHRONIZER_ID'',
      ''PRESCRIBED_SYNCHRONIZER_ID_MISMATCH'', ''DISCLOSED_CONTRACTS_SYNCHRONIZER_ID_MISMATCH'',
      ''UNKNOWN_CONTRACT_SYNCHRONIZER'', ''PACKAGE_NOT_VETTED_BY_RECIPIENTS'',
      ''PACKAGE_NAME_DISCARDED_DUE_TO_UNVETTED_PACKAGES'', ''NO_VIEW_WITH_VALID_RECIPIENTS'',
      ''SYNCHRONIZER_WITHOUT_MEDIATOR'', ''CHOSEN_MEDIATOR_IS_INACTIVE'',
      ''NO_VETTED_INTERFACE_IMPLEMENTATION_PACKAGE'']"

definition sequencing_codes :: "string list" where
  "sequencing_codes =
     [''SUBMISSION_ALREADY_IN_FLIGHT'', ''DUPLICATE_COMMAND'', ''REQUEST_ALREADY_IN_FLIGHT'',
      ''NOT_SEQUENCED_TIMEOUT'', ''OUTDATED_TRAFFIC_COST'', ''SEQUENCER_REQUEST_FAILED'']"

definition confirmation_codes :: "string list" where
  "confirmation_codes =
     [''INCONSISTENT'', ''MALFORMED_REQUEST'', ''INVALID_EXTERNAL_SIGNATURE'',
      ''INVALID_EXTERNAL_TRANSACTION'', ''FAILED_TO_EXECUTE_TRANSACTION'']"

definition participant_codes :: "string list" where
  "participant_codes =
     [''PARTICIPANT_BACKPRESSURE'', ''PARTICIPANT_OVERLOADED'', ''SERVICE_NOT_RUNNING'',
      ''REQUEST_TIME_OUT'', ''REQUEST_DEADLINE_EXCEEDED'', ''SERVER_IS_SHUTTING_DOWN'',
      ''SUBMISSION_DURING_SHUTDOWN'', ''NODE_IS_PASSIVE_REPLICA'', ''SYNC_SERVICE_PASSIVE_REPLICA'',
      ''LEDGER_API_INTERNAL_ERROR'', ''SERVICE_INTERNAL_ERROR'', ''THREADPOOL_OVERLOADED'',
      ''HEAP_MEMORY_OVER_LIMIT'', ''MAXIMUM_NUMBER_OF_STREAMS'', ''FAILED_TO_PREPARE_TRANSACTION'',
      ''COMMAND_INJECTION_FAILURE'']"

definition interpretation_codes :: "string list" where
  "interpretation_codes =
     [''UNHANDLED_EXCEPTION'', ''TEMPLATE_PRECONDITION_VIOLATED'', ''NON_COMPARABLE_VALUES'',
      ''WRONGLY_TYPED_CONTRACT'', ''FAILED_TO_DETERMINE_LEDGER_TIME'', ''LEDGER_TIME_OUTSIDE_BOUNDS'']"

definition phase_for :: "string \<Rightarrow> Phase" where
  "phase_for c0 =
     (let c = map to_ascii_uppercase c0 in
      if c \<in> {''PERMISSION_DENIED'', ''UNAUTHENTICATED'', ''STALE_STREAM_AUTHORIZATION''} then Auth
      else if c = ''DAML_AUTHORIZATION_ERROR'' then Authorization
      else if c \<in> set request_codes then Request
      else if c \<in> set routing_codes then Routing
      else if c \<in> set sequencing_codes then Sequencing
      else if c \<in> set confirmation_codes then Confirmation
      else if c \<in> set participant_codes then Participant
      else if starts_with ''SEQUENCER_'' c then Sequencing
      else if starts_with ''LOCAL_VERDICT_'' c then Confirmation
      else if starts_with ''INDEX_DB_'' c then Participant
      else if starts_with ''INTERPRETATION_'' c \<or> starts_with ''DAML_'' c \<or> starts_with ''CONTRACT_'' c
           \<or> ends_with ''_CONTRACT_KEY'' c \<or> ends_with ''_CONTRACT_KEY_MAINTAINERS'' c
           \<or> c \<in> set interpretation_codes then Interpretation
      else if starts_with ''TOPOLOGY_'' c then Routing
      else UnknownPhase)"

definition retryable_by_code :: "string \<Rightarrow> bool" where
  "retryable_by_code c \<longleftrightarrow> c \<in> set
     [''PARTICIPANT_BACKPRESSURE'', ''PARTICIPANT_OVERLOADED'', ''SEQUENCER_BACKPRESSURE'',
      ''SEQUENCER_OVERLOADED'', ''REQUEST_TIME_OUT'', ''NOT_SEQUENCED_TIMEOUT'',
      ''SUBMISSION_ALREADY_IN_FLIGHT'', ''LOCAL_VERDICT_LOCKED_CONTRACTS'', ''LOCAL_VERDICT_TIMEOUT'',
      ''OUTDATED_TRAFFIC_COST'', ''SERVICE_NOT_RUNNING'', ''THREADPOOL_OVERLOADED'']"

subsection \<open>Strings\<close>

text \<open>\<open>is_char_boundary\<close>, and the two kinds of slice the code takes.\<close>

definition char_boundary :: "string \<Rightarrow> nat \<Rightarrow> bool" where
  "char_boundary s n \<longleftrightarrow> n = 0 \<or> n = length s \<or> n < length s \<and> \<not> utf8_tail (s ! n)"

definition slice_to :: "nat \<Rightarrow> string \<Rightarrow> string option" where
  "slice_to n s = (if char_boundary s n then Some (take n s) else None)"

definition slice_from :: "nat \<Rightarrow> string \<Rightarrow> string option" where
  "slice_from n s = (if char_boundary s n then Some (drop n s) else None)"

definition ellipsis :: string where "ellipsis = [CHR 0xE2, CHR 0x80, CHR 0xA6]"

definition sentence_cut :: "string \<Rightarrow> nat" where
  "sentence_cut s = min (case find_text ''. '' s of Some i \<Rightarrow> i + 1 | None \<Rightarrow> length s) 240"

definition first_sentence :: "string \<Rightarrow> string option" where
  "first_sentence s0 =
     (let s = trim s0; cut = sentence_cut s in
      map_option (\<lambda>t. trim t @ (if cut < length s then ellipsis else [])) (slice_to cut s))"

definition abbreviated :: "string \<Rightarrow> string option" where
  "abbreviated cid =
     Option.bind (slice_to 10 cid) (\<lambda>a. map_option (\<lambda>b. a @ ellipsis @ b) (slice_from (length cid - 6) cid))"

definition short_cid :: "string \<Rightarrow> string option" where
  "short_cid cid =
     (if 18 < length cid then abbreviated cid
      else if cid = [] then Some ''(unknown id)''
      else Some cid)"

definition humanize :: "string \<Rightarrow> string" where
  "humanize c =
     (let s = map (\<lambda>b. if b = CHR ''_'' then CHR '' '' else b) (map to_ascii_lowercase c) in
      if s \<noteq> [] \<and> char_boundary s 1 then to_ascii_uppercase (hd s) # tl s else s)"

text \<open>\<open>replace\<close> of a pattern of two bytes by one, left to right.\<close>

fun replace_pair :: "char \<Rightarrow> char \<Rightarrow> char \<Rightarrow> string \<Rightarrow> string" where
  "replace_pair a b r (x # y # s) =
     (if x = a \<and> y = b then r # replace_pair a b r s else x # replace_pair a b r (y # s))"
| "replace_pair a b r s = s"

definition unescape :: "string \<Rightarrow> string" where
  "unescape s = replace_pair (CHR 0x5C) (CHR ''n'') (CHR 0x0A) (replace_pair (CHR 0x5C) (CHR 0x22) (CHR 0x22) s)"

text \<open>Splitting at each character of a list of separators.\<close>

function split_seps :: "string list \<Rightarrow> string \<Rightarrow> string \<Rightarrow> string list" where
  "split_seps ws acc [] = [rev acc]"
| "split_seps ws acc (c # cs) =
     (case List.find (\<lambda>w. w \<noteq> [] \<and> starts_with w (c # cs)) ws of
        Some w \<Rightarrow> rev acc # split_seps ws [] (drop (length w) (c # cs))
      | None \<Rightarrow> split_seps ws (c # acc) cs)"
  by pat_completeness auto

termination
  by (relation "measure (\<lambda>(ws, acc, s). length s)") (auto simp: find_Some_iff)

definition trim_while :: "(char \<Rightarrow> bool) \<Rightarrow> string \<Rightarrow> string" where
  "trim_while p s = rev (dropWhile p (rev (dropWhile p s)))"

definition split_parties :: "string \<Rightarrow> string list" where
  "split_parties s =
     filter (\<lambda>p. p \<noteq> [])
       (map (trim_while (\<lambda>c. c = CHR ''['' \<or> c = CHR '']'' \<or> c = CHR 0x27 \<or> c = CHR 0x22))
         (split_seps ('','' # white_space) [] s))"

subsection \<open>Extraction\<close>

record Extracted =
  x_template_id :: "string option"
  x_choice :: "string option"
  x_contract_ids :: "string list"
  x_parties :: "string list"
  x_required_authorizers :: "string list"
  x_given_authorizers :: "string list"
  x_missing_authorizers :: "string list"
  x_exception_type :: "string option"
  x_message :: "string option"
  x_error_id :: "string option"
  x_package_id :: "string option"
  x_synchronizer_id :: "string option"

text \<open>Required, given and missing authorizers.\<close>

definition authorizers_of :: "patterns \<Rightarrow> string \<Rightarrow> string list \<times> string list \<times> string list" where
  "authorizers_of P cause =
     (case p_authorizers P cause of
        Some (a, b) \<Rightarrow>
          (let required = split_parties a; gave = split_parties b
           in (required, gave, filter (\<lambda>p. p \<notin> set gave) required))
      | None \<Rightarrow>
          (case p_missing_auth P cause of
             Some m \<Rightarrow> (split_parties m, [], split_parties m)
           | None \<Rightarrow> ([], [], [])))"

definition contract_ids_of :: "patterns \<Rightarrow> LedgerError \<Rightarrow> string list" where
  "contract_ids_of P e =
     fold (\<lambda>s cids. if s \<in> set cids then cids else cids @ [s]) (p_contract_ids P (le_cause e))
       (case resource e ''CONTRACT_ID'' of Some cid \<Rightarrow> [cid] | None \<Rightarrow> [])"

definition message_of :: "patterns \<Rightarrow> string \<Rightarrow> string option" where
  "message_of P cause =
     or_else (Option.bind (p_exception P cause) (\<lambda>(_, body). map_option unescape (p_message_field P body)))
             (map_option unescape (p_message_field P cause))"

definition package_of :: "string option \<Rightarrow> string option" where
  "package_of template =
     Option.bind template (\<lambda>t. Option.bind (split_once (CHR '':'') t) (\<lambda>(pkg, _).
       if starts_with ''#'' pkg then None else Some pkg))"

definition extract_facts :: "patterns \<Rightarrow> LedgerError \<Rightarrow> Extracted" where
  "extract_facts P e =
     (let cause = le_cause e;
          template = or_else (map_option (\<lambda>t. rev (dropWhile (\<lambda>c. c = CHR '','') (rev t))) (p_precondition_template P cause))
                             (p_template P cause);
          (required, gave, missing) = authorizers_of P cause;
          parties = set (p_parties P cause) \<union> set required \<union> set gave
      in \<lparr>x_template_id = template,
          x_choice = p_choice P cause,
          x_contract_ids = contract_ids_of P e,
          x_parties = sorted_list_of_set parties,
          x_required_authorizers = required,
          x_given_authorizers = gave,
          x_missing_authorizers = missing,
          x_exception_type = map_option fst (p_exception P cause),
          x_message = message_of P cause,
          x_error_id = p_error_id P cause,
          x_package_id = package_of template,
          x_synchronizer_id =
            or_else (or_else (bget (le_context e) ''synchronizer_id'') (bget (le_context e) ''synchronizerId''))
                    (List.find (\<lambda>s. s \<notin> parties) (p_sync_ids P cause))\<rparr>)"


subsection \<open>Texts\<close>

datatype title =
    TThrew string | TMessage string string | TFailStatus string string | TEnsure string | TAuthorization
  | TAuthorizationFrom "string list" | TNotFound string | TConsumedEarlier | TInactive | TLocked | TKeyLookup
  | TArguments | TMalformed | TRights | TToken | TNoSynchronizer | TNotVetted string | TNoTraffic | TOverloaded
  | TSameChange | TAccepted | TDedupPeriod | TNotConnected | TLedgerTime | TUnrecognised | TKnown string
  | TNotInCatalog string

datatype summary =
    SAssertion string | SPrecondition | SArithmetic | SGeneral string | SException string | SFailStatus
  | SEnsure string | SNoAuthorizer | SAuthorizers "string list" "string list" | SNotFound | SConsumedEarlier
  | SInactive | SLocked | SKeyLookup | SArguments string | SMalformed string | SRights | SToken
  | SNoSynchronizer | SNotVetted | SNoTraffic | SOverloaded | SSameChange | SAccepted | SDedupPeriod
  | SNotConnected | SLedgerTime | SUnrecognised string | SText string

datatype hint =
    HReadAssertion | HComparePayload | HNumericScales | HErrorId | HEnsureLine | HDerivedValue | HActAs
  | HController | HAllSignatories | HContractState | HSuccessor | HDisclose | HReorder | HReread | HRetryLocked
  | HMaintainers | HCompareArgument | HTemplateId | HFieldMissing | HSingleCommand | HCommandId | HActAsEmpty
  | HOpenApi | HInspectRights | HParticipantLog | HFreshToken | HPerSynchronizer | HVet | HInformeeHosting
  | HAskVetting | HTopUp | HTrafficSection | HBackoff | HAwaitEarlier | HFreshCommandId | HShortenPeriod
  | HConnected | HTimeWindow | HPasteBody
  | HNothingSent | HTrafficConsumed | HCorrelate string
  | HArchived string "string option" "int option" | HActive string | HNeverSeen string | HLookupFailed string string

text \<open>The arms of \<open>specialise\<close> that interpolate or search the cause.\<close>

definition exception_texts :: "Extracted \<Rightarrow> title \<times> summary \<times> hint list" where
  "exception_texts x =
     (let ty = (case x_exception_type x of Some t \<Rightarrow> t | None \<Rightarrow> ''exception'');
          msg = text_or_empty (x_message x);
          short = last (split_on (CHR '':'') ty)
      in (if msg = [] then TThrew short else TMessage short msg,
          if short = ''AssertionFailed'' then SAssertion msg
          else if short = ''PreconditionFailed'' then SPrecondition
          else if short = ''ArithmeticError'' then SArithmetic
          else if short = ''GeneralError'' then SGeneral msg
          else SException ty,
          [HReadAssertion, HComparePayload] @ (if short = ''ArithmeticError'' then [HNumericScales] else [])))"

definition authorization_texts :: "Extracted \<Rightarrow> title \<times> summary \<times> hint list" where
  "authorization_texts x =
     (if join '', '' (x_missing_authorizers x) = [] then TAuthorization else TAuthorizationFrom (x_missing_authorizers x),
      if x_required_authorizers x = [] then SNoAuthorizer
      else SAuthorizers (x_required_authorizers x) (x_given_authorizers x),
      [HActAs, HController, HAllSignatories])"

definition argument_texts :: "string \<Rightarrow> string \<Rightarrow> (title \<times> summary \<times> hint list) option" where
  "argument_texts cause lc =
     (let hints = [HCompareArgument];
          hints = (if contains_text lc ''unknown template''
                      \<or> contains_text lc ''template'' \<and> contains_text lc ''not found''
                   then HTemplateId # hints else hints);
          hints = (if contains_text lc ''missing'' \<or> contains_text lc ''field'' then HFieldMissing # hints else hints)
      in map_option (\<lambda>t. (TArguments, SArguments t, hints)) (first_sentence cause))"

definition malformed_texts :: "string \<Rightarrow> string \<Rightarrow> (title \<times> summary \<times> hint list) option" where
  "malformed_texts cause lc =
     (let hints = (if contains_text lc ''single command'' then [HSingleCommand] else []) @
                  (if contains_text lc ''commandid'' \<or> contains_text lc ''command_id'' then [HCommandId] else []) @
                  (if contains_text lc ''actas'' \<or> contains_text lc ''act_as'' then [HActAsEmpty] else []) @
                  [HOpenApi]
      in map_option (\<lambda>t. (TMalformed, SMalformed t, hints)) (first_sentence cause))"

definition synchronizer_texts :: "string \<Rightarrow> title \<times> summary \<times> hint list" where
  "synchronizer_texts lc =
     (TNoSynchronizer, SNoSynchronizer,
      [HPerSynchronizer] @ (if contains_text lc ''vet'' then [HVet] else []) @
      (if contains_text lc ''host'' \<or> contains_text lc ''informee'' \<or> contains_text lc ''unknown''
       then [HInformeeHosting] else []))"

text \<open>The arms that depend on the code only.\<close>

definition fixed_texts :: "(string \<times> title \<times> summary \<times> hint list) list" where
  "fixed_texts =
     [(''CONTRACT_NOT_ACTIVE'', TConsumedEarlier, SConsumedEarlier, [HReorder]),
      (''LOCAL_VERDICT_INACTIVE_CONTRACTS'', TInactive, SInactive, [HReread]),
      (''LOCAL_VERDICT_LOCKED_CONTRACTS'', TLocked, SLocked, [HRetryLocked]),
      (''CONTRACT_KEY_NOT_FOUND'', TKeyLookup, SKeyLookup, [HMaintainers]),
      (''PERMISSION_DENIED'', TRights, SRights, [HInspectRights, HParticipantLog]),
      (''UNAUTHENTICATED'', TToken, SToken, [HFreshToken]),
      (''SEQUENCER_NOT_ENOUGH_TRAFFIC_CREDIT'', TNoTraffic, SNoTraffic, [HTopUp, HTrafficSection]),
      (''SEQUENCER_BACKPRESSURE'', TOverloaded, SOverloaded, [HBackoff]),
      (''PARTICIPANT_BACKPRESSURE'', TOverloaded, SOverloaded, [HBackoff]),
      (''PARTICIPANT_OVERLOADED'', TOverloaded, SOverloaded, [HBackoff]),
      (''SEQUENCER_OVERLOADED'', TOverloaded, SOverloaded, [HBackoff]),
      (''SUBMISSION_ALREADY_IN_FLIGHT'', TSameChange, SSameChange, [HAwaitEarlier]),
      (''DUPLICATE_COMMAND'', TAccepted, SAccepted, [HFreshCommandId]),
      (''INVALID_DEDUPLICATION_PERIOD'', TDedupPeriod, SDedupPeriod, [HShortenPeriod]),
      (''NOT_CONNECTED_TO_ANY_SYNCHRONIZER'', TNotConnected, SNotConnected, [HConnected]),
      (''NOT_CONNECTED_TO_SYNCHRONIZER'', TNotConnected, SNotConnected, [HConnected]),
      (''LEDGER_TIME_OUTSIDE_BOUNDS'', TLedgerTime, SLedgerTime, [HTimeWindow]),
      (''FAILED_TO_DETERMINE_LEDGER_TIME'', TLedgerTime, SLedgerTime, [HTimeWindow]),
      (''LOCAL_VERDICT_LEDGER_TIME_OUT_OF_BOUND'', TLedgerTime, SLedgerTime, [HTimeWindow])]"

text \<open>The last two arms: no code at all, and a code without an arm of its own.\<close>

definition default_texts :: "CatalogEntry bmap \<Rightarrow> string \<Rightarrow> Phase \<Rightarrow> string \<Rightarrow> (title \<times> summary \<times> hint list) option" where
  "default_texts cat c phase cause =
     map_option (\<lambda>t.
       if phase = UnknownPhase \<and> c = ''UNKNOWN'' then (TUnrecognised, SUnrecognised t, [HPasteBody])
       else (if lookup_code cat c \<noteq> None then TKnown (humanize c) else TNotInCatalog c,
             SText (if t = [] then (case lookup_code cat c of Some e \<Rightarrow> ce_explanation e | None \<Rightarrow> []) else t),
             []))
       (first_sentence cause)"

definition specialise :: "CatalogEntry bmap \<Rightarrow> LedgerError \<Rightarrow> Phase \<Rightarrow> Extracted \<Rightarrow> (title \<times> summary \<times> hint list) option" where
  "specialise cat e phase x =
     (let c = le_code e; cause = le_cause e; lc = map to_ascii_lowercase cause;
          tpl = (case x_template_id x of Some t \<Rightarrow> t | None \<Rightarrow> ''the template'') in
      if c = ''UNHANDLED_EXCEPTION'' then Some (exception_texts x)
      else if c = ''DAML_FAILURE'' then
        Some (TFailStatus (case x_error_id x of Some i \<Rightarrow> i | None \<Rightarrow> ''unspecified'') (text_or_empty (x_message x)),
              SFailStatus, [HErrorId])
      else if c = ''TEMPLATE_PRECONDITION_VIOLATED'' then Some (TEnsure tpl, SEnsure tpl, [HEnsureLine, HDerivedValue])
      else if c = ''DAML_AUTHORIZATION_ERROR'' then Some (authorization_texts x)
      else if c = ''CONTRACT_NOT_FOUND'' then
        map_option (\<lambda>cid. (TNotFound cid, SNotFound, [HContractState, HSuccessor, HDisclose]))
          (short_cid (case x_contract_ids x of cid # _ \<Rightarrow> cid | [] \<Rightarrow> []))
      else if c \<in> {''DAML_INTERPRETER_INVALID_ARGUMENT'', ''COMMAND_PREPROCESSING_FAILED''} then argument_texts cause lc
      else if c \<in> {''INVALID_ARGUMENT'', ''INVALID_FIELD'', ''MISSING_FIELD''} then malformed_texts cause lc
      else if c = ''NO_SYNCHRONIZER_FOR_SUBMISSION'' then Some (synchronizer_texts lc)
      else if c = ''PACKAGE_NOT_VETTED_BY_RECIPIENTS'' then
        Some (TNotVetted (case x_package_id x of Some p \<Rightarrow> p | None \<Rightarrow> ''(see cause)''), SNotVetted, [HAskVetting])
      else (case map_of fixed_texts c of
              Some texts \<Rightarrow> Some texts
            | None \<Rightarrow> default_texts cat c phase cause))"

definition generic_hints :: "LedgerError \<Rightarrow> Phase \<Rightarrow> hint list" where
  "generic_hints e phase =
     (if phase \<in> {Interpretation, Authorization, Request} then [HNothingSent]
      else if phase \<in> {Confirmation, Sequencing} then [HTrafficConsumed]
      else []) @
     (case le_correlation_id e of Some cid \<Rightarrow> [HCorrelate cid] | None \<Rightarrow> [])"

text \<open>\<open>retain\<close> keeps the first of each hint.\<close>

fun dedup_hints :: "hint set \<Rightarrow> hint list \<Rightarrow> hint list" where
  "dedup_hints seen [] = []"
| "dedup_hints seen (h # hs) =
     (if h \<in> seen then dedup_hints seen hs else h # dedup_hints (insert h seen) hs)"

subsection \<open>The diagnosis\<close>

record Diagnosis =
  dg_code :: string
  dg_phase :: Phase
  dg_category :: "string option"
  dg_title :: title
  dg_summary :: summary
  dg_explanation :: "string option"
  dg_resolution :: "string option"
  dg_hints :: "hint list"
  dg_extracted :: Extracted
  dg_retryable :: bool
  dg_definite_answer :: "bool option"
  dg_catalog_source :: "string option"
  dg_error :: LedgerError

definition is_retryable :: "LedgerError \<Rightarrow> bool" where
  "is_retryable e \<longleftrightarrow>
     (case le_error_category e of Some c \<Rightarrow> category_is_retryable c | None \<Rightarrow> retryable_by_code (le_code e)) \<and>
     le_definite_answer e \<noteq> Some True"

definition diagnose :: "patterns \<Rightarrow> CatalogEntry bmap \<Rightarrow> LedgerError \<Rightarrow> Diagnosis option" where
  "diagnose P cat e =
     (let entry = lookup_code cat (le_code e); phase = phase_for (le_code e); x = extract_facts P e in
      map_option (\<lambda>(t, s, hints).
        \<lparr>dg_code = le_code e, dg_phase = phase,
         dg_category = or_else (map_option category_name (le_error_category e)) (map_option ce_category entry),
         dg_title = t, dg_summary = s,
         dg_explanation = map_option ce_explanation entry,
         dg_resolution = map_option ce_resolution entry,
         dg_hints = dedup_hints {} (hints @ generic_hints e phase),
         dg_extracted = x,
         dg_retryable = is_retryable e,
         dg_definite_answer = le_definite_answer e,
         dg_catalog_source = map_option ce_source entry,
         dg_error = e\<rparr>)
      (specialise cat e phase x))"

end
