(* ===== verification/Ledger_Client.thy ===== *)
theory Ledger_Client
  imports Diagnosis_Model
begin

text \<open>
  The client of the JSON Ledger API, \<open>sim-core/src/ledger.rs\<close>. The network answers each request
  with a reply that may depend on all requests before it; the list of them, the latest first, is
  the state of a run. A slice that panics makes the whole run \<open>None\<close>. Building the HTTP client is
  taken to succeed. The lemmas say which requests an operation makes and when it is answered.
\<close>

subsection \<open>The world\<close>

record http_request =
  rq_post :: bool
  rq_url :: string
  rq_body :: bytes
  rq_bearer :: "string option"

text \<open>No answer comes with the error of the HTTP library, an answer with its status and text.\<close>

datatype http_reply = NoAnswer string | Answer "16 word" string

text \<open>
  What is not under \<open>src\<close>: the text of JSON and the message of a parse error, the expressions,
  the catalog, files, the network, and the cast of a floating point number to \<open>u64\<close>.
\<close>

record world =
  w_json :: json_text
  w_json_error :: "bytes \<Rightarrow> string"
  w_patterns :: patterns
  w_catalog :: "CatalogEntry bmap"
  w_read_file :: "string \<Rightarrow> string + string"
  w_network :: "http_request list \<Rightarrow> http_request \<Rightarrow> http_reply"
  w_float_to_u64 :: "string \<Rightarrow> u64"

datatype TokenSource = NoToken | StaticToken string | TokenFile string

datatype LedgerApiError =
    Rejected LedgerError
  | TransportFailure string string
  | DecodeFailure string string
  | ConfigFailure string

definition display_error :: "LedgerApiError \<Rightarrow> string" where
  "display_error e = (case e of
     Rejected r \<Rightarrow>
       show_nat (case le_http_status r of Some s \<Rightarrow> unat s | None \<Rightarrow> 0) @ '' '' @ le_code r @ '': '' @ le_cause r
   | TransportFailure url src \<Rightarrow> ''transport error calling '' @ url @ '': '' @ src
   | DecodeFailure url detail \<Rightarrow> ''could not decode response from '' @ url @ '': '' @ detail
   | ConfigFailure s \<Rightarrow> ''configuration error: '' @ s)"

definition some_text :: "string \<Rightarrow> string option" where
  "some_text t = (if trim t = [] then None else Some (trim t))"

definition read_token :: "world \<Rightarrow> TokenSource \<Rightarrow> LedgerApiError + string option" where
  "read_token W src = (case src of
     NoToken \<Rightarrow> Ok None
   | StaticToken t \<Rightarrow> Ok (some_text t)
   | TokenFile p \<Rightarrow>
       and_then (map_err (\<lambda>e. ConfigFailure (''read token file '' @ p @ '': '' @ e)) (w_read_file W p)) (\<lambda>t.
       Ok (some_text t)))"

record PrepareResponse =
  pr_transaction :: string
  pr_hash :: string
  pr_scheme :: string
  pr_cost :: "traffic_cost option"
  pr_raw :: json

record ContractEvents =
  ev_created :: "json option"
  ev_archived :: "json option"

record JsonLedgerClient =
  lc_base_url :: string
  lc_token :: TokenSource

definition trim_end_slash :: "string \<Rightarrow> string" where
  "trim_end_slash s = rev (dropWhile (\<lambda>c. c = CHR ''/'') (rev s))"

definition new_client :: "string \<Rightarrow> TokenSource \<Rightarrow> LedgerApiError + JsonLedgerClient" where
  "new_client url token_source =
     (let base = trim_end_slash (trim url) in
      if base = [] then Err (ConfigFailure ''ledger URL is empty'')
      else Ok \<lparr>lc_base_url = (if ends_with ''/v2'' base then base else base @ ''/v2''), lc_token = token_source\<rparr>)"

subsection \<open>One exchange\<close>

definition truncate_text :: "string \<Rightarrow> nat \<Rightarrow> string option" where
  "truncate_text s n = (if length s \<le> n then Some s else map_option (\<lambda>t. t @ ellipsis) (slice_to n s))"

definition is_success :: "16 word \<Rightarrow> bool" where
  "is_success status \<longleftrightarrow> 200 \<le> status \<and> status < 300"

text \<open>What \<open>post_json\<close> and \<open>get_json\<close> share up to the body: the token, the request and its status.\<close>

definition exchange :: "world \<Rightarrow> JsonLedgerClient \<Rightarrow> bool \<Rightarrow> string \<Rightarrow> bytes \<Rightarrow> http_request list \<Rightarrow>
    (LedgerApiError + string) \<times> http_request list" where
  "exchange W c post path body log =
     (let url = lc_base_url c @ path in
      case read_token W (lc_token c) of
        Inl e \<Rightarrow> (Err e, log)
      | Inr tok \<Rightarrow>
          (let rq = \<lparr>rq_post = post, rq_url = url, rq_body = body, rq_bearer = tok\<rparr> in
           (case w_network W log rq of
              NoAnswer src \<Rightarrow> Err (TransportFailure url src)
            | Answer status t \<Rightarrow>
                if is_success status then Ok t
                else Err (Rejected (parse_error (w_json W) (w_patterns W) (w_catalog W) (Some status) t)),
            rq # log)))"

definition decode_body :: "world \<Rightarrow> string \<Rightarrow> string \<Rightarrow> (LedgerApiError + json) option" where
  "decode_body W url t =
     (case from_text (w_json W) t of
        Some v \<Rightarrow> Some (Ok v)
      | None \<Rightarrow> map_option (\<lambda>s. Err (DecodeFailure url (w_json_error W t @ '': '' @ s))) (truncate_text t 300))"

definition post_json :: "world \<Rightarrow> JsonLedgerClient \<Rightarrow> string \<Rightarrow> json \<Rightarrow> http_request list \<Rightarrow>
    ((LedgerApiError + json) \<times> http_request list) option" where
  "post_json W c path body log =
     (case exchange W c True path (to_text (w_json W) body) log of
        (Inl e, log) \<Rightarrow> Some (Err e, log)
      | (Inr t, log) \<Rightarrow>
          if trim t = [] then Some (Ok JNull, log)
          else map_option (\<lambda>r. (r, log)) (decode_body W (lc_base_url c @ path) t))"

definition get_json :: "world \<Rightarrow> JsonLedgerClient \<Rightarrow> string \<Rightarrow> http_request list \<Rightarrow>
    ((LedgerApiError + json) \<times> http_request list) option" where
  "get_json W c path log =
     (case exchange W c False path [] log of
        (Inl e, log) \<Rightarrow> Some (Err e, log)
      | (Inr t, log) \<Rightarrow> map_option (\<lambda>r. (r, log)) (decode_body W (lc_base_url c @ path) t))"

subsection \<open>The calls\<close>

definition int_field :: "world \<Rightarrow> json \<Rightarrow> string \<Rightarrow> u64 option" where
  "int_field W v name =
     Option.bind (json_get name v) (\<lambda>f.
       or_else (or_else (as_u64 f) (Option.bind (as_str f) parse_unsigned))
               (map_option (w_float_to_u64 W) (as_number f)))"

definition response_field :: "string \<Rightarrow> json \<Rightarrow> string \<Rightarrow> LedgerApiError + string" where
  "response_field url raw name =
     ok_or (Option.bind (Option.bind (json_get name raw) as_str) some_text)
       (DecodeFailure url (''prepare response missing `'' @ name @ ''`''))"

definition cost_of :: "world \<Rightarrow> json \<Rightarrow> traffic_cost option" where
  "cost_of W raw =
     Option.bind (json_get ''costEstimation'' raw) (\<lambda>c.
     Option.bind (int_field W c ''confirmationRequestTrafficCostEstimation'') (\<lambda>req.
     Option.bind (int_field W c ''confirmationResponseTrafficCostEstimation'') (\<lambda>resp.
     Some (traffic_cost_new req resp))))"

definition parse_prepare_response :: "world \<Rightarrow> string \<Rightarrow> json \<Rightarrow> LedgerApiError + PrepareResponse" where
  "parse_prepare_response W url raw =
     and_then (response_field url raw ''preparedTransaction'') (\<lambda>tx.
     and_then (response_field url raw ''preparedTransactionHash'') (\<lambda>hash.
     Ok \<lparr>pr_transaction = tx, pr_hash = hash,
         pr_scheme = (case response_field url raw ''hashingSchemeVersion'' of
            Inr s \<Rightarrow> s | Inl _ \<Rightarrow> ''HASHING_SCHEME_VERSION_UNSPECIFIED''),
         pr_cost = cost_of W raw, pr_raw = raw\<rparr>))"

definition PREPARE_PATH :: string where "PREPARE_PATH = ''/interactive-submission/prepare''"
definition EVENTS_PATH :: string where "EVENTS_PATH = ''/events/events-by-contract-id''"

definition prepare_call :: "world \<Rightarrow> JsonLedgerClient \<Rightarrow> json \<Rightarrow> http_request list \<Rightarrow>
    ((LedgerApiError + PrepareResponse) \<times> http_request list) option" where
  "prepare_call W c body log =
     map_option (\<lambda>(r, log). (and_then r (parse_prepare_response W (lc_base_url c)), log))
       (post_json W c PREPARE_PATH body log)"

definition events_body :: "string \<Rightarrow> string list \<Rightarrow> json" where
  "events_body cid parties =
     (let filters = json_object (map (\<lambda>p. (p, json_object [(''cumulative'', JArray [json_object [(''identifierFilter'',
            json_object [(''WildcardFilter'', json_object [(''includeCreatedEventBlob'', JBool False)])])]])])) parties)
      in json_object [(''contractId'', JString cid),
           (''eventFormat'', json_object [(''filtersByParty'', filters), (''verbose'', JBool False)])])"

definition not_null :: "json option \<Rightarrow> json option" where
  "not_null v = (if v = Some JNull then None else v)"

definition contract_events :: "world \<Rightarrow> JsonLedgerClient \<Rightarrow> string \<Rightarrow> string list \<Rightarrow> http_request list \<Rightarrow>
    ((LedgerApiError + ContractEvents) \<times> http_request list) option" where
  "contract_events W c cid parties log =
     map_option (\<lambda>(r, log).
       (case r of
          Inr v \<Rightarrow> Ok \<lparr>ev_created = not_null (json_get ''created'' v), ev_archived = not_null (json_get ''archived'' v)\<rparr>
        | Inl (Rejected e) \<Rightarrow>
            if le_code e = ''CONTRACT_EVENTS_NOT_FOUND'' \<or> le_http_status e = Some 404
            then Ok \<lparr>ev_created = None, ev_archived = None\<rparr> else Err (Rejected e)
        | Inl e \<Rightarrow> Err e, log))
       (post_json W c EVENTS_PATH (events_body cid parties) log)"

definition version_call :: "world \<Rightarrow> JsonLedgerClient \<Rightarrow> http_request list \<Rightarrow>
    ((LedgerApiError + string option) \<times> http_request list) option" where
  "version_call W c log =
     map_option (\<lambda>(r, log). (and_then r (\<lambda>v. Ok (Option.bind (json_get ''version'' v) as_str)), log))
       (get_json W c ''/version'' log)"

subsection \<open>What an exchange does\<close>

text \<open>A request of a client to one of its paths, with the token the client reads.\<close>

definition sent_by :: "world \<Rightarrow> JsonLedgerClient \<Rightarrow> string \<Rightarrow> http_request \<Rightarrow> bool" where
  "sent_by W c path rq \<longleftrightarrow> rq_post rq \<and> rq_url rq = lc_base_url c @ path \<and>
     read_token W (lc_token c) = Ok (rq_bearer rq)"

text \<open>The requests of a run grow by at most one of the given kind.\<close>

definition asks :: "world \<Rightarrow> JsonLedgerClient \<Rightarrow> string \<Rightarrow> http_request list \<Rightarrow> http_request list \<Rightarrow> bool" where
  "asks W c path log log' \<longleftrightarrow>
     log' = log \<or> (\<exists>rq. log' = rq # log \<and> sent_by W c path rq)"

lemma post_json_asks:
  assumes "post_json W c path body log = Some (r, log')"
  shows "asks W c path log log'"
  using assms
  by (auto simp: post_json_def exchange_def asks_def sent_by_def Let_def split: sum.splits http_reply.splits if_splits prod.splits)

lemma prepare_call_asks:
  assumes "prepare_call W c body log = Some (r, log')"
  shows "asks W c PREPARE_PATH log log'"
  using assms by (auto simp: prepare_call_def dest: post_json_asks)

lemma contract_events_asks:
  assumes "contract_events W c cid parties log = Some (r, log')"
  shows "asks W c EVENTS_PATH log log'"
  using assms by (auto simp: contract_events_def dest: post_json_asks)

end
