(* ===== verification/Simulate.thy ===== *)
theory Simulate
  imports Ledger_Client Effects
begin

text \<open>
  The simulator, \<open>sim-core/src/simulate.rs\<close> with the request and report of \<open>model.rs\<close>: one request
  is prepared on the participant, and the answer becomes the effects and costs of the transaction or
  the diagnosis of its rejection. Caveats are constructors. The clock (\<open>elapsed_ms\<close>,
  \<open>simulated_at\<close>) is left out and the random command id is an argument. A run is \<open>None\<close> when it
  panics.
\<close>

subsection \<open>Requests and reports\<close>

record SimulationRequest =
  rs_user_id :: "string option"
  rs_command_id :: "string option"
  rs_act_as :: "string list"
  rs_read_as :: "string list"
  rs_commands :: "json list"
  rs_disclosed_contracts :: "json list"
  rs_synchronizer_id :: "string option"
  rs_package_id_selection_preference :: "string list"
  rs_min_ledger_time_rel_secs :: "u64 option"
  rs_expected_signatures :: "string list"
  rs_lookup_contracts :: bool
  rs_include_arguments :: bool
  rs_include_prepared_transaction :: bool

datatype Outcome = WouldSucceed | WouldFail | Inconclusive

datatype ContractState =
    IsActive string "string option" "int option"
  | IsArchived string "string option" "int option" "int option"
  | NeverSeen string
  | LookupFailed string string

datatype caveat =
    CouldNotRun LedgerApiError
  | RoutedTo string
  | ValidUntil string
  | NoEffects decode_error
  | NotDecoded decode_error
  | NoCostEstimation
  | PrepareCovers
  | EstimateAssumes

record 'd SimulationReport =
  rp_outcome :: Outcome
  rp_base_url :: string
  rp_request :: SimulationRequest
  rp_command_id :: string
  rp_effects :: "effects option"
  rp_traffic :: "'d traffic_quote option"
  rp_amulet_fee :: "'d amulet_fee_quote option"
  rp_diagnosis :: "Diagnosis option"
  rp_contract_states :: "ContractState list"
  rp_caveats :: "caveat list"
  rp_prepared_transaction :: "string option"
  rp_prepared_hash :: "string option"

record 'd Simulator =
  sm_client :: JsonLedgerClient
  sm_fee_schedule :: "'d fee_schedule"
  sm_default_user_id :: "string option"
  sm_max_contract_lookups :: nat

definition new_simulator :: "JsonLedgerClient \<Rightarrow> 'd fee_schedule \<Rightarrow> 'd Simulator" where
  "new_simulator c schedule =
     \<lparr>sm_client = c, sm_fee_schedule = schedule, sm_default_user_id = None, sm_max_contract_lookups = 5\<rparr>"

definition non_blank :: "string option \<Rightarrow> string option" where
  "non_blank s = (case s of Some t \<Rightarrow> if trim t = [] then None else Some t | None \<Rightarrow> None)"

definition with_default_user_id :: "'d Simulator \<Rightarrow> string option \<Rightarrow> 'd Simulator" where
  "with_default_user_id S u = S\<lparr>sm_default_user_id := non_blank u\<rparr>"

definition build_prepare_body :: "'d Simulator \<Rightarrow> SimulationRequest \<Rightarrow> string \<Rightarrow> json" where
  "build_prepare_body S req command_id = json_object (
     [(''commandId'', JString command_id),
      (''commands'', JArray (rs_commands req)),
      (''actAs'', JArray (map JString (rs_act_as req))),
      (''readAs'', JArray (map JString (rs_read_as req))),
      (''disclosedContracts'', JArray (rs_disclosed_contracts req)),
      (''synchronizerId'', JString (text_or_empty (rs_synchronizer_id req))),
      (''packageIdSelectionPreference'', JArray (map JString (rs_package_id_selection_preference req))),
      (''verboseHashing'', JBool False),
      (''prefetchContractKeys'', JArray []),
      (''estimateTrafficCost'', json_object
         [(''disabled'', JBool False),
          (''expectedSignatures'', JArray (map JString (rs_expected_signatures req)))])] @
     (case or_else (rs_user_id req) (sm_default_user_id S) of
        Some user \<Rightarrow> [(''userId'', JString user)] | None \<Rightarrow> []) @
     (case rs_min_ledger_time_rel_secs req of
        Some secs \<Rightarrow> [(''minLedgerTime'', json_object [(''time'', json_object [(''MinLedgerTimeRel'',
           json_object [(''value'', json_object
             [(''seconds'', JNumber (show_nat (unat secs))), (''nanos'', JNumber ''0'')])])])])]
      | None \<Rightarrow> []))"

subsection \<open>Fees of a command list\<close>

definition str_field :: "string \<Rightarrow> json \<Rightarrow> string" where
  "str_field name v = text_or_empty (Option.bind (json_get name v) as_str)"

definition amount_field_of :: "'d decimals \<Rightarrow> json \<Rightarrow> 'd" where
  "amount_field_of D v =
     (case Option.bind (json_get ''amount'' v) (decimal_of D) of Some a \<Rightarrow> a | None \<Rightarrow> d_zero D)"

definition transfer_outputs :: "'d decimals \<Rightarrow> json \<Rightarrow> 'd transfer_output list" where
  "transfer_outputs D transfer =
     (let sender = str_field ''sender'' transfer in
      case Option.bind (json_get ''outputs'' transfer) as_array of
        None \<Rightarrow> []
      | Some outs \<Rightarrow> map (\<lambda>out.
          \<lparr>to_amount_cc = amount_field_of D out,
           to_to_self = (sender \<noteq> [] \<and> str_field ''receiver'' out = sender),
           to_lock_holders =
             (case Option.bind (Option.bind (json_get ''lock'' out) (json_get ''holders'')) as_array of
                Some hs \<Rightarrow> of_nat (length hs) | None \<Rightarrow> 0)\<rparr>) outs)"

definition factory_outputs :: "'d decimals \<Rightarrow> json \<Rightarrow> 'd transfer_output list" where
  "factory_outputs D transfer =
     (let instrument = text_or_empty (Option.bind (Option.bind (json_get ''instrumentId'' transfer) (json_get ''id'')) as_str);
          sender = str_field ''sender'' transfer in
      if \<not> eq_ignore_ascii_case instrument ''Amulet'' then []
      else [plain_output (amount_field_of D transfer) (sender \<noteq> [] \<and> str_field ''receiver'' transfer = sender),
            plain_output (d_zero D) True])"

definition command_outputs :: "'d decimals \<Rightarrow> json \<Rightarrow> 'd transfer_output list" where
  "command_outputs D cmd =
     (case json_get ''ExerciseCommand'' cmd of
        None \<Rightarrow> []
      | Some ex \<Rightarrow>
          (let choice = str_field ''choice'' ex;
               transfer = json_index (json_index ex ''choiceArgument'') ''transfer'' in
           if choice = ''AmuletRules_Transfer'' then transfer_outputs D transfer
           else if choice = ''TransferFactory_Transfer'' then factory_outputs D transfer
           else []))"

definition amulet_fee_for :: "'d decimals \<Rightarrow> json list \<Rightarrow> 'd fee_schedule \<Rightarrow> 'd amulet_fee_quote option option" where
  "amulet_fee_for D commands S =
     (let outputs = concat (map (command_outputs D) commands) in
      if outputs = [] then Some None
      else map_option Some (quote_amulet_transfer D outputs (fs_amulet S) (tp_amulet_price_usd (fs_traffic S))))"

subsection \<open>A prepared transaction\<close>

text \<open>Effects and caveats; the last case is a walk that does not return.\<close>

definition prepared_effects :: "ledger_wire \<Rightarrow> SimulationRequest \<Rightarrow> PrepareResponse \<Rightarrow>
    (effects option \<times> caveat list) option" where
  "prepared_effects L req resp =
     (case decode_prepared L (pr_transaction resp) of
        Inl e \<Rightarrow> Some (None, [NotDecoded e])
      | Inr (tx, n) \<Rightarrow>
          (case effects_of L tx n (pr_hash resp) (pr_scheme resp) (rs_include_arguments req) of
             Some (Inl e) \<Rightarrow> Some (None, [NoEffects e])
           | Some (Inr fx) \<Rightarrow> Some (Some fx,
               (if text_or_empty (rs_synchronizer_id req) = [] \<and> fx_synchronizer_id fx \<noteq> []
                then [RoutedTo (fx_synchronizer_id fx)] else []) @
               (case fx_max_record_time fx of Some t \<Rightarrow> [ValidUntil t] | None \<Rightarrow> []))
           | None \<Rightarrow> None))"

definition on_prepared :: "ledger_wire \<Rightarrow> 'd decimals \<Rightarrow> 'd Simulator \<Rightarrow> SimulationRequest \<Rightarrow> PrepareResponse \<Rightarrow>
    'd SimulationReport \<Rightarrow> 'd SimulationReport option" where
  "on_prepared L D S req resp rp =
     Option.bind (prepared_effects L req resp) (\<lambda>(fx, caveats).
     Option.bind (case pr_cost resp of
         Some cost \<Rightarrow> map_option (\<lambda>q. (Some q, [])) (quote_traffic D cost (fs_traffic (sm_fee_schedule S)))
       | None \<Rightarrow> Some (None, [NoCostEstimation])) (\<lambda>(traffic, cost_caveats).
     Option.bind (amulet_fee_for D (rs_commands req) (sm_fee_schedule S)) (\<lambda>fee.
     Some (rp\<lparr>rp_outcome := WouldSucceed, rp_effects := fx, rp_traffic := traffic, rp_amulet_fee := fee,
       rp_caveats := rp_caveats rp @ caveats @ cost_caveats @ [PrepareCovers, EstimateAssumes],
       rp_prepared_transaction :=
         (if rs_include_prepared_transaction req then Some (pr_transaction resp) else rp_prepared_transaction rp),
       rp_prepared_hash :=
         (if rs_include_prepared_transaction req then Some (pr_hash resp) else rp_prepared_hash rp)\<rparr>))))"

subsection \<open>A rejection\<close>

definition created_field :: "ContractEvents \<Rightarrow> string \<Rightarrow> json option" where
  "created_field ev name =
     Option.bind (Option.bind (ev_created ev) (json_get ''createdEvent'')) (json_get name)"

definition contract_state :: "string \<Rightarrow> LedgerApiError + ContractEvents \<Rightarrow> ContractState" where
  "contract_state cid r = (case r of
     Inr ev \<Rightarrow>
       (let template = Option.bind (created_field ev ''templateId'') as_str;
            created_at = Option.bind (created_field ev ''offset'') as_i64 in
        case ev_archived ev of
          Some a \<Rightarrow> IsArchived cid template created_at
            (Option.bind (Option.bind (json_get ''archivedEvent'' a) (json_get ''offset'')) as_i64)
        | None \<Rightarrow> (if ev_created ev \<noteq> None then IsActive cid template created_at else NeverSeen cid))
   | Inl e \<Rightarrow> LookupFailed cid (display_error e))"

definition lookup_contract :: "world \<Rightarrow> JsonLedgerClient \<Rightarrow> string \<Rightarrow> string list \<Rightarrow> http_request list \<Rightarrow>
    (ContractState \<times> http_request list) option" where
  "lookup_contract W c cid parties log =
     map_option (\<lambda>(r, log). (contract_state cid r, log)) (contract_events W c cid parties log)"

definition short_id :: "string \<Rightarrow> string option" where
  "short_id cid = (if 18 < length cid then abbreviated cid else Some cid)"

definition state_hint :: "ContractState \<Rightarrow> hint option" where
  "state_hint st = (case st of
     IsArchived cid template _ at \<Rightarrow> map_option (\<lambda>c. HArchived c template at) (short_id cid)
   | IsActive cid _ _ \<Rightarrow> map_option HActive (short_id cid)
   | NeverSeen cid \<Rightarrow> map_option HNeverSeen (short_id cid)
   | LookupFailed cid e \<Rightarrow> map_option (\<lambda>c. HLookupFailed c e) (short_id cid))"

fun look_up_all :: "world \<Rightarrow> JsonLedgerClient \<Rightarrow> string list \<Rightarrow> string list \<Rightarrow> Diagnosis \<times> ContractState list \<Rightarrow>
    http_request list \<Rightarrow> ((Diagnosis \<times> ContractState list) \<times> http_request list) option" where
  "look_up_all W c parties [] (d, states) log = Some ((d, states), log)"
| "look_up_all W c parties (cid # cids) (d, states) log =
     Option.bind (lookup_contract W c cid parties log) (\<lambda>(st, log).
     Option.bind (state_hint st) (\<lambda>h.
     look_up_all W c parties cids (d\<lparr>dg_hints := h # dg_hints d\<rparr>, states @ [st]) log))"

definition ids_to_look_up :: "'d Simulator \<Rightarrow> SimulationRequest \<Rightarrow> Diagnosis \<Rightarrow> string list" where
  "ids_to_look_up S req d =
     (if rs_lookup_contracts req \<and> dg_phase d \<in> {Interpretation, Confirmation}
      then take (sm_max_contract_lookups S) (x_contract_ids (dg_extracted d)) else [])"

definition on_rejected :: "world \<Rightarrow> 'd decimals \<Rightarrow> 'd Simulator \<Rightarrow> SimulationRequest \<Rightarrow> LedgerError \<Rightarrow>
    'd SimulationReport \<Rightarrow> http_request list \<Rightarrow> ('d SimulationReport \<times> http_request list) option" where
  "on_rejected W D S req err rp log =
     Option.bind (diagnose (w_patterns W) (w_catalog W) err) (\<lambda>d.
     Option.bind (look_up_all W (sm_client S) (rs_act_as req @ rs_read_as req) (ids_to_look_up S req d)
                    (d, rp_contract_states rp) log) (\<lambda>((d, states), log).
     Option.bind (amulet_fee_for D (rs_commands req) (sm_fee_schedule S)) (\<lambda>fee.
     Some (rp\<lparr>rp_outcome := WouldFail, rp_contract_states := states, rp_amulet_fee := fee,
       rp_diagnosis := Some d\<rparr>, log))))"

subsection \<open>The simulation\<close>

definition empty_report :: "'d Simulator \<Rightarrow> SimulationRequest \<Rightarrow> string \<Rightarrow> 'd SimulationReport" where
  "empty_report S req command_id =
     \<lparr>rp_outcome = Inconclusive, rp_base_url = lc_base_url (sm_client S), rp_request = req,
      rp_command_id = command_id, rp_effects = None, rp_traffic = None, rp_amulet_fee = None,
      rp_diagnosis = None, rp_contract_states = [], rp_caveats = [], rp_prepared_transaction = None,
      rp_prepared_hash = None\<rparr>"

definition simulate :: "world \<Rightarrow> ledger_wire \<Rightarrow> 'd decimals \<Rightarrow> 'd Simulator \<Rightarrow> string \<Rightarrow> SimulationRequest \<Rightarrow>
    http_request list \<Rightarrow> ('d SimulationReport \<times> http_request list) option" where
  "simulate W L D S fresh_id req log =
     (let command_id = (case non_blank (rs_command_id req) of Some c \<Rightarrow> c | None \<Rightarrow> fresh_id);
          rp = empty_report S req command_id in
      Option.bind (prepare_call W (sm_client S) (build_prepare_body S req command_id) log) (\<lambda>(r, log).
        case r of
          Inr resp \<Rightarrow> map_option (\<lambda>rp. (rp, log)) (on_prepared L D S req resp rp)
        | Inl (Rejected err) \<Rightarrow> on_rejected W D S req err rp log
        | Inl e \<Rightarrow> Some (rp\<lparr>rp_outcome := Inconclusive, rp_caveats := rp_caveats rp @ [CouldNotRun e]\<rparr>, log)))"

end
