(* ===== verification/Diagnosis_Text.thy ===== *)
theory Diagnosis_Text
  imports Simulate
begin

text \<open>
  The texts behind the constructors of a diagnosis (\<open>specialise\<close>, \<open>generic_hints\<close> and \<open>dedup\<close> of
  \<open>sim-diagnose/src/classify.rs\<close>, \<open>enrich_with_state\<close> of \<open>sim-core/src/simulate.rs\<close>) and of a
  caveat. The reason base64 or prost gives for a refusal is an argument.
\<close>

definition dq :: string where "dq = [CHR 0x22]"

text \<open>A message in quotes after a colon, when there is one.\<close>

definition colon_text :: "string \<Rightarrow> string" where
  "colon_text msg = (if msg = [] then [] else '': '' @ dq @ msg @ dq)"

definition at_offset :: "int option \<Rightarrow> string" where
  "at_offset at = (case at of Some i \<Rightarrow> '' at offset '' @ show_int i | None \<Rightarrow> [])"

definition decode_text :: "(decode_error \<Rightarrow> string) \<Rightarrow> decode_error \<Rightarrow> string" where
  "decode_text why e = (case e of
     BadBase64 \<Rightarrow> ''preparedTransaction is not valid base64: '' @ why e
   | BadProto \<Rightarrow> ''preparedTransaction is not a valid PreparedTransaction protobuf: '' @ why e
   | MissingTransaction \<Rightarrow> ''prepared transaction has no `transaction` field'')"

subsection \<open>Phases and titles\<close>

primrec phase_label :: "Phase \<Rightarrow> string" where
  "phase_label Auth = ''authentication / permissions''"
| "phase_label Request = ''request validation''"
| "phase_label Interpretation = ''Daml interpretation''"
| "phase_label Authorization = ''Daml authorization''"
| "phase_label Routing = ''synchronizer routing''"
| "phase_label Sequencing = ''sequencing''"
| "phase_label Confirmation = ''confirmation''"
| "phase_label Participant = ''participant infrastructure''"
| "phase_label UnknownPhase = ''unknown''"

primrec title_text :: "title \<Rightarrow> string" where
  "title_text (TThrew short) = ''Daml threw '' @ short @ '' during interpretation''"
| "title_text (TMessage short msg) = ''Daml '' @ short @ '': '' @ dq @ msg @ dq"
| "title_text (TFailStatus i msg) = ''Daml failWithStatus ['' @ i @ '']'' @ colon_text msg"
| "title_text (TEnsure tpl) = ''`ensure` clause of '' @ tpl @ '' rejected the create''"
| "title_text TAuthorization = ''Missing Daml authorization''"
| "title_text (TAuthorizationFrom ps) = ''Missing authorization from '' @ join '', '' ps"
| "title_text (TNotFound cid) = ''Contract '' @ cid @ '' not found''"
| "title_text TConsumedEarlier = ''Contract consumed earlier in the same transaction''"
| "title_text TInactive = ''Input contract no longer active at confirmation time''"
| "title_text TLocked = ''Input contract locked by an in-flight transaction''"
| "title_text TKeyLookup = ''Contract key lookup failed''"
| "title_text TArguments = ''Command arguments do not type-check''"
| "title_text TMalformed = ''Request rejected before interpretation''"
| "title_text TRights = ''Token lacks rights for the requested parties''"
| "title_text TToken = ''Missing or invalid bearer token''"
| "title_text TNoSynchronizer = ''No synchronizer can carry this transaction''"
| "title_text (TNotVetted p) = ''Package '' @ p @ '' not vetted by a recipient participant''"
| "title_text TNoTraffic = ''Insufficient traffic credit on the synchronizer''"
| "title_text TOverloaded = ''Node overloaded '' @ em_dash @ '' retry with backoff''"
| "title_text TSameChange = ''Same change id already in flight''"
| "title_text TAccepted = ''Command already accepted (deduplication)''"
| "title_text TDedupPeriod = ''Deduplication period out of range''"
| "title_text TNotConnected = ''Participant not connected to a synchronizer''"
| "title_text TLedgerTime = ''Ledger time constraint cannot be satisfied''"
| "title_text TUnrecognised = ''Unrecognised error''"
| "title_text (TKnown t) = t"
| "title_text (TNotInCatalog c) = c @ '' (not in catalog)''"

subsection \<open>Summaries\<close>

primrec summary_text :: "summary \<Rightarrow> string" where
  "summary_text (SAssertion msg) = ''An `assert`/`assertMsg` in the choice body evaluated to False'' @
     (if msg = [] then [] else '' with message '' @ dq @ msg @ dq) @
     ''. The transaction would be rejected before reaching the sequencer; nothing is charged.''"
| "summary_text SPrecondition =
     ''A template `ensure` clause or a `create` precondition failed for a contract this '' @
     ''transaction would create.''"
| "summary_text SArithmetic =
     ''A Decimal/Int arithmetic operation overflowed, divided by zero, or lost precision (e.g. a '' @
     ''Numeric scale mismatch).''"
| "summary_text (SGeneral msg) = ''Daml code called `error`/`abort`'' @ colon_text msg @ ''.''"
| "summary_text (SException ty) =
     ''Daml raised the user-defined exception `'' @ ty @ ''` and no `try '' @ ellipsis @
     '' catch` handled it.''"
| "summary_text SFailStatus =
     ''The choice deliberately failed with `failWithStatus`; the error id and category are chosen '' @
     ''by the template author. This is a business-rule rejection, not an infrastructure problem.''"
| "summary_text (SEnsure tpl) = ''The transaction tries to create a '' @ tpl @
     '' contract whose payload violates its `ensure` predicate (e.g. a negative balance or an '' @
     ''invalid version).''"
| "summary_text SNoAuthorizer =
     ''A create or exercise in this transaction needs a signatory/controller that is not among the '' @
     ''parties acting (actAs) or delegating authority via an enclosing choice.''"
| "summary_text (SAuthorizers req got) =
     ''The node requires authorizers ['' @ join '', '' req @ ''] but only ['' @ join '', '' got @
     ''] authorized it. Parties must be in `actAs` or gain authority through a choice controlled '' @
     ''by an actAs party.''"
| "summary_text SNotFound =
     ''The referenced contract id is unknown to this participant, already archived, or not visible '' @
     ''to the acting/reading parties (a stakeholder must be in actAs/readAs).''"
| "summary_text SConsumedEarlier =
     ''The command exercises or fetches a contract that a previous node in this very transaction '' @
     ''already archived (double-spend within one submission).''"
| "summary_text SInactive =
     ''Interpretation succeeded but by the time the confirmation request reached the participant, '' @
     ''an input contract had been archived or reassigned (contention with a concurrent '' @
     ''transaction).''"
| "summary_text SLocked =
     ''Another transaction touching the same contract is pending confirmation; Canton rejects the '' @
     ''later one instead of queueing it.''"
| "summary_text SKeyLookup =
     ''`fetchByKey`/`exerciseByKey` found no active contract for the key visible to the acting '' @
     ''parties.''"
| "summary_text (SArguments t) =
     ''The participant could not translate the command into a valid Daml value: '' @ t"
| "summary_text (SMalformed t) = ''The request itself is malformed: '' @ t"
| "summary_text SRights =
     ''The Ledger API user behind the token cannot act/read as one of the parties, or the '' @
     ''operation needs admin rights. For `prepare`, *read* rights on each actAs party suffice.''"
| "summary_text SToken =
     ''The request carried no JWT, or the JWT failed validation (expired, wrong audience/scope, '' @
     ''unknown issuer key).''"
| "summary_text SNoSynchronizer =
     ''Routing failed: the participant found no synchronizer where all informees are hosted and '' @
     ''all packages are vetted.''"
| "summary_text SNotVetted =
     ''A participant hosting one of the informees has not vetted the Daml package used by a view. '' @
     ''Such transactions are rejected at confirmation on that participant.''"
| "summary_text SNoTraffic =
     ''The sequencer refused the confirmation request because the participant's traffic balance is '' @
     ''below the cost of the message. The command was not sequenced and no fee was charged.''"
| "summary_text SOverloaded =
     ''The sequencer or participant is shedding load; the submission was not processed.''"
| "summary_text SSameChange =
     ''A submission with this (userId, commandId, actAs) is still being processed; Canton '' @
     ''deduplicates it.''"
| "summary_text SAccepted =
     ''A command with the same change id succeeded within the deduplication period. This is a '' @
     ''*success* from the ledger's point of view.''"
| "summary_text SDedupPeriod =
     ''The requested deduplication duration/offset exceeds what the participant supports.''"
| "summary_text SNotConnected =
     ''The participant is not connected to the (or any) synchronizer, so nothing can be routed.''"
| "summary_text SLedgerTime =
     ''The Daml code depends on `getTime` (e.g. deadlines) in a way that no ledger-effective time '' @
     ''in the allowed window satisfies.''"
| "summary_text (SUnrecognised t) = ''No Canton error code could be extracted from: '' @ t"
| "summary_text (SText t) = t"

subsection \<open>Hints\<close>

primrec hint_text :: "hint \<Rightarrow> string" where
  "hint_text HReadAssertion =
     ''Read the assertion message: it names the business rule that rejected the input (e.g. '' @
     ''insufficient balance, wrong side, stale version).''"
| "hint_text HComparePayload =
     ''Compare the choice arguments against the *current* contract payload '' @ em_dash @
     '' fetch it with `canton-sim contract <cid>` (which calls `/v2/events/events-by-contract-id`) '' @
     em_dash @ '' the contract may have changed since you read it.''"
| "hint_text HNumericScales =
     ''Check Numeric scales: Decimal is Numeric 10; passing more than 10 fractional digits or '' @
     ''exceeding 38 digits fails at interpretation.''"
| "hint_text HErrorId =
     ''Look up the errorId in the Daml package documentation; the meta map (if present) carries '' @
     ''structured details of the rejection.''"
| "hint_text HEnsureLine =
     ''Check the template's `ensure` line; every field in the create arguments (including ones set '' @
     ''by a choice body) must satisfy it.''"
| "hint_text HDerivedValue =
     ''When the create happens inside a choice (Credit/Debit patterns), the violating value is '' @
     ''usually derived from the *existing* contract plus your delta.''"
| "hint_text HActAs =
     ''Add the missing party to `actAs` only if your token has actAs rights for it; otherwise the '' @
     ''workflow needs a propose/accept pattern or a choice the missing party controls.''"
| "hint_text HController = ''Check whether the choice's `controller` is the party you expect: e.g. an '' @
     ''exchange-controlled choice cannot be exercised by the user party.''"
| "hint_text HAllSignatories =
     ''For multi-party creates, all signatories must authorize; use `CreateAndExercise` on a '' @
     ''request/proposal contract instead of a direct create.''"
| "hint_text HContractState =
     ''canton-sim checks `/v2/events/events-by-contract-id` to tell *archived* from *never seen* '' @ em_dash @
     '' see the `contract_state` section of the report.''"
| "hint_text HSuccessor =
     ''If it was archived, re-query the active contract set for the successor (version+1 patterns '' @
     ''create a new cid on every mutation).''"
| "hint_text HDisclose =
     ''If it is unknown, the contract may live on a participant you are not hosted on: pass it as '' @
     ''a `disclosedContract` (explicit disclosure) or add a stakeholder to `readAs`.''"
| "hint_text HReorder =
     ''Reorder the commands or use the contract id returned by the consuming choice instead of the '' @
     ''input cid.''"
| "hint_text HReread =
     ''Re-read the active contracts and resubmit; if this recurs, serialise writers on the '' @
     ''contract or use a version/nonce pattern.''"
| "hint_text HRetryLocked =
     ''Retry after the in-flight transaction completes (typically < confirmation timeout); back '' @
     ''off with jitter.''"
| "hint_text HMaintainers =
     ''Keys are only visible to maintainers; ensure a maintainer is in actAs/readAs, and that the '' @
     ''key value (all fields, including party ids) matches exactly.''"
| "hint_text HCompareArgument =
     ''Compare the JSON argument against the template's field names and types (Daml JSON encoding: '' @
     ''Decimal as string, Time as ISO-8601, Party as party id, records as objects, variants as {'' @ dq @
     ''tag'' @ dq @ '':'' @ ellipsis @ '','' @ dq @ ''value'' @ dq @ '':'' @ ellipsis @ ''}).''"
| "hint_text HTemplateId =
     ''The template id could not be resolved: use `#package-name:Module:Entity` (package-name '' @
     ''reference) or the full `pkgid:Module:Entity`, and make sure the DAR is uploaded to this '' @
     ''participant.''"
| "hint_text HFieldMissing =
     ''A record field is missing or misspelled; field names are case-sensitive and optional fields '' @
     ''must still be present as null.''"
| "hint_text HSingleCommand =
     ''The interactive-submission prepare endpoint currently accepts exactly one command per '' @
     ''request: bundle multi-step logic behind a single `CreateAndExerciseCommand` or a helper '' @
     ''choice.''"
| "hint_text HCommandId = ''`commandId` must be a non-empty LedgerString (letters, digits, `-_:.#/`).''"
| "hint_text HActAsEmpty = ''`actAs` must contain at least one party id.''"
| "hint_text HOpenApi = ''Validate the request against the JSON Ledger API OpenAPI spec '' @
     ''(`/v2/interactive-submission/prepare`).''"
| "hint_text HInspectRights =
     ''Inspect the user's rights with `GET /v2/users/{user-id}/rights` and compare with '' @
     ''actAs/readAs.''"
| "hint_text HParticipantLog =
     ''A 403 with 'security-sensitive error' hides details on purpose: check the participant log '' @
     ''with the correlationId.''"
| "hint_text HFreshToken =
     ''Fetch a fresh token from the participant's identity provider and confirm its `aud`/`scope` '' @
     ''matches the participant's ledger-api auth config.''"
| "hint_text HPerSynchronizer =
     ''Read the per-synchronizer reasons in the error context; each connected synchronizer is '' @
     ''listed with why it was rejected.''"
| "hint_text HVet =
     ''A package is not vetted on a participant hosting one of the informees: upload the DAR there '' @
     ''and vet it (`/v2/package-vetting`).''"
| "hint_text HInformeeHosting =
     ''An informee (signatory/observer/controller) is not hosted on any participant connected to a '' @
     ''common synchronizer; check party-to-participant topology.''"
| "hint_text HAskVetting =
     ''Ask the counterparty's participant operator to upload and vet the package; the package id '' @
     ''in the cause identifies it. Vetting is per synchronizer.''"
| "hint_text HTopUp = ''Top up traffic (buy extra traffic with Canton Coin via the validator's wallet / '' @
     ''`/api/validator/v0/wallet/'' @ ellipsis @
     ''top-up`) or wait for the base-rate allowance to refill.''"
| "hint_text HTrafficSection =
     ''The `traffic` section of the canton-sim report shows the estimated cost of this transaction '' @
     ''so you can size the top-up.''"
| "hint_text HBackoff =
     ''Retry with exponential backoff and the *same* commandId + deduplication period so a late '' @
     ''acceptance is not duplicated.''"
| "hint_text HAwaitEarlier =
     ''Wait for the completion of the earlier submission (`/v2/commands/completions`) instead of '' @
     ''resubmitting.''"
| "hint_text HFreshCommandId =
     ''If the intent is a new change, use a fresh commandId; if it was a retry, nothing to do.''"
| "hint_text HShortenPeriod =
     ''The context usually carries `max_deduplication_duration`; shorten the period accordingly.''"
| "hint_text HConnected =
     ''Check `/v2/state/connected-synchronizers`; the validator may be restarting or disconnected '' @
     ''from the Global Synchronizer.''"
| "hint_text HTimeWindow =
     ''Widen the time window in the template or supply `minLedgerTime`; prepared transactions are '' @
     ''only valid for a limited record-time window.''"
| "hint_text HPasteBody =
     ''Paste the full JSON error body (it starts with {'' @ dq @ ''code'' @ dq @ '':'' @ ellipsis @
     '') for a precise diagnosis.''"
| "hint_text HNothingSent =
     ''This failure happens on the preparing participant: nothing was sent to the synchronizer and '' @
     ''no traffic was consumed.''"
| "hint_text HTrafficConsumed =
     ''This failure happens after submission: traffic for the confirmation request is consumed '' @
     ''even though the transaction is rejected.''"
| "hint_text (HCorrelate cid) = ''Correlate with participant logs using correlationId '' @ cid @ ''.''"
| "hint_text (HArchived c tpl at) = ''Contract '' @ c @ '' ('' @
     (case tpl of Some t \<Rightarrow> t | None \<Rightarrow> ''template unknown'') @ '') is ARCHIVED'' @
     at_offset at @ '' '' @ em_dash @
     '' it was consumed by an earlier transaction; query the active contract set for its successor.''"
| "hint_text (HActive c) = ''Contract '' @ c @
     '' is ACTIVE and visible to the acting parties, so the failure is not about its existence; '' @
     ''check authorization and the choice arguments.''"
| "hint_text (HNeverSeen c) = ''Contract '' @ c @
     '' has never been seen by this participant for the acting/reading parties: wrong participant, '' @
     ''wrong party set, or the contract must be passed as a disclosed contract.''"
| "hint_text (HLookupFailed c e) = ''Contract '' @ c @ '' could not be looked up: '' @ e"

subsection \<open>Caveats\<close>

primrec caveat_text :: "(decode_error \<Rightarrow> string) \<Rightarrow> caveat \<Rightarrow> string" where
  "caveat_text why (CouldNotRun e) = ''could not run the simulation: '' @ display_error e"
| "caveat_text why (RoutedTo s) = ''no synchronizerId was prescribed; the participant routed to '' @ s @ ''.''"
| "caveat_text why (ValidUntil t) = ''the prepared transaction is only valid until '' @ t @
     '' (maxRecordTime); a real submission must be prepared afresh.''"
| "caveat_text why (NoEffects e) =
     ''prepared transaction decoded but effects could not be derived: '' @ decode_text why e"
| "caveat_text why (NotDecoded e) = ''prepared transaction could not be decoded: '' @ decode_text why e"
| "caveat_text why NoCostEstimation =
     ''the participant returned no costEstimation (Canton < 3.4 or estimation disabled); traffic '' @
     ''cost unknown.''"
| "caveat_text why PrepareCovers =
     ''prepare covers Daml interpretation and authorization on this participant; contention on '' @
     ''input contracts, package vetting on counterparties' participants and sequencer-time checks '' @
     ''are only verified at confirmation.''"
| "caveat_text why EstimateAssumes =
     ''the traffic estimate assumes this participant submits; request amplification and '' @
     ''reassignments are not included.''"

subsection \<open>Equal texts\<close>

text \<open>
  The code removes a hint whose text has been given; the model removes an equal constructor. The
  two agree, as no two hints of a diagnosis share a text.
\<close>

definition constant_hints :: "hint list" where
  "constant_hints =
     [HReadAssertion, HComparePayload, HNumericScales, HErrorId, HEnsureLine, HDerivedValue, HActAs,
      HController, HAllSignatories, HContractState, HSuccessor, HDisclose, HReorder, HReread,
      HRetryLocked, HMaintainers, HCompareArgument, HTemplateId, HFieldMissing, HSingleCommand,
      HCommandId, HActAsEmpty, HOpenApi, HInspectRights, HParticipantLog, HFreshToken,
      HPerSynchronizer, HVet, HInformeeHosting, HAskVetting, HTopUp, HTrafficSection, HBackoff,
      HAwaitEarlier, HFreshCommandId, HShortenPeriod, HConnected, HTimeWindow, HPasteBody,
      HNothingSent, HTrafficConsumed]"

lemma constant_texts:
  "distinct (map hint_text constant_hints)"
  "list_all (\<lambda>h. \<not> starts_with ''Correlate'' (hint_text h)) constant_hints"
  by code_simp+

lemma hint_text_inj: "inj_on hint_text (set constant_hints \<union> range HCorrelate)"
proof -
  have "inj_on hint_text (set constant_hints)" using constant_texts(1) by (simp add: distinct_map)
  moreover have "inj_on hint_text (range HCorrelate)" by (auto simp: inj_on_def)
  moreover have "hint_text ` set constant_hints \<inter> hint_text ` range HCorrelate = {}"
  proof -
    have "starts_with ''Correlate'' (hint_text (HCorrelate c))" for c
      by (simp add: starts_with_def)
    then show ?thesis using constant_texts(2) by (fastforce simp: list_all_iff)
  qed
  ultimately show ?thesis by (auto simp: inj_on_Un)
qed

definition constant_only :: "title \<times> summary \<times> hint list \<Rightarrow> bool" where
  "constant_only texts \<longleftrightarrow> list_all (\<lambda>h. h \<in> set constant_hints) (snd (snd texts))"

lemma hints_constant_only: "constant_only (t, sm, hs) \<longleftrightarrow> set hs \<subseteq> set constant_hints"
  by (auto simp: constant_only_def list_all_iff)

lemma constant_only_Cons [simp]:
  "constant_only (t, sm, [])"
  "constant_only (t, sm, h # hs) \<longleftrightarrow> h \<in> set constant_hints \<and> constant_only (t, sm, hs)"
  "constant_only (t, sm, hs @ hs') \<longleftrightarrow> constant_only (t, sm, hs) \<and> constant_only (t, sm, hs')"
  "constant_only (t, sm, if b then hs else hs') \<longleftrightarrow> (if b then constant_only (t, sm, hs) else constant_only (t, sm, hs'))"
  by (auto simp: constant_only_def)

lemma is_constant_hint [simp]:
  "HReadAssertion \<in> set constant_hints" "HComparePayload \<in> set constant_hints"
  "HNumericScales \<in> set constant_hints" "HErrorId \<in> set constant_hints"
  "HEnsureLine \<in> set constant_hints" "HDerivedValue \<in> set constant_hints"
  "HActAs \<in> set constant_hints" "HController \<in> set constant_hints"
  "HAllSignatories \<in> set constant_hints" "HContractState \<in> set constant_hints"
  "HSuccessor \<in> set constant_hints" "HDisclose \<in> set constant_hints"
  "HReorder \<in> set constant_hints" "HReread \<in> set constant_hints"
  "HRetryLocked \<in> set constant_hints" "HMaintainers \<in> set constant_hints"
  "HCompareArgument \<in> set constant_hints" "HTemplateId \<in> set constant_hints"
  "HFieldMissing \<in> set constant_hints" "HSingleCommand \<in> set constant_hints"
  "HCommandId \<in> set constant_hints" "HActAsEmpty \<in> set constant_hints"
  "HOpenApi \<in> set constant_hints" "HInspectRights \<in> set constant_hints"
  "HParticipantLog \<in> set constant_hints" "HFreshToken \<in> set constant_hints"
  "HPerSynchronizer \<in> set constant_hints" "HVet \<in> set constant_hints"
  "HInformeeHosting \<in> set constant_hints" "HAskVetting \<in> set constant_hints"
  "HTopUp \<in> set constant_hints" "HTrafficSection \<in> set constant_hints"
  "HBackoff \<in> set constant_hints" "HAwaitEarlier \<in> set constant_hints"
  "HFreshCommandId \<in> set constant_hints" "HShortenPeriod \<in> set constant_hints"
  "HConnected \<in> set constant_hints" "HTimeWindow \<in> set constant_hints"
  "HPasteBody \<in> set constant_hints" "HNothingSent \<in> set constant_hints"
  "HTrafficConsumed \<in> set constant_hints"
  by (simp_all add: constant_hints_def)

lemma arm_hints:
  "constant_only (exception_texts x)" "constant_only (authorization_texts x)" "constant_only (synchronizer_texts lc)"
  "argument_texts cause lc = Some texts \<Longrightarrow> constant_only texts"
  "malformed_texts cause lc = Some texts \<Longrightarrow> constant_only texts"
  "default_texts cat c phase cause = Some texts \<Longrightarrow> constant_only texts"
  "map_of fixed_texts c = Some texts \<Longrightarrow> constant_only texts"
proof -
  show "constant_only (exception_texts x)" by (simp add: exception_texts_def Let_def)
  show "constant_only (authorization_texts x)" by (simp add: authorization_texts_def)
  show "constant_only (synchronizer_texts lc)" by (simp add: synchronizer_texts_def)
  show "argument_texts cause lc = Some texts \<Longrightarrow> constant_only texts" by (auto simp: argument_texts_def Let_def)
  show "malformed_texts cause lc = Some texts \<Longrightarrow> constant_only texts" by (auto simp: malformed_texts_def Let_def)
  show "default_texts cat c phase cause = Some texts \<Longrightarrow> constant_only texts" by (auto simp: default_texts_def)
  have "list_all (\<lambda>(_, texts). constant_only texts) fixed_texts" by (simp add: fixed_texts_def)
  then show "map_of fixed_texts c = Some texts \<Longrightarrow> constant_only texts"
    by (auto simp: list_all_iff dest: map_of_SomeD)
qed

lemma specialise_hints:
  assumes "specialise cat e phase x = Some texts"
  shows "constant_only texts"
  using assms unfolding specialise_def Let_def
  by (auto simp: arm_hints(1-3) intro: arm_hints(4-7) split: if_splits option.splits)

lemma dedup_hints_distinct: "distinct (dedup_hints seen hs) \<and> set (dedup_hints seen hs) = set hs - seen"
  by (induction seen hs rule: dedup_hints.induct) auto

lemma diagnosed_hints_apart:
  assumes "diagnose P cat e = Some d"
  shows "distinct (map hint_text (dg_hints d))"
proof -
  obtain t sm hs where arm: "specialise cat e (phase_for (le_code e)) (extract_facts P e) = Some (t, sm, hs)"
    and d: "dg_hints d = dedup_hints {} (hs @ generic_hints e (phase_for (le_code e)))"
    using assms by (auto simp: diagnose_def Let_def)
  have "set hs \<subseteq> set constant_hints" using specialise_hints [OF arm] by (simp add: hints_constant_only)
  then have "set (dg_hints d) \<subseteq> set constant_hints \<union> range HCorrelate"
    unfolding d using dedup_hints_distinct by (auto simp: generic_hints_def split: if_splits option.splits)
  then have "inj_on hint_text (set (dg_hints d))" using hint_text_inj inj_on_subset by blast
  moreover have "distinct (dg_hints d)" unfolding d using dedup_hints_distinct by blast
  ultimately show ?thesis by (simp add: distinct_map)
qed

end
