(* ===== verification/Simulation_Text.thy ===== *)
theory Simulation_Text
  imports Diagnosis_Text
begin

text \<open>
  \<open>sim-core/src/render.rs\<close>: a report as text. What the third-party crates and the clock contribute
  is the record \<open>text_env\<close>. Ids, templates and values are cut at a fixed byte, and a cut inside
  a character panics, which is \<open>None\<close>; that happens exactly when one of the texts of the report
  is longer than its limit and not cut at a character boundary. The version of the participant, which
  no report carries, is left out.
\<close>

record 'd text_env =
  te_json :: json_text
  te_normalized :: "'d \<Rightarrow> string"
  te_reason :: "decode_error \<Rightarrow> string"
  te_elapsed :: nat

subsection \<open>Cuts\<close>

text \<open>The cuts of \<open>short_cid\<close> are those of the function of this name in \<open>simulate.rs\<close>.\<close>

definition text_cid :: "string option \<Rightarrow> string option" where
  "text_cid c = (case c of Some c \<Rightarrow> short_id c | None \<Rightarrow> Some ''?'')"

definition text_template :: "string option \<Rightarrow> string option" where
  "text_template t = (case t of
     None \<Rightarrow> Some ''?''
   | Some t \<Rightarrow>
       (let (pkg, rest) = (case split_once (CHR '':'') t of Some parts \<Rightarrow> parts | None \<Rightarrow> (t, [])) in
        if 12 < length pkg \<and> \<not> starts_with ''#'' pkg
        then map_option (\<lambda>a. a @ ellipsis @ '':'' @ rest) (slice_to 8 pkg)
        else Some t))"

definition compact :: "json_text \<Rightarrow> json \<Rightarrow> string option" where
  "compact J v =
     (let s = to_text J v in
      if 200 < length s then map_option (\<lambda>a. a @ ellipsis) (slice_to 200 s) else Some s)"

text \<open>Digits in groups of three.\<close>

fun grouped :: "string \<Rightarrow> string" where
  "grouped [] = []"
| "grouped (c # cs) = (c # (if cs \<noteq> [] \<and> length cs mod 3 = 0 then '','' else [])) @ grouped cs"

definition group :: "u64 \<Rightarrow> string" where "group n = grouped (show_nat (unat n))"

subsection \<open>Effects\<close>

definition indent :: "nat \<Rightarrow> string" where "indent depth = concat (replicate (depth + 1) ''  '')"

definition arrow :: string where "arrow = [CHR 0xE2, CHR 0x86, CHR 0x92]"
definition almost :: string where "almost = [CHR 0xE2, CHR 0x89, CHR 0x88]"
definition middle_dot :: string where "middle_dot = [CHR 0xC2, CHR 0xB7]"

definition node_headline :: "effect_node \<Rightarrow> string option" where
  "node_headline n = (case en_kind n of
     KRollback \<Rightarrow> Some ''Rollback''
   | k \<Rightarrow>
       Option.bind (text_template (en_template_id n)) (\<lambda>tpl.
       map_option (\<lambda>cid. case k of
           KCreate \<Rightarrow> ''Create '' @ tpl @ '' '' @ arrow @ '' '' @ cid @ ''   signatories: '' @ join '', '' (en_signatories n)
         | KExercise \<Rightarrow> ''Exercise '' @ tpl @ ''.'' @ (case en_choice n of Some c \<Rightarrow> c | None \<Rightarrow> ''?'') @ '' on '' @ cid @
             ''   by '' @ join '', '' (en_acting_parties n) @
             (if en_consuming n = Some True then ''   [consuming]'' else [])
         | _ \<Rightarrow> ''Fetch '' @ tpl @ '' '' @ cid)
         (text_cid (en_contract_id n))))"

definition value_line :: "json_text \<Rightarrow> string \<Rightarrow> string \<Rightarrow> json option \<Rightarrow> string option" where
  "value_line J ind label v = (case v of
     None \<Rightarrow> Some []
   | Some v \<Rightarrow> map_option (\<lambda>t. ind @ label @ t @ nl) (compact J v))"

definition node_lines :: "json_text \<Rightarrow> effect_node \<Rightarrow> string option" where
  "node_lines J n =
     Option.bind (node_headline n) (\<lambda>line.
     Option.bind (value_line J (indent (en_depth n)) ''  arg: '' (en_argument n)) (\<lambda>arg.
     Option.bind (value_line J (indent (en_depth n)) ''  result: '' (en_result n)) (\<lambda>res.
     Some (indent (en_depth n) @ line @ nl @ arg @ res))))"

definition input_line :: "input_contract \<Rightarrow> string option" where
  "input_line c =
     Option.bind (text_cid (Some (ic_contract_id c))) (\<lambda>cid.
     map_option (\<lambda>tpl. ''  '' @ cid @ '' '' @ tpl @ (if ic_consumed c then ''   [will be archived]'' else []) @ nl)
       (text_template (ic_template_id c)))"

text \<open>One text after the other, in order; a panic in one ends the rendering.\<close>

fun collect_texts :: "string option list \<Rightarrow> string option" where
  "collect_texts [] = Some []"
| "collect_texts (t # ts) = Option.bind t (\<lambda>s. map_option (\<lambda>rest. s @ rest) (collect_texts ts))"

definition effects_counts_line :: "effects \<Rightarrow> string" where
  "effects_counts_line fx =
     (let n = fx_counts fx in
      ''Effects: '' @ show_nat (ec_creates n) @ '' create, '' @ show_nat (ec_exercises n) @ '' exercise ('' @
      show_nat (ec_archives n) @ '' consuming), '' @ show_nat (ec_fetches n) @ '' fetch, '' @
      show_nat (ec_rollbacks n) @ '' rollback   on '' @
      (if fx_synchronizer_id fx = [] then ''(unrouted)'' else fx_synchronizer_id fx) @ nl)"

definition prepared_line :: "effects \<Rightarrow> string" where
  "prepared_line fx =
     ''Prepared transaction: '' @ show_nat (fx_prepared_size_bytes fx) @ '' bytes, hash '' @
     concat (take 16 (utf8_chars (fx_prepared_transaction_hash_hex fx))) @ ellipsis @ '', '' @
     fx_hashing_scheme_version fx @ nl"

definition effects_text :: "json_text \<Rightarrow> effects \<Rightarrow> string option" where
  "effects_text J fx =
     Option.bind (collect_texts (map (node_lines J) (fx_nodes fx))) (\<lambda>nodes.
     map_option (\<lambda>inputs.
         nl @ effects_counts_line fx @ nodes @ ''Informees: '' @ join '', '' (fx_informees fx) @ nl @
         (if fx_input_contracts fx = [] then []
          else ''Input contracts: '' @ show_nat (length (fx_input_contracts fx)) @ '' ('' @
            show_nat (length (filter ic_consumed (fx_input_contracts fx))) @ '' consumed)'' @ nl @ inputs) @
         prepared_line fx)
       (collect_texts (map input_line (fx_input_contracts fx))))"

subsection \<open>Costs\<close>

definition traffic_text :: "('d \<Rightarrow> string) \<Rightarrow> 'd traffic_quote \<Rightarrow> string" where
  "traffic_text dec t =
     nl @ ''Traffic: '' @ group (tc_total (tq_cost t)) @ '' bytes (request '' @
     group (tc_confirmation_request (tq_cost t)) @ '' + response '' @
     group (tc_confirmation_response (tq_cost t)) @ '') '' @ almost @ '' '' @ dec (tq_usd t) @ '' USD '' @ almost @
     '' '' @ dec (tq_cc t) @ '' CC   [pricing: '' @ tp_source (tq_pricing t) @ '']'' @ nl"

definition amulet_text :: "('d \<Rightarrow> string) \<Rightarrow> 'd amulet_fee_quote \<Rightarrow> string" where
  "amulet_text dec f =
     ''Amulet fees: transfer '' @ dec (aq_transfer_fee_usd f) @ '' + create '' @ dec (aq_create_fee_usd f) @
     '' + lock '' @ dec (aq_lock_holder_fee_usd f) @ '' = '' @ dec (aq_total_usd f) @ '' USD '' @ almost @ '' '' @
     dec (aq_total_cc f) @ '' CC over '' @ show_nat (aq_outputs f) @ '' outputs   [schedule: '' @
     aq_schedule_source f @ '']'' @ nl"

subsection \<open>A diagnosis\<close>

definition facts_of :: "Extracted \<Rightarrow> string list" where
  "facts_of x =
     (case x_template_id x of Some t \<Rightarrow> [''template '' @ t] | None \<Rightarrow> []) @
     (case x_choice x of Some c \<Rightarrow> [''choice '' @ c] | None \<Rightarrow> []) @
     (if x_contract_ids x = [] then [] else [''contracts '' @ join '', '' (x_contract_ids x)]) @
     (if x_missing_authorizers x = [] then []
      else [''missing authorizers '' @ join '', '' (x_missing_authorizers x)])"

definition state_line :: "ContractState \<Rightarrow> string option" where
  "state_line st = (case st of
     IsActive cid tpl _ \<Rightarrow>
       map_option (\<lambda>c. c @ '' ACTIVE ('' @ (case tpl of Some t \<Rightarrow> t | None \<Rightarrow> ''?'') @ '')'') (text_cid (Some cid))
   | IsArchived cid _ _ at \<Rightarrow> map_option (\<lambda>c. c @ '' ARCHIVED'' @ at_offset at) (text_cid (Some cid))
   | NeverSeen cid \<Rightarrow> map_option (\<lambda>c. c @ '' UNKNOWN to this participant'') (text_cid (Some cid))
   | LookupFailed cid e \<Rightarrow> map_option (\<lambda>c. c @ '' lookup failed: '' @ e) (text_cid (Some cid)))"

definition optional_line :: "string \<Rightarrow> string option \<Rightarrow> string" where
  "optional_line label t = (case t of Some t \<Rightarrow> label @ t @ nl | None \<Rightarrow> [])"

definition diagnosis_text :: "Diagnosis \<Rightarrow> ContractState list \<Rightarrow> string option" where
  "diagnosis_text d states =
     map_option (\<lambda>state_lines.
         nl @ dg_code d @ '' '' @ em_dash @ '' '' @ title_text (dg_title d) @ nl @
         ''  '' @ summary_text (dg_summary d) @ nl @
         (if facts_of (dg_extracted d) = [] then []
          else ''  '' @ join ('' '' @ middle_dot @ '' '') (facts_of (dg_extracted d)) @ nl) @
         state_lines @
         optional_line ''  Canton: '' (dg_explanation d) @
         optional_line ''  Canton resolution: '' (dg_resolution d) @
         (if dg_hints d = [] then []
          else ''  Next steps:'' @ nl @ concat (map (\<lambda>h. ''   - '' @ hint_text h @ nl) (dg_hints d))) @
         ''  retryable: '' @ (if dg_retryable d then ''yes'' else ''no'') @
         ''   category: '' @ (case dg_category d of Some c \<Rightarrow> c | None \<Rightarrow> ''?'') @
         ''   http: '' @ (case le_http_status (dg_error d) of Some s \<Rightarrow> show_nat (unat s) | None \<Rightarrow> ''-'') @
         ''   correlationId: '' @ (case le_correlation_id (dg_error d) of Some c \<Rightarrow> c | None \<Rightarrow> ''-'') @ nl)
       (collect_texts (map (\<lambda>st. map_option (\<lambda>t. ''  contract state: '' @ t @ nl) (state_line st)) states))"

subsection \<open>A report\<close>

definition outcome_headline :: "'d SimulationReport \<Rightarrow> string" where
  "outcome_headline r = (case rp_outcome r of
     WouldSucceed \<Rightarrow> ''WOULD SUCCEED''
   | WouldFail \<Rightarrow> ''WOULD FAIL at '' @
       (case rp_diagnosis r of Some d \<Rightarrow> phase_label (dg_phase d) | None \<Rightarrow> ''unknown phase'')
   | Inconclusive \<Rightarrow> ''INCONCLUSIVE'')"

definition report_head :: "'d text_env \<Rightarrow> 'd SimulationReport \<Rightarrow> string" where
  "report_head E r =
     ''canton-sim '' @ em_dash @ '' '' @ outcome_headline r @ nl @
     ''participant: '' @ rp_base_url r @ ''   commandId: '' @ rp_command_id r @ ''   '' @
     show_nat (te_elapsed E) @ '' ms'' @ nl @
     ''actAs: '' @ join '', '' (rs_act_as (rp_request r)) @
     (if rs_read_as (rp_request r) = [] then [] else ''   readAs: '' @ join '', '' (rs_read_as (rp_request r))) @ nl"

definition caveats_text :: "'d text_env \<Rightarrow> caveat list \<Rightarrow> string" where
  "caveats_text E cs =
     (if cs = [] then []
      else nl @ ''Caveats:'' @ nl @ concat (map (\<lambda>c. ''  - '' @ caveat_text (te_reason E) c @ nl) cs))"

definition report_to_text :: "'d text_env \<Rightarrow> 'd SimulationReport \<Rightarrow> string option" where
  "report_to_text E r =
     Option.bind (case rp_effects r of Some fx \<Rightarrow> effects_text (te_json E) fx | None \<Rightarrow> Some []) (\<lambda>fx.
     map_option (\<lambda>d.
         report_head E r @ fx @
         (case rp_traffic r of Some t \<Rightarrow> traffic_text (te_normalized E) t | None \<Rightarrow> []) @
         (case rp_amulet_fee r of Some f \<Rightarrow> amulet_text (te_normalized E) f | None \<Rightarrow> []) @
         d @ caveats_text E (rp_caveats r))
       (case rp_diagnosis r of Some d \<Rightarrow> diagnosis_text d (rp_contract_states r) | None \<Rightarrow> Some []))"

subsection \<open>When a report has a text\<close>

text \<open>A text is cut where a character starts.\<close>

definition cut_ok :: "nat \<Rightarrow> nat \<Rightarrow> string \<Rightarrow> bool" where
  "cut_ok limit n s \<longleftrightarrow> (limit < length s \<longrightarrow> char_boundary s n)"

definition cid_ok :: "string \<Rightarrow> bool" where
  "cid_ok c \<longleftrightarrow> cut_ok 18 10 c \<and> cut_ok 18 (length c - 6) c"

definition template_ok :: "string \<Rightarrow> bool" where
  "template_ok t \<longleftrightarrow> (let pkg = takeWhile (\<lambda>c. c \<noteq> CHR '':'') t in starts_with ''#'' pkg \<or> cut_ok 12 8 pkg)"

definition value_ok :: "json_text \<Rightarrow> json \<Rightarrow> bool" where
  "value_ok J v \<longleftrightarrow> cut_ok 200 200 (to_text J v)"

definition node_ok :: "json_text \<Rightarrow> effect_node \<Rightarrow> bool" where
  "node_ok J n \<longleftrightarrow>
     (en_kind n \<noteq> KRollback \<longrightarrow> pred_option template_ok (en_template_id n) \<and> pred_option cid_ok (en_contract_id n)) \<and>
     pred_option (value_ok J) (en_argument n) \<and> pred_option (value_ok J) (en_result n)"

definition input_ok :: "input_contract \<Rightarrow> bool" where
  "input_ok c \<longleftrightarrow> cid_ok (ic_contract_id c) \<and> pred_option template_ok (ic_template_id c)"

definition state_cid :: "ContractState \<Rightarrow> string" where
  "state_cid st = (case st of
     IsActive cid _ _ \<Rightarrow> cid | IsArchived cid _ _ _ \<Rightarrow> cid | NeverSeen cid \<Rightarrow> cid | LookupFailed cid _ \<Rightarrow> cid)"

definition printable :: "json_text \<Rightarrow> 'd SimulationReport \<Rightarrow> bool" where
  "printable J r \<longleftrightarrow>
     pred_option (\<lambda>fx. list_all (node_ok J) (fx_nodes fx) \<and> list_all input_ok (fx_input_contracts fx)) (rp_effects r) \<and>
     (rp_diagnosis r \<noteq> None \<longrightarrow> list_all (\<lambda>st. cid_ok (state_cid st)) (rp_contract_states r))"

lemma slice_defined [simp]: "slice_to n s = None \<longleftrightarrow> \<not> char_boundary s n" "slice_from n s = None \<longleftrightarrow> \<not> char_boundary s n"
  by (simp_all add: slice_to_def slice_from_def)

lemma text_cid_defined: "text_cid c = None \<longleftrightarrow> \<not> pred_option cid_ok c"
  by (cases c) (auto simp: text_cid_def short_id_def abbreviated_def cid_ok_def cut_ok_def bind_eq_None_conv)

lemma first_part:
  "(case split_once d t of Some parts \<Rightarrow> parts | None \<Rightarrow> (t, [])) = (takeWhile (\<lambda>c. c \<noteq> d) t, tl (dropWhile (\<lambda>c. c \<noteq> d) t))"
proof (cases "split_once d t")
  case None
  then have "\<forall>c \<in> set t. c \<noteq> d" unfolding split_once_None by blast
  then have "takeWhile (\<lambda>c. c \<noteq> d) t = t" "dropWhile (\<lambda>c. c \<noteq> d) t = []"
    by (simp_all only: takeWhile_eq_all_conv dropWhile_eq_Nil_conv)
  then show ?thesis by (simp only: None option.case list.sel)
next
  case (Some parts)
  then obtain a b where p: "parts = (a, b)" "t = a @ d # b" "d \<notin> set a"
    by (cases parts) (simp add: split_once_Some)
  then have "\<forall>c \<in> set a. c \<noteq> d" by blast
  then have "takeWhile (\<lambda>c. c \<noteq> d) t = a" "dropWhile (\<lambda>c. c \<noteq> d) t = d # b"
    by (simp_all add: p(2) takeWhile_append2 dropWhile_append2)
  then show ?thesis by (simp only: Some p(1) option.case list.sel)
qed

lemma text_template_defined: "text_template t = None \<longleftrightarrow> \<not> pred_option template_ok t"
proof (cases t)
  case (Some u)
  let ?pkg = "takeWhile (\<lambda>c. c \<noteq> CHR '':'') u"
  define cut where "cut \<longleftrightarrow> 12 < length ?pkg \<and> \<not> starts_with ''#'' ?pkg"
  obtain f where "text_template t = (if cut then map_option f (slice_to 8 ?pkg) else Some u)"
    unfolding Some text_template_def cut_def first_part by (simp only: option.case Let_def prod.case)
  moreover have "template_ok u \<longleftrightarrow> (cut \<longrightarrow> char_boundary ?pkg 8)"
    by (auto simp: template_ok_def cut_ok_def cut_def Let_def)
  ultimately show ?thesis by (simp add: Some)
qed (simp add: text_template_def)

lemma compact_defined: "compact J v = None \<longleftrightarrow> \<not> value_ok J v"
  by (auto simp: compact_def value_ok_def cut_ok_def Let_def)

lemma value_line_defined: "value_line J ind label v = None \<longleftrightarrow> \<not> pred_option (value_ok J) v"
  by (cases v) (simp_all add: value_line_def compact_defined)

lemma node_headline_defined:
  "node_headline n = None \<longleftrightarrow>
     \<not> (en_kind n \<noteq> KRollback \<longrightarrow> pred_option template_ok (en_template_id n) \<and> pred_option cid_ok (en_contract_id n))"
  by (cases "en_kind n") (auto simp: node_headline_def bind_eq_None_conv text_template_defined text_cid_defined)

lemma node_lines_defined: "node_lines J n = None \<longleftrightarrow> \<not> node_ok J n"
  unfolding node_lines_def node_ok_def
  by (auto simp: bind_eq_None_conv value_line_defined node_headline_defined)

lemma input_line_defined: "input_line c = None \<longleftrightarrow> \<not> input_ok c"
  by (auto simp: input_line_def input_ok_def bind_eq_None_conv text_cid_defined text_template_defined)

lemma collect_texts_defined: "collect_texts ts = None \<longleftrightarrow> None \<in> set ts"
  by (induction ts) (auto simp: bind_eq_None_conv)

lemma collect_map_defined:
  assumes "\<And>x. f x = None \<longleftrightarrow> \<not> p x"
  shows "collect_texts (map f xs) = None \<longleftrightarrow> \<not> list_all p xs"
  using assms by (force simp: collect_texts_defined list_all_iff)

lemma effects_text_defined:
  "effects_text J fx = None \<longleftrightarrow> \<not> (list_all (node_ok J) (fx_nodes fx) \<and> list_all input_ok (fx_input_contracts fx))"
  by (auto simp: effects_text_def bind_eq_None_conv collect_map_defined [OF node_lines_defined]
      collect_map_defined [OF input_line_defined])

lemma state_line_defined: "state_line st = None \<longleftrightarrow> \<not> cid_ok (state_cid st)"
  by (cases st) (simp_all add: state_line_def state_cid_def text_cid_defined)

lemma diagnosis_text_defined:
  "diagnosis_text d states = None \<longleftrightarrow> \<not> list_all (\<lambda>st. cid_ok (state_cid st)) states"
proof -
  have "collect_texts (map (\<lambda>st. map_option f (state_line st)) states) = None \<longleftrightarrow>
      \<not> list_all (\<lambda>st. cid_ok (state_cid st)) states" for f
    by (rule collect_map_defined) (simp add: state_line_defined)
  then show ?thesis unfolding diagnosis_text_def option.map_disc_iff by blast
qed

lemma report_text_defined: "report_to_text E r = None \<longleftrightarrow> \<not> printable (te_json E) r"
proof -
  have fx: "(case rp_effects r of Some fx \<Rightarrow> effects_text (te_json E) fx | None \<Rightarrow> Some []) = None \<longleftrightarrow>
      \<not> pred_option (\<lambda>fx. list_all (node_ok (te_json E)) (fx_nodes fx) \<and> list_all input_ok (fx_input_contracts fx)) (rp_effects r)"
    by (cases "rp_effects r") (simp_all add: effects_text_defined)
  have d: "(case rp_diagnosis r of Some d \<Rightarrow> diagnosis_text d (rp_contract_states r) | None \<Rightarrow> Some []) = None \<longleftrightarrow>
      \<not> (rp_diagnosis r \<noteq> None \<longrightarrow> list_all (\<lambda>st. cid_ok (state_cid st)) (rp_contract_states r))"
    by (cases "rp_diagnosis r") (simp_all add: diagnosis_text_defined)
  have "report_to_text E r = None \<longleftrightarrow>
      (case rp_effects r of Some fx \<Rightarrow> effects_text (te_json E) fx | None \<Rightarrow> Some []) = None \<or>
      (case rp_diagnosis r of Some d \<Rightarrow> diagnosis_text d (rp_contract_states r) | None \<Rightarrow> Some []) = None"
    by (auto simp: report_to_text_def bind_eq_None_conv)
  then show ?thesis unfolding fx d printable_def by blast
qed

text \<open>A text of ASCII characters is cut anywhere.\<close>

lemma ascii_boundary: "\<forall>c \<in> set s. code c < 0x80 \<Longrightarrow> n \<le> length s \<Longrightarrow> char_boundary s n"
  using nth_mem [of n s] by (fastforce simp: char_boundary_def utf8_tail_def)

end
