(* ===== verification/Simulation_Front.thy ===== *)
theory Simulation_Front
  imports Simulation_Text
begin

text \<open>
  The front ends of the simulator: the Scan client (\<open>sim-core/src/scan.rs\<close>), the server
  (\<open>sim-server/src/lib.rs\<close>, \<open>main.rs\<close>) and the command line (\<open>sim-cli/src/main.rs\<close>). An answer of
  the server and a run of the command line are values that hold what is sent or printed. A report is
  rendered where the code renders it, because a rendering can panic; what serde derives, the parser
  \<open>clap\<close> and the router \<open>axum\<close> are left out. Requests made are the state, as in \<open>Ledger_Client\<close>, and a
  run that panics is \<open>None\<close>.
\<close>

subsection \<open>The Scan client\<close>

datatype scan_error =
    ScanTransport string string
  | ScanStatus string "16 word" string
  | ScanDecode string
  | ScanFee fee_error

definition scan_get :: "world \<Rightarrow> string \<Rightarrow> http_request list \<Rightarrow> (scan_error + json) \<times> http_request list" where
  "scan_get W url log =
     (let rq = \<lparr>rq_post = False, rq_url = url, rq_body = [], rq_bearer = None\<rparr> in
      (case w_network W log rq of
         NoAnswer src \<Rightarrow> Err (ScanTransport url src)
       | Answer status t \<Rightarrow>
           if \<not> is_success status then Err (ScanStatus url status (concat (take 300 (utf8_chars t))))
           else ok_or (from_text (w_json W) t) (ScanDecode url),
       rq # log))"

definition fetch_fee_schedule :: "world \<Rightarrow> 'd decimals \<Rightarrow> string \<Rightarrow> http_request list \<Rightarrow>
    (scan_error + 'd fee_schedule) \<times> http_request list" where
  "fetch_fee_schedule W D url log =
     (let base = trim_end_slash (trim url) in
      case scan_get W (base @ ''/api/scan/v0/amulet-rules'') log of
        (Inl e, log) \<Rightarrow> (Err e, log)
      | (Inr rules, log) \<Rightarrow>
          (case scan_get W (base @ ''/api/scan/v0/open-and-issuing-mining-rounds'') log of
             (Inl e, log) \<Rightarrow> (Err e, log)
           | (Inr rounds, log) \<Rightarrow> (map_err ScanFee (from_scan_json D rules rounds (''scan:'' @ base)), log)))"

subsection \<open>The server\<close>

record ServerConfig =
  cf_listen :: string
  cf_ledger :: string
  cf_token :: "string option"
  cf_token_file :: "string option"
  cf_user_id :: "string option"
  cf_scan :: "string option"
  cf_forward_auth :: bool
  cf_cors_origins :: "string list"

record 'd ServerState =
  st_cfg :: ServerConfig
  st_schedule :: "'d fee_schedule"

text \<open>The two headers that are read, where their values are text.\<close>

record headers =
  hd_authorization :: "string option"
  hd_accept :: "string option"

datatype cors = NoCors | AnyOrigin | OnlyOrigins "string list"

text \<open>Whether a text is a header value is decided by the HTTP library.\<close>

definition cors_layer :: "(string \<Rightarrow> bool) \<Rightarrow> string list \<Rightarrow> cors" where
  "cors_layer header_value origins =
     (let os = filter (\<lambda>s. s \<noteq> []) (map trim origins) in
      if os = [] then NoCors
      else if ''*'' \<in> set os then AnyOrigin
      else OnlyOrigins (filter header_value os))"

definition token_source :: "string option \<Rightarrow> string option \<Rightarrow> TokenSource" where
  "token_source tok tok_file = (case tok of
     Some t \<Rightarrow> StaticToken t
   | None \<Rightarrow> (case tok_file of Some f \<Rightarrow> TokenFile f | None \<Rightarrow> NoToken))"

definition token_for :: "'d ServerState \<Rightarrow> headers \<Rightarrow> TokenSource" where
  "token_for St H =
     (case (if cf_forward_auth (st_cfg St) then Option.bind (hd_authorization H) (strip_prefix ''Bearer '') else None) of
        Some t \<Rightarrow> StaticToken t
      | None \<Rightarrow> token_source (cf_token (st_cfg St)) (cf_token_file (st_cfg St)))"

definition wants_text :: "headers \<Rightarrow> bool" where
  "wants_text H = (case hd_accept H of Some a \<Rightarrow> starts_with ''text/plain'' a | None \<Rightarrow> False)"

datatype 'd server_call =
    CallHealth
  | CallSimulate headers SimulationRequest
  | CallExplain string
  | CallCatalog
  | CallCatalogOne string
  | CallFee u64 u64 "'d list"
  | CallFeeSchedule

text \<open>A handler that panics ends its connection: nothing is answered.\<close>

datatype 'd server_answer =
    Healthy
  | EmptyRequest
  | ClientNotBuilt LedgerApiError
  | ReportText string
  | ReportJson "'d SimulationReport"
  | Explained Diagnosis
  | Catalog "CatalogEntry list"
  | CatalogOne CatalogEntry
  | UnknownCode
  | Quoted "'d standalone_fee_quote"
  | NothingToQuote
  | Schedule "'d fee_schedule"
  | NoReply

definition answer_status :: "'d server_answer \<Rightarrow> nat option" where
  "answer_status a = (case a of
     EmptyRequest \<Rightarrow> Some 400 | NothingToQuote \<Rightarrow> Some 400 | UnknownCode \<Rightarrow> Some 404
   | ClientNotBuilt _ \<Rightarrow> Some 500 | NoReply \<Rightarrow> None | _ \<Rightarrow> Some 200)"

definition report_answer :: "'d text_env \<Rightarrow> headers \<Rightarrow> 'd SimulationReport \<Rightarrow> 'd server_answer" where
  "report_answer E H rp =
     (if wants_text H then (case report_to_text E rp of Some t \<Rightarrow> ReportText t | None \<Rightarrow> NoReply)
      else ReportJson rp)"

definition serve_simulate :: "world \<Rightarrow> ledger_wire \<Rightarrow> 'd decimals \<Rightarrow> 'd text_env \<Rightarrow> 'd ServerState \<Rightarrow> string \<Rightarrow> headers \<Rightarrow>
    SimulationRequest \<Rightarrow> http_request list \<Rightarrow> ('d server_answer \<times> http_request list) option" where
  "serve_simulate W L D E St fresh_id H req log =
     (if rs_act_as req = [] \<or> rs_commands req = [] then Some (EmptyRequest, log)
      else (case new_client (cf_ledger (st_cfg St)) (token_for St H) of
        Inl e \<Rightarrow> Some (ClientNotBuilt e, log)
      | Inr c \<Rightarrow>
          map_option (\<lambda>(rp, log). (report_answer E H rp, log))
            (simulate W L D (with_default_user_id (new_simulator c (st_schedule St)) (cf_user_id (st_cfg St)))
               fresh_id req log)))"

definition serve :: "world \<Rightarrow> ledger_wire \<Rightarrow> 'd decimals \<Rightarrow> 'd text_env \<Rightarrow> 'd ServerState \<Rightarrow> string \<Rightarrow> 'd server_call \<Rightarrow>
    http_request list \<Rightarrow> ('d server_answer \<times> http_request list) option" where
  "serve W L D E St fresh_id call log = (case call of
     CallHealth \<Rightarrow> Some (Healthy, log)
   | CallSimulate H req \<Rightarrow> serve_simulate W L D E St fresh_id H req log
   | CallExplain e \<Rightarrow>
       map_option (\<lambda>d. (Explained d, log))
         (diagnose (w_patterns W) (w_catalog W) (error_from_text (w_json W) (w_patterns W) (w_catalog W) (trim e)))
   | CallCatalog \<Rightarrow> Some (Catalog (map snd (entries (w_catalog W))), log)
   | CallCatalogOne c \<Rightarrow>
       Some (case lookup_code (w_catalog W) c of Some e \<Rightarrow> CatalogOne e | None \<Rightarrow> UnknownCode, log)
   | CallFee req resp ccs \<Rightarrow>
       map_option (\<lambda>q. (case q of Some quote \<Rightarrow> Quoted quote | None \<Rightarrow> NothingToQuote, log))
         (quote_standalone D (st_schedule St) req resp ccs)
   | CallFeeSchedule \<Rightarrow> Some (Schedule (st_schedule St), log))"

datatype start_error = ScheduleNotLoaded scan_error | BadLedgerUrl LedgerApiError

text \<open>\<open>main\<close> up to the listener; the defaults panic when their literals do not parse.\<close>

definition start_server :: "world \<Rightarrow> 'd decimals \<Rightarrow> ServerConfig \<Rightarrow> http_request list \<Rightarrow>
    ((start_error + 'd ServerState) \<times> http_request list) option" where
  "start_server W D cfg log =
     (let finish = (\<lambda>schedule. and_then (map_err BadLedgerUrl (new_client (cf_ledger cfg) NoToken)) (\<lambda>_.
        Ok \<lparr>st_cfg = cfg, st_schedule = schedule\<rparr>)) in
      case cf_scan cfg of
        Some url \<Rightarrow>
          (case fetch_fee_schedule W D url log of
             (r, log) \<Rightarrow> Some (and_then (map_err ScheduleNotLoaded r) finish, log))
      | None \<Rightarrow> map_option (\<lambda>schedule. (finish schedule, log)) (splice_defaults D))"

subsection \<open>The command line\<close>

text \<open>What the command line reads besides files: the standard input and which paths exist.\<close>

record console =
  cs_stdin :: "string + string"
  cs_exists :: "string \<Rightarrow> bool"

record LedgerArgs =
  la_ledger :: string
  la_token :: "string option"
  la_token_file :: "string option"
  la_user_id :: "string option"

record 'd PricingArgs =
  pa_scan :: "string option"
  pa_traffic_usd_per_mb :: "'d option"
  pa_cc_usd :: "'d option"

record 'd SimulateArgs =
  sa_ledger :: LedgerArgs
  sa_pricing :: "'d PricingArgs"
  sa_act_as :: "string list"
  sa_read_as :: "string list"
  sa_synchronizer_id :: "string option"
  sa_command_id :: "string option"
  sa_commands :: string
  sa_no_lookup :: bool
  sa_no_arguments :: bool
  sa_include_prepared :: bool
  sa_json :: bool
  sa_fail_on_reject :: bool

datatype cli_error =
    NoInput string
  | CommandsNotJson
  | CommandsNotObject
  | RequestNotParsed
  | CommandsUnrecognised
  | CliClient LedgerApiError
  | CliScan scan_error
  | CliLedger LedgerApiError
  | ResponseNotJson
  | NoPreparedTransaction
  | CliDecode decode_error
  | NothingToPrice

definition cli_client :: "LedgerArgs \<Rightarrow> cli_error + JsonLedgerClient" where
  "cli_client A = map_err CliClient (new_client (la_ledger A) (token_source (la_token A) (la_token_file A)))"

definition cli_schedule :: "world \<Rightarrow> 'd decimals \<Rightarrow> 'd PricingArgs \<Rightarrow> http_request list \<Rightarrow>
    ((cli_error + 'd fee_schedule) \<times> http_request list) option" where
  "cli_schedule W D A log =
     (let priced = (\<lambda>s. s\<lparr>fs_traffic := (let t = fs_traffic s;
            t = (case pa_traffic_usd_per_mb A of
                   Some p \<Rightarrow> t\<lparr>tp_extra_traffic_price_usd_per_mb := p, tp_source := ''cli''\<rparr> | None \<Rightarrow> t)
          in (case pa_cc_usd A of Some p \<Rightarrow> t\<lparr>tp_amulet_price_usd := p, tp_source := ''cli''\<rparr> | None \<Rightarrow> t))\<rparr>) in
      case pa_scan A of
        Some url \<Rightarrow>
          (case fetch_fee_schedule W D url log of
             (r, log) \<Rightarrow> Some (and_then (map_err CliScan r) (\<lambda>s. Ok (priced s)), log))
      | None \<Rightarrow> map_option (\<lambda>s. (Ok (priced s), log)) (splice_defaults D))"

definition cli_input :: "world \<Rightarrow> console \<Rightarrow> string \<Rightarrow> cli_error + string" where
  "cli_input W K spec =
     (if spec = ''-'' then map_err NoInput (cs_stdin K)
      else if cs_exists K spec then map_err NoInput (w_read_file W spec)
      else Ok spec)"

text \<open>A command, an array of commands or a whole request, which serde reads.\<close>

definition parse_commands_input :: "world \<Rightarrow> (json \<Rightarrow> SimulationRequest option) \<Rightarrow> string \<Rightarrow>
    cli_error + json list \<times> SimulationRequest option" where
  "parse_commands_input W de_request t =
     and_then (ok_or (from_text (w_json W) t) CommandsNotJson) (\<lambda>v. case v of
       JArray xs \<Rightarrow> Ok (xs, None)
     | JObject kvs \<Rightarrow>
         (if json_get ''commands'' v \<noteq> None \<and> json_get ''act_as'' v \<noteq> None then
            and_then (ok_or (de_request v) RequestNotParsed) (\<lambda>req. Ok (rs_commands req, Some req))
          else if list_ex (\<lambda>(k, _). ends_with ''Command'' k) kvs then Ok ([v], None)
          else Err CommandsUnrecognised)
     | _ \<Rightarrow> Err CommandsNotObject)"

definition new_request :: "string list \<Rightarrow> json list \<Rightarrow> SimulationRequest" where
  "new_request act_as commands =
     \<lparr>rs_user_id = None, rs_command_id = None, rs_act_as = act_as, rs_read_as = [], rs_commands = commands,
      rs_disclosed_contracts = [], rs_synchronizer_id = None, rs_package_id_selection_preference = [],
      rs_min_ledger_time_rel_secs = None, rs_expected_signatures = [], rs_lookup_contracts = True,
      rs_include_arguments = True, rs_include_prepared_transaction = False\<rparr>"

definition cli_request :: "'d SimulateArgs \<Rightarrow> json list \<Rightarrow> SimulationRequest option \<Rightarrow> SimulationRequest" where
  "cli_request A commands embedded =
     (let req = (case embedded of Some r \<Rightarrow> r | None \<Rightarrow> new_request (sa_act_as A) commands) in
      req\<lparr>rs_act_as := (if sa_act_as A \<noteq> [] then sa_act_as A else rs_act_as req),
          rs_read_as := (if sa_read_as A \<noteq> [] then sa_read_as A else rs_read_as req),
          rs_synchronizer_id := or_else (sa_synchronizer_id A) (rs_synchronizer_id req),
          rs_command_id := or_else (sa_command_id A) (rs_command_id req),
          rs_user_id := or_else (la_user_id (sa_ledger A)) (rs_user_id req),
          rs_lookup_contracts := \<not> sa_no_lookup A,
          rs_include_arguments := \<not> sa_no_arguments A,
          rs_include_prepared_transaction := sa_include_prepared A\<rparr>)"

text \<open>The simulator of a run, once its inputs are read.\<close>

definition cli_setup :: "world \<Rightarrow> 'd decimals \<Rightarrow> console \<Rightarrow> (json \<Rightarrow> SimulationRequest option) \<Rightarrow> 'd SimulateArgs \<Rightarrow>
    http_request list \<Rightarrow> ((cli_error + 'd Simulator \<times> SimulationRequest) \<times> http_request list) option" where
  "cli_setup W D K de_request A log =
     (case and_then (cli_input W K (sa_commands A)) (\<lambda>t.
           and_then (parse_commands_input W de_request t) (\<lambda>(commands, embedded).
           and_then (cli_client (sa_ledger A)) (\<lambda>c. Ok (c, cli_request A commands embedded)))) of
        Inl e \<Rightarrow> Some (Err e, log)
      | Inr (c, req) \<Rightarrow>
          map_option (\<lambda>(r, log). (and_then r (\<lambda>schedule.
            Ok (with_default_user_id (new_simulator c schedule) (la_user_id (sa_ledger A)), req)), log))
          (cli_schedule W D (sa_pricing A) log))"

text \<open>
  The report is printed before the exit code is chosen, as JSON or as text; an error is printed and
  exits 1. A run that panics, in the simulation or in the rendering, ends the process with 101.
\<close>

datatype 'd cli_print =
    PrintedJson "'d SimulationReport"
  | PrintedText string

definition print_report :: "'d text_env \<Rightarrow> 'd SimulateArgs \<Rightarrow> 'd SimulationReport \<Rightarrow> 'd cli_print option" where
  "print_report E A rp =
     (if sa_json A then Some (PrintedJson rp) else map_option PrintedText (report_to_text E rp))"

definition cli_simulate :: "world \<Rightarrow> ledger_wire \<Rightarrow> 'd decimals \<Rightarrow> 'd text_env \<Rightarrow> console \<Rightarrow>
    (json \<Rightarrow> SimulationRequest option) \<Rightarrow> string \<Rightarrow> 'd SimulateArgs \<Rightarrow> http_request list \<Rightarrow>
    (nat \<times> (cli_error + 'd cli_print) \<times> http_request list) option" where
  "cli_simulate W L D E K de_request fresh_id A log =
     Option.bind (cli_setup W D K de_request A log) (\<lambda>(r, log).
       case r of
         Inl e \<Rightarrow> Some (1, Err e, log)
       | Inr (S, req) \<Rightarrow>
           Option.bind (simulate W L D S fresh_id req log) (\<lambda>(rp, log).
           Option.bind (print_report E A rp) (\<lambda>out.
             Some (if sa_fail_on_reject A \<and> rp_outcome rp \<noteq> WouldSucceed then 2 else 0, Ok out, log))))"

definition exit_status :: "(nat \<times> 'o \<times> 'l) option \<Rightarrow> nat" where
  "exit_status run = (case run of Some (n, _, _) \<Rightarrow> n | None \<Rightarrow> 101)"

definition cli_contract :: "world \<Rightarrow> LedgerArgs \<Rightarrow> string \<Rightarrow> string list \<Rightarrow> http_request list \<Rightarrow>
    ((cli_error + ContractEvents) \<times> http_request list) option" where
  "cli_contract W A cid parties log =
     (case cli_client A of
        Inl e \<Rightarrow> Some (Err e, log)
      | Inr c \<Rightarrow> map_option (\<lambda>(r, log). (map_err CliLedger r, log)) (contract_events W c cid parties log))"

definition cli_explain :: "world \<Rightarrow> console \<Rightarrow> string \<Rightarrow> (cli_error + Diagnosis) option" where
  "cli_explain W K spec =
     (case cli_input W K spec of
        Inl e \<Rightarrow> Some (Err e)
      | Inr t \<Rightarrow> map_option Ok
          (diagnose (w_patterns W) (w_catalog W) (error_from_text (w_json W) (w_patterns W) (w_catalog W) (trim t))))"

text \<open>The base64 text, the hash and the scheme of the input, and its effects; the outer option is a walk
  that does not return.\<close>

definition effects_input :: "world \<Rightarrow> string \<Rightarrow> cli_error + string \<times> string \<times> string" where
  "effects_input W t =
     (if starts_with ''{'' t then
        and_then (ok_or (from_text (w_json W) t) ResponseNotJson) (\<lambda>v.
        and_then (ok_or (Option.bind (json_get ''preparedTransaction'' v) as_str) NoPreparedTransaction) (\<lambda>b.
        Ok (b, text_or_empty (Option.bind (json_get ''preparedTransactionHash'' v) as_str),
            (case Option.bind (json_get ''hashingSchemeVersion'' v) as_str of
               Some s \<Rightarrow> s | None \<Rightarrow> ''HASHING_SCHEME_VERSION_UNSPECIFIED''))))
      else Ok (t, [], ''HASHING_SCHEME_VERSION_UNSPECIFIED''))"

definition cli_effects :: "world \<Rightarrow> ledger_wire \<Rightarrow> console \<Rightarrow> string \<Rightarrow> (cli_error + effects) option" where
  "cli_effects W L K spec =
     (case and_then (cli_input W K spec) (\<lambda>t.
           and_then (effects_input W (trim t)) (\<lambda>(b, hash, scheme).
           and_then (map_err CliDecode (decode_prepared L b)) (\<lambda>(tx, n). Ok (tx, n, hash, scheme)))) of
        Inl e \<Rightarrow> Some (Err e)
      | Inr (tx, n, hash, scheme) \<Rightarrow> map_option (map_err CliDecode) (effects_of L tx n hash scheme True))"

definition cli_fee :: "world \<Rightarrow> 'd decimals \<Rightarrow> 'd PricingArgs \<Rightarrow> u64 \<Rightarrow> u64 \<Rightarrow> 'd list \<Rightarrow> http_request list \<Rightarrow>
    ((cli_error + 'd standalone_fee_quote) \<times> http_request list) option" where
  "cli_fee W D A request_bytes response_bytes transfer_cc log =
     Option.bind (cli_schedule W D A log) (\<lambda>(r, log).
       case r of
         Inl e \<Rightarrow> Some (Err e, log)
       | Inr schedule \<Rightarrow>
           map_option (\<lambda>q. (ok_or q NothingToPrice, log))
             (quote_standalone D schedule request_bytes response_bytes transfer_cc))"

definition cli_catalog :: "world \<Rightarrow> string option \<Rightarrow> (string \<times> CatalogEntry) list" where
  "cli_catalog W f =
     filter (\<lambda>(c, _). case f of Some t \<Rightarrow> contains_text c (map to_ascii_uppercase t) | None \<Rightarrow> True)
       (entries (w_catalog W))"

end
