(* ===== verification/Simulate_Correct.thy ===== *)
theory Simulate_Correct
  imports Simulate Effects_Correct
begin

text \<open>
  Lemmas on the simulator: the requests a run makes, when it decides which outcome, which
  rejections cannot be diagnosed, and where in a text the JSON of an error is found.
\<close>

subsection \<open>Requests\<close>

lemma lookup_contract_asks:
  assumes "lookup_contract W c cid parties log = Some (st, log')"
  shows "asks W c EVENTS_PATH log log'"
  using assms by (auto simp: lookup_contract_def dest: contract_events_asks)

lemma look_up_all_asks:
  assumes "look_up_all W c parties cids (d, states) log = Some (r, log')"
  shows "\<exists>new. log' = new @ log \<and> length new \<le> length cids \<and>
    (\<forall>rq \<in> set new. sent_by W c EVENTS_PATH rq)"
  using assms
proof (induction cids arbitrary: d states log)
  case (Cons cid cids)
  from Cons.prems obtain st log1 h where one: "lookup_contract W c cid parties log = Some (st, log1)"
    and rest: "look_up_all W c parties cids (d\<lparr>dg_hints := h # dg_hints d\<rparr>, states @ [st]) log1 = Some (r, log')"
    by (auto simp: bind_eq_Some_conv)
  from Cons.IH [OF rest] obtain new where new: "log' = new @ log1" "length new \<le> length cids"
    "\<forall>rq \<in> set new. sent_by W c EVENTS_PATH rq" by blast
  from lookup_contract_asks [OF one] consider "log1 = log"
    | rq where "log1 = rq # log" "sent_by W c EVENTS_PATH rq"
    by (auto simp: asks_def)
  then show ?case
  proof cases
    case 1
    with new show ?thesis by (intro exI [of _ new]) simp
  next
    case 2
    with new show ?thesis by (intro exI [of _ "new @ [rq]"]) auto
  qed
qed auto

lemma look_up_all_states:
  assumes "look_up_all W c parties cids (d, states) log = Some ((d', states'), log')"
  shows "length states' = length states + length cids \<and>
    (\<exists>hs. dg_hints d' = hs @ dg_hints d \<and> length hs = length cids \<and> d' = d\<lparr>dg_hints := hs @ dg_hints d\<rparr>)"
  using assms
proof (induction cids arbitrary: d states log)
  case (Cons cid cids)
  from Cons.prems obtain st log1 h where
    rest: "look_up_all W c parties cids (d\<lparr>dg_hints := h # dg_hints d\<rparr>, states @ [st]) log1 = Some ((d', states'), log')"
    by (auto simp: bind_eq_Some_conv)
  from Cons.IH [OF rest] obtain hs where "length states' = length states + length (cid # cids)"
    "d' = d\<lparr>dg_hints := hs @ h # dg_hints d\<rparr>" "length hs = length cids" by auto
  then show ?case by (intro conjI exI [of _ "hs @ [h]"]) auto
qed auto

lemma ids_to_look_up_bound: "length (ids_to_look_up S req d) \<le> sm_max_contract_lookups S"
  by (simp add: ids_to_look_up_def)

subsection \<open>Outcomes\<close>

text \<open>The command id of a run, the request it opens with and what the network answers.\<close>

definition command_id_of :: "SimulationRequest \<Rightarrow> string \<Rightarrow> string" where
  "command_id_of req fresh_id = (case non_blank (rs_command_id req) of Some c \<Rightarrow> c | None \<Rightarrow> fresh_id)"

definition prepare_request :: "world \<Rightarrow> 'd Simulator \<Rightarrow> string \<Rightarrow> SimulationRequest \<Rightarrow> string option \<Rightarrow> http_request" where
  "prepare_request W S fresh_id req tok =
     \<lparr>rq_post = True, rq_url = lc_base_url (sm_client S) @ PREPARE_PATH,
      rq_body = to_text (w_json W) (build_prepare_body S req (command_id_of req fresh_id)), rq_bearer = tok\<rparr>"

definition answered :: "world \<Rightarrow> 'd Simulator \<Rightarrow> string \<Rightarrow> SimulationRequest \<Rightarrow> http_request list \<Rightarrow> 16 word \<Rightarrow> string \<Rightarrow> bool" where
  "answered W S fresh_id req log status t \<longleftrightarrow>
     (\<exists>tok. read_token W (lc_token (sm_client S)) = Ok tok \<and>
        w_network W log (prepare_request W S fresh_id req tok) = Answer status t)"

text \<open>The text of a success that is a prepare response.\<close>

definition prepared_by :: "world \<Rightarrow> 'd Simulator \<Rightarrow> string \<Rightarrow> PrepareResponse \<Rightarrow> bool" where
  "prepared_by W S t resp \<longleftrightarrow> trim t \<noteq> [] \<and>
     (\<exists>raw. from_text (w_json W) t = Some raw \<and> parse_prepare_response W (lc_base_url (sm_client S)) raw = Ok resp)"

definition rejection :: "world \<Rightarrow> 16 word \<Rightarrow> string \<Rightarrow> LedgerError" where
  "rejection W status t = parse_error (w_json W) (w_patterns W) (w_catalog W) (Some status) t"

lemma answered_inject:
  "answered W S fid req log status t \<Longrightarrow> answered W S fid req log status' t' \<Longrightarrow> status' = status \<and> t' = t"
  by (auto simp: answered_def)

text \<open>The prepare call by the answer of the network.\<close>

lemma prepare_call_unfold:
  "prepare_call W (sm_client S) (build_prepare_body S req (command_id_of req fid)) log =
     (case read_token W (lc_token (sm_client S)) of
        Inl e \<Rightarrow> Some (Err e, log)
      | Inr tok \<Rightarrow>
          (case w_network W log (prepare_request W S fid req tok) of
             NoAnswer src \<Rightarrow>
               Some (Err (TransportFailure (lc_base_url (sm_client S) @ PREPARE_PATH) src),
                 prepare_request W S fid req tok # log)
           | Answer status t \<Rightarrow>
               if \<not> is_success status
               then Some (Err (Rejected (rejection W status t)), prepare_request W S fid req tok # log)
               else if trim t = []
               then Some (parse_prepare_response W (lc_base_url (sm_client S)) JNull, prepare_request W S fid req tok # log)
               else map_option (\<lambda>r. (and_then r (parse_prepare_response W (lc_base_url (sm_client S))),
                      prepare_request W S fid req tok # log))
                    (decode_body W (lc_base_url (sm_client S) @ PREPARE_PATH) t)))"
  by (simp add: prepare_call_def post_json_def exchange_def prepare_request_def rejection_def Let_def option.map_comp
      comp_def split: sum.splits http_reply.splits)

lemma read_token_error: "read_token W src = Err e \<Longrightarrow> e \<noteq> Rejected err"
  by (auto simp: read_token_def and_then_eq_Err map_err_def split: TokenSource.splits sum.splits)

lemma parse_prepare_response_error: "parse_prepare_response W u raw = Err e \<Longrightarrow> e \<noteq> Rejected err"
  by (auto simp: parse_prepare_response_def response_field_def ok_or_def and_then_eq_Err split: option.splits)

lemma parse_prepare_response_null: "\<exists>e. parse_prepare_response W u JNull = Err e"
  by (simp add: parse_prepare_response_def response_field_def json_get_def)

text \<open>An answer that succeeds and is no prepare response.\<close>

lemma prepare_call_success:
  assumes "prepare_call W (sm_client S) (build_prepare_body S req (command_id_of req fid)) log = Some (r, log')"
    and "answered W S fid req log status t" "is_success status"
  obtains resp where "prepared_by W S t resp" "r = Ok resp"
  | e where "\<forall>err. e \<noteq> Rejected err" "r = Err e" "\<nexists>resp. prepared_by W S t resp"
proof -
  let ?parse = "parse_prepare_response W (lc_base_url (sm_client S))"
  from assms have run: "(if trim t = [] then r = ?parse JNull
     else (\<exists>q. decode_body W (lc_base_url (sm_client S) @ PREPARE_PATH) t = Some q \<and> r = and_then q ?parse))"
    by (auto simp: answered_def prepare_call_unfold)
  show thesis
  proof (cases "trim t = [] \<or> from_text (w_json W) t = None")
    case True
    then have none: "\<nexists>resp. prepared_by W S t resp" by (auto simp: prepared_by_def)
    have "\<exists>e. r = Err e \<and> (\<forall>err. e \<noteq> Rejected err)"
      using run True parse_prepare_response_null [of W "lc_base_url (sm_client S)"]
      by (auto simp: decode_body_def dest: parse_prepare_response_error split: if_splits)
    with none that(2) show thesis by blast
  next
    case False
    then obtain raw where raw: "from_text (w_json W) t = Some raw" "trim t \<noteq> []" by auto
    with run have r: "r = ?parse raw" by (auto simp: decode_body_def)
    show thesis
    proof (cases "?parse raw")
      case (Inl e)
      with r raw parse_prepare_response_error [OF Inl] show thesis
        by (intro that(2) [of e]) (auto simp: prepared_by_def)
    next
      case (Inr resp)
      with r raw show thesis by (intro that(1) [of resp]) (auto simp: prepared_by_def)
    qed
  qed
qed

lemma prepare_call_cases:
  assumes "prepare_call W (sm_client S) (build_prepare_body S req (command_id_of req fid)) log = Some (r, log')"
  obtains (ok) status t resp where "answered W S fid req log status t" "is_success status" "prepared_by W S t resp"
      "r = Ok resp"
  | (rejected) status t where "answered W S fid req log status t" "\<not> is_success status"
      "r = Err (Rejected (rejection W status t))"
  | (other) e where "\<forall>err. e \<noteq> Rejected err" "r = Err e"
      "\<forall>status t. answered W S fid req log status t \<longrightarrow> is_success status \<and> (\<nexists>resp. prepared_by W S t resp)"
proof (cases "\<exists>status t. answered W S fid req log status t")
  case True
  then obtain status t where ans: "answered W S fid req log status t" by blast
  show thesis
  proof (cases "is_success status")
    case True
    from assms ans True show thesis
    proof (cases rule: prepare_call_success)
      case (1 resp)
      with ans True show thesis by (intro ok)
    next
      case (2 e)
      with answered_inject [OF ans] True show thesis by (intro other [of e]) auto
    qed
  next
    case False
    with ans assms show thesis by (intro rejected [of status t]) (auto simp: answered_def prepare_call_unfold)
  qed
next
  case False
  then have "\<exists>e. r = Err e \<and> (\<forall>err. e \<noteq> Rejected err)"
    using assms by (auto simp: answered_def prepare_call_unfold dest: read_token_error split: sum.splits http_reply.splits)
  with False show thesis by (auto intro: other)
qed

text \<open>A run by its outcome.\<close>

lemma simulate_cases:
  assumes "simulate W L D S fid req log = Some (rp, log')"
  obtains (succeeds) log1 status t resp where
      "prepare_call W (sm_client S) (build_prepare_body S req (command_id_of req fid)) log = Some (Ok resp, log1)"
      "answered W S fid req log status t" "is_success status" "prepared_by W S t resp"
      "on_prepared L D S req resp (empty_report S req (command_id_of req fid)) = Some rp" "log' = log1"
  | (fails) log1 status t where
      "prepare_call W (sm_client S) (build_prepare_body S req (command_id_of req fid)) log =
         Some (Err (Rejected (rejection W status t)), log1)"
      "answered W S fid req log status t" "\<not> is_success status"
      "on_rejected W D S req (rejection W status t) (empty_report S req (command_id_of req fid)) log1 = Some (rp, log')"
  | (unknown) log1 e where
      "prepare_call W (sm_client S) (build_prepare_body S req (command_id_of req fid)) log = Some (Err e, log1)"
      "\<forall>status t. answered W S fid req log status t \<longrightarrow> is_success status \<and> (\<nexists>resp. prepared_by W S t resp)"
      "rp = (empty_report S req (command_id_of req fid))\<lparr>rp_caveats := [CouldNotRun e]\<rparr>" "log' = log1"
proof -
  let ?rp = "empty_report S req (command_id_of req fid)"
  have run: "simulate W L D S fid req log =
     Option.bind (prepare_call W (sm_client S) (build_prepare_body S req (command_id_of req fid)) log) (\<lambda>(r, log).
        case r of
          Inr resp \<Rightarrow> map_option (\<lambda>rp. (rp, log)) (on_prepared L D S req resp ?rp)
        | Inl (Rejected err) \<Rightarrow> on_rejected W D S req err ?rp log
        | Inl e \<Rightarrow> Some (?rp\<lparr>rp_outcome := Inconclusive, rp_caveats := rp_caveats ?rp @ [CouldNotRun e]\<rparr>, log))"
    unfolding simulate_def command_id_of_def Let_def by (rule refl)
  with assms obtain r log1 where
    call: "prepare_call W (sm_client S) (build_prepare_body S req (command_id_of req fid)) log = Some (r, log1)"
    by (cases "prepare_call W (sm_client S) (build_prepare_body S req (command_id_of req fid)) log") auto
  note rest = assms [unfolded run call, simplified]
  from call show thesis
  proof (cases rule: prepare_call_cases)
    case (ok status t resp)
    with call rest show thesis by (intro succeeds) auto
  next
    case (rejected status t)
    with call rest show thesis by (intro fails) auto
  next
    case (other e)
    with rest have "rp = (empty_report S req (command_id_of req fid))\<lparr>rp_caveats := [CouldNotRun e]\<rparr>" "log' = log1"
      by (auto simp: empty_report_def split: LedgerApiError.splits)
    with other call show thesis by (intro unknown) auto
  qed
qed

lemma on_prepared_outcome: "on_prepared L D S req resp rp0 = Some rp \<Longrightarrow> rp_outcome rp = WouldSucceed"
  by (auto simp: on_prepared_def bind_eq_Some_conv)

lemma on_rejected_outcome: "on_rejected W D S req err rp0 log = Some (rp, log') \<Longrightarrow> rp_outcome rp = WouldFail"
  by (auto simp: on_rejected_def bind_eq_Some_conv)

lemma on_rejected_asks:
  assumes "on_rejected W D S req err rp0 log = Some (rp, log')"
  shows "\<exists>new. log' = new @ log \<and> length new \<le> sm_max_contract_lookups S \<and>
    (\<forall>rq \<in> set new. sent_by W (sm_client S) EVENTS_PATH rq)"
proof -
  from assms obtain d r where
    "look_up_all W (sm_client S) (rs_act_as req @ rs_read_as req) (ids_to_look_up S req d) (d, rp_contract_states rp0) log =
       Some (r, log')"
    by (auto simp: on_rejected_def bind_eq_Some_conv)
  from look_up_all_asks [OF this] obtain new where "log' = new @ log" "length new \<le> length (ids_to_look_up S req d)"
    "\<forall>rq \<in> set new. sent_by W (sm_client S) EVENTS_PATH rq" by blast
  with ids_to_look_up_bound [of S req d] show ?thesis by (intro exI [of _ new]) simp
qed


subsection \<open>Rejections that cannot be diagnosed\<close>

text \<open>A character of more than one byte stands across byte 240 of the cause, and no sentence ends
  before it.\<close>

definition splits_character :: "string \<Rightarrow> bool" where
  "splits_character s \<longleftrightarrow> 240 < length s \<and> utf8_tail (s ! 240) \<and>
     (\<forall>i. find_text ''. '' s = Some i \<longrightarrow> 240 \<le> i)"

lemma first_sentence_None: "first_sentence c = None \<longleftrightarrow> splits_character (trim c)"
proof -
  let ?s = "trim c"
  have None_iff: "first_sentence c = None \<longleftrightarrow> \<not> char_boundary ?s (sentence_cut ?s)"
    by (simp add: first_sentence_def slice_to_def Let_def)
  show ?thesis
  proof (cases "find_text ''. '' ?s")
    case None
    then show ?thesis
      by (auto simp: None_iff char_boundary_def splits_character_def sentence_cut_def min_def)
  next
    case (Some i)
    then obtain u v where s: "?s = u @ ''. '' @ v" "length u = i" using find_text_Some by blast
    then have "?s ! (i + 1) = CHR '' ''" "i + 1 < length ?s" by (simp_all add: nth_append)
    then have "char_boundary ?s (i + 1)" by (simp add: char_boundary_def utf8_tail_def)
    moreover have "\<not> char_boundary ?s 240 \<longleftrightarrow> utf8_tail (?s ! 240)" if "240 \<le> i"
      using that s by (auto simp: char_boundary_def)
    moreover have "240 < length ?s" if "240 \<le> i" using that s by simp
    ultimately show ?thesis
      using Some by (cases "240 \<le> i") (auto simp: None_iff splits_character_def sentence_cut_def min_def)
  qed
qed

text \<open>The codes whose texts quote the cause: three lists of the source and every code without an
  arm of its own.\<close>

definition own_codes :: "string list" where
  "own_codes =
     [''UNHANDLED_EXCEPTION'', ''DAML_FAILURE'', ''TEMPLATE_PRECONDITION_VIOLATED'', ''DAML_AUTHORIZATION_ERROR'',
      ''CONTRACT_NOT_FOUND'', ''NO_SYNCHRONIZER_FOR_SUBMISSION'', ''PACKAGE_NOT_VETTED_BY_RECIPIENTS''] @
     map fst fixed_texts"

definition quotes_cause :: "string \<Rightarrow> bool" where
  "quotes_cause c \<longleftrightarrow> c \<notin> set own_codes"

lemma fixed_texts_lookup: "map_of fixed_texts c = None \<longleftrightarrow> c \<notin> fst ` set fixed_texts"
  by (rule map_of_eq_None_iff)

lemma quoting_codes:
  "c \<in> {''DAML_INTERPRETER_INVALID_ARGUMENT'', ''COMMAND_PREPROCESSING_FAILED'', ''INVALID_ARGUMENT'',
     ''INVALID_FIELD'', ''MISSING_FIELD''} \<Longrightarrow> quotes_cause c"
  by (auto simp: quotes_cause_def own_codes_def fixed_texts_def)

lemma specialise_None:
  "specialise cat e phase x = None \<longleftrightarrow>
     (quotes_cause (le_code e) \<and> first_sentence (le_cause e) = None) \<or>
     (le_code e = ''CONTRACT_NOT_FOUND'' \<and>
        short_cid (case x_contract_ids x of cid # _ \<Rightarrow> cid | [] \<Rightarrow> []) = None)"
proof -
  have default: "default_texts cat c phase cause = None \<longleftrightarrow> first_sentence cause = None" for c cause
    by (simp add: default_texts_def)
  have args: "argument_texts cause lc = None \<longleftrightarrow> first_sentence cause = None"
    "malformed_texts cause lc = None \<longleftrightarrow> first_sentence cause = None" for cause lc
    by (simp_all add: argument_texts_def malformed_texts_def Let_def)
  consider "le_code e \<in> {''DAML_INTERPRETER_INVALID_ARGUMENT'', ''COMMAND_PREPROCESSING_FAILED'', ''INVALID_ARGUMENT'',
     ''INVALID_FIELD'', ''MISSING_FIELD''}"
    | "le_code e \<in> set own_codes"
    | "le_code e \<notin> {''DAML_INTERPRETER_INVALID_ARGUMENT'', ''COMMAND_PREPROCESSING_FAILED'', ''INVALID_ARGUMENT'',
     ''INVALID_FIELD'', ''MISSING_FIELD''}" "le_code e \<notin> set own_codes"
    by blast
  then show ?thesis
  proof cases
    case 1
    then have "quotes_cause (le_code e)" by (rule quoting_codes)
    with 1 show ?thesis by (auto simp: specialise_def Let_def args)
  next
    case 2
    then have "\<not> quotes_cause (le_code e)" by (simp add: quotes_cause_def)
    with 2 show ?thesis
      by (auto simp: specialise_def Let_def own_codes_def fixed_texts_def synchronizer_texts_def)
  next
    case 3
    then have "map_of fixed_texts (le_code e) = None" "quotes_cause (le_code e)"
      by (auto simp: fixed_texts_lookup own_codes_def quotes_cause_def)
    with 3 show ?thesis
      by (simp add: specialise_def Let_def default own_codes_def)
  qed
qed

lemma diagnose_None: "diagnose P cat e = None \<longleftrightarrow> specialise cat e (phase_for (le_code e)) (extract_facts P e) = None"
  by (auto simp: diagnose_def Let_def)


subsection \<open>Wrapped errors\<close>

lemma strip_leading_to_brace:
  assumes "\<forall>w \<in> set ws. c \<notin> set w"
  shows "\<exists>u'. strip_leading ws (u @ c # r) = u' @ c # r \<and> set u' \<subseteq> set u"
proof (induction "length u" arbitrary: u rule: less_induct)
  case less
  show ?case
  proof (cases "find (\<lambda>w. w \<noteq> [] \<and> starts_with w (u @ c # r)) ws")
    case None
    then show ?thesis by (intro exI [of _ u]) (subst strip_leading.simps, simp)
  next
    case (Some w)
    then obtain r' where w: "w \<in> set ws" "w \<noteq> []" "u @ c # r = w @ r'"
      by (auto dest!: find_SomeD simp: starts_with_iff)
    with assms have "c \<notin> set w" by blast
    with w(3) obtain u1 where u: "u = w @ u1"
      by (auto simp: append_eq_append_conv2 Cons_eq_append_conv)
    with w(2) obtain u' where "strip_leading ws (u1 @ c # r) = u' @ c # r" "set u' \<subseteq> set u1"
      using less [of u1] by auto
    moreover have "strip_leading ws (u @ c # r) = strip_leading ws (u1 @ c # r)"
      by (subst strip_leading.simps) (simp add: Some, simp add: u)
    ultimately show ?thesis using u by (intro exI [of _ u']) auto
  qed
qed

lemma braces_no_space: "\<forall>w \<in> set white_space. CHR ''{'' \<notin> set w \<and> CHR ''}'' \<notin> set w"
proof -
  have "list_all (\<lambda>w. list_all (\<lambda>c. code c \<noteq> 123 \<and> code c \<noteq> 125) w) white_space"
    by (simp add: white_space_def of_char_of upt_rec)
  moreover have "code (CHR ''{'') = (123 :: nat)" "code (CHR ''}'') = (125 :: nat)" by simp_all
  ultimately show ?thesis by (fastforce simp: list_all_iff)
qed

lemma trim_braces:
  "\<exists>u' v'. trim (u @ CHR ''{'' # b @ CHR ''}'' # v) = u' @ CHR ''{'' # b @ CHR ''}'' # v' \<and>
     set u' \<subseteq> set u \<and> set v' \<subseteq> set v"
proof -
  obtain u' where u': "strip_leading white_space (u @ CHR ''{'' # b @ CHR ''}'' # v) = u' @ CHR ''{'' # b @ CHR ''}'' # v"
    "set u' \<subseteq> set u"
    using strip_leading_to_brace braces_no_space by meson
  have no: "\<forall>w \<in> set (map rev white_space). CHR ''}'' \<notin> set w" using braces_no_space by simp
  obtain v' where v': "strip_leading (map rev white_space) (rev v @ CHR ''}'' # rev (u' @ CHR ''{'' # b)) =
      v' @ CHR ''}'' # rev (u' @ CHR ''{'' # b)" "set v' \<subseteq> set (rev v)"
    using strip_leading_to_brace [OF no] by blast
  have "trim (u @ CHR ''{'' # b @ CHR ''}'' # v) = rev (v' @ CHR ''}'' # rev (u' @ CHR ''{'' # b))"
    using v'(1) by (simp add: trim_def u'(1))
  then show ?thesis
    using u'(2) v'(2) by (intro exI [of _ u'] exI [of _ "rev v'"]) simp
qed

lemma parse_inner_wrapped:
  assumes "CHR ''{'' \<notin> set u" "CHR ''}'' \<notin> set v"
    and "Option.bind (from_text J (CHR ''{'' # b @ [CHR ''}''])) (from_json J) = Some e"
  shows "parse_inner J P cat (u @ CHR ''{'' # b @ CHR ''}'' # v) = e"
proof -
  obtain u' v' where t: "trim (u @ CHR ''{'' # b @ CHR ''}'' # v) = u' @ CHR ''{'' # b @ CHR ''}'' # v'"
    "set u' \<subseteq> set u" "set v' \<subseteq> set v"
    using trim_braces by blast
  with assms(1,2) have "find_json_object (u' @ CHR ''{'' # b @ CHR ''}'' # v') = Some (CHR ''{'' # b @ [CHR ''}''])"
    by (intro find_json_object_wrapped) auto
  with assms(3) show ?thesis by (simp add: parse_inner_def t(1))
qed

text \<open>A diagnosis looks at neither the status nor the text of an error.\<close>

lemma diagnose_ignores:
  "map_option (\<lambda>d. d\<lparr>dg_error := z\<rparr>) (diagnose P cat (e\<lparr>le_http_status := s, le_raw := r\<rparr>)) =
   map_option (\<lambda>d. d\<lparr>dg_error := z\<rparr>) (diagnose P cat e)"
proof -
  let ?e = "e\<lparr>le_http_status := s, le_raw := r\<rparr>"
  have x: "extract_facts P ?e = extract_facts P e"
    by (simp add: extract_facts_def contract_ids_of_def resource_def)
  have "specialise cat ?e phase x = specialise cat e phase x" for phase x
    by (simp add: specialise_def)
  moreover have "generic_hints ?e phase = generic_hints e phase" for phase
    by (simp add: generic_hints_def)
  moreover have "is_retryable ?e = is_retryable e" by (cases "le_error_category e") (simp_all add: is_retryable_def)
  ultimately show ?thesis
    by (simp add: diagnose_def Let_def x option.map_comp comp_def case_prod_beta)
qed


text \<open>The requests of a run: at most one to prepare, then lookups after a rejection.\<close>

lemma simulate_asks:
  assumes "simulate W L D S fid req log = Some (rp, log')"
  obtains lookups opened where "log' = lookups @ opened @ log" "length opened \<le> 1"
    "length lookups \<le> sm_max_contract_lookups S"
    "\<forall>rq \<in> set opened. sent_by W (sm_client S) PREPARE_PATH rq"
    "\<forall>rq \<in> set lookups. sent_by W (sm_client S) EVENTS_PATH rq"
    "rp_outcome rp \<noteq> WouldFail \<Longrightarrow> lookups = []"
proof -
  have opened: "\<exists>opened. log1 = opened @ log \<and> length opened \<le> 1 \<and>
      (\<forall>rq \<in> set opened. sent_by W (sm_client S) PREPARE_PATH rq)"
    if "prepare_call W (sm_client S) body log = Some (r, log1)" for body r log1
    using prepare_call_asks [OF that]
    by (elim asks_def [THEN iffD1, elim_format] disjE exE)
      (auto intro: exI [of _ "[]"] exI [of _ "[rq]" for rq])
  from assms show thesis
  proof (cases rule: simulate_cases)
    case (succeeds log1 status t resp)
    from opened [OF succeeds(1)] obtain opened where "log1 = opened @ log" "length opened \<le> 1"
      "\<forall>rq \<in> set opened. sent_by W (sm_client S) PREPARE_PATH rq" by blast
    with succeeds(6) show thesis by (intro that [of "[]" opened]) simp_all
  next
    case (fails log1 status t)
    from opened [OF fails(1)] obtain opened where o: "log1 = opened @ log" "length opened \<le> 1"
      "\<forall>rq \<in> set opened. sent_by W (sm_client S) PREPARE_PATH rq" by blast
    from on_rejected_asks [OF fails(4)] obtain lookups where "log' = lookups @ log1"
      "length lookups \<le> sm_max_contract_lookups S"
      "\<forall>rq \<in> set lookups. sent_by W (sm_client S) EVENTS_PATH rq" by blast
    with o on_rejected_outcome [OF fails(4)] show thesis
      by (intro that [of lookups opened]) simp_all
  next
    case (unknown log1 e)
    from opened [OF unknown(1)] obtain opened where "log1 = opened @ log" "length opened \<le> 1"
      "\<forall>rq \<in> set opened. sent_by W (sm_client S) PREPARE_PATH rq" by blast
    with unknown(4) show thesis by (intro that [of "[]" opened]) simp_all
  qed
qed

end
