(* ===== verification/Diagnosis_Properties.thy ===== *)
theory Diagnosis_Properties
  imports Simulate_Correct
begin

text \<open>
  Properties of the simulator: what it asks the participant, which outcome it reports, and what
  becomes of a rejection.
\<close>

subsection \<open>Examples\<close>

text \<open>A participant that answers every request the same, and a world without expressions, catalog
  and files.\<close>

definition no_patterns :: patterns where
  "no_patterns =
     \<lparr>p_grpc = (\<lambda>_. None), p_bare = (\<lambda>_. []), p_returned = (\<lambda>_. None), p_template = (\<lambda>_. None),
      p_contract_ids = (\<lambda>_. []), p_parties = (\<lambda>_. []), p_authorizers = (\<lambda>_. None), p_missing_auth = (\<lambda>_. None),
      p_exception = (\<lambda>_. None), p_message_field = (\<lambda>_. None), p_error_id = (\<lambda>_. None),
      p_precondition_template = (\<lambda>_. None), p_choice = (\<lambda>_. None), p_sync_ids = (\<lambda>_. [])\<rparr>"

definition plain_world :: "(bytes \<Rightarrow> json option) \<Rightarrow> http_reply \<Rightarrow> world" where
  "plain_world parse reply =
     \<lparr>w_json = \<lparr>from_text = parse, to_text = (\<lambda>_. ''request'')\<rparr>, w_json_error = (\<lambda>_. ''error''),
      w_patterns = no_patterns, w_catalog = bempty, w_read_file = (\<lambda>_. Err ''no file''),
      w_network = (\<lambda>_ _. reply), w_float_to_u64 = (\<lambda>_. 0)\<rparr>"

text \<open>Decimals on integers: enough to quote nothing.\<close>

definition int_decimals :: "int decimals" where
  "int_decimals =
     \<lparr>d_zero = 0, d_add = (\<lambda>a b. Some (a + b)), d_sub = (\<lambda>a b. Some (a - b)), d_mul = (\<lambda>a b. Some (a * b)),
      d_div = (\<lambda>a b. Some (a div b)), d_le = (\<lambda>a b. a \<le> b), d_is_zero = (\<lambda>a. a = 0), d_round = (\<lambda>_ a. a),
      d_of_nat = int, d_to_u64 = (\<lambda>a. Some (word_of_int a)), d_parse = (\<lambda>_. None)\<rparr>"

definition free_schedule :: "int fee_schedule" where
  "free_schedule =
     \<lparr>fs_traffic = \<lparr>tp_extra_traffic_price_usd_per_mb = 0, tp_amulet_price_usd = 0, tp_min_topup_bytes = None, tp_source = []\<rparr>,
      fs_amulet = \<lparr>as_create_fee_usd = 0, as_holding_fee_usd_per_round = 0, as_lock_holder_fee_usd = 0,
        as_transfer_fee_initial_rate = 0, as_transfer_fee_steps = [], as_source = []\<rparr>\<rparr>"

definition sample_simulator :: "int Simulator" where
  "sample_simulator = new_simulator \<lparr>lc_base_url = ''http://p/v2'', lc_token = NoToken\<rparr> free_schedule"

definition sample_request :: SimulationRequest where
  "sample_request =
     \<lparr>rs_user_id = None, rs_command_id = None, rs_act_as = [''alice''], rs_read_as = [], rs_commands = [],
      rs_disclosed_contracts = [], rs_synchronizer_id = None, rs_package_id_selection_preference = [],
      rs_min_ledger_time_rel_secs = None, rs_expected_signatures = [], rs_lookup_contracts = True,
      rs_include_arguments = True, rs_include_prepared_transaction = False\<rparr>"

lemma sample_answered:
  "answered (plain_world parse (Answer status t)) sample_simulator fid req log status t"
  by (simp add: answered_def plain_world_def sample_simulator_def new_simulator_def read_token_def)

definition empty_wire :: ledger_wire where
  "empty_wire = \<lparr>b64_decode = (\<lambda>_. None), proto_decode = (\<lambda>_. None), instant_text = (\<lambda>_. None), date_text = (\<lambda>_. None)\<rparr>"

text \<open>A gateway in front of the participant is down.\<close>

definition bad_gateway :: world where
  "bad_gateway = plain_world (\<lambda>_. None) (Answer 502 ''bad-gateway'')"

lemma bad_gateway_rejection:
  "rejection bad_gateway 502 ''bad-gateway'' =
     no_error\<lparr>le_http_status := Some 502, le_code := ''UNKNOWN'', le_cause := ''bad-gateway'', le_raw := ''bad-gateway''\<rparr>"
proof -
  have "trim ''bad-gateway'' = ''bad-gateway''" by (rule trim_plain) (simp add: plain_char_def)
  then show ?thesis
    by (simp add: rejection_def parse_error_def parse_inner_def bad_gateway_def plain_world_def
        find_json_object_def from_grpc_text_def no_patterns_def no_error_def)
qed

lemma bad_gateway_simulated:
  "\<exists>rp log'. simulate bad_gateway L int_decimals sample_simulator ''id'' sample_request [] = Some (rp, log')"
proof -
  let ?e = "rejection bad_gateway 502 ''bad-gateway''"
  let ?W = bad_gateway
  have call: "prepare_call ?W (sm_client sample_simulator)
      (build_prepare_body sample_simulator sample_request (command_id_of sample_request ''id'')) [] =
      Some (Err (Rejected ?e), [prepare_request ?W sample_simulator ''id'' sample_request None])"
  proof -
    have "lc_token (sm_client sample_simulator) = NoToken" by (simp add: sample_simulator_def new_simulator_def)
    moreover have "w_network ?W log rq = Answer 502 ''bad-gateway''" for log rq
      by (simp add: bad_gateway_def plain_world_def)
    moreover have "\<not> is_success 502" by (simp add: is_success_def)
    ultimately show ?thesis by (simp add: prepare_call_unfold read_token_def)
  qed
  have "first_sentence (le_cause ?e) \<noteq> None"
  proof -
    have "trim ''bad-gateway'' = ''bad-gateway''" by (rule trim_plain) (simp add: plain_char_def)
    then have "\<not> splits_character (trim ''bad-gateway'')" by (simp add: splits_character_def)
    then show ?thesis by (simp add: bad_gateway_rejection first_sentence_None)
  qed
  then have "diagnose (w_patterns ?W) (w_catalog ?W) ?e \<noteq> None"
    by (simp add: diagnose_None specialise_None) (simp add: bad_gateway_rejection)
  then obtain d where d: "diagnose (w_patterns ?W) (w_catalog ?W) ?e = Some d" by blast
  then have "dg_phase d = phase_for ''UNKNOWN''" by (auto simp: diagnose_def Let_def bad_gateway_rejection)
  moreover have "phase_for ''UNKNOWN'' = UnknownPhase" by code_simp
  ultimately have "ids_to_look_up sample_simulator sample_request d = []" by (simp add: ids_to_look_up_def)
  with d have "\<exists>rp. on_rejected ?W int_decimals sample_simulator sample_request ?e
     (empty_report sample_simulator sample_request (command_id_of sample_request ''id''))
     [prepare_request ?W sample_simulator ''id'' sample_request None] =
       Some (rp, [prepare_request ?W sample_simulator ''id'' sample_request None])"
    by (simp add: on_rejected_def amulet_fee_for_def sample_request_def)
  with call show ?thesis
    by (auto simp: simulate_def command_id_of_def Let_def)
qed

subsection \<open>Requests and outcomes\<close>

text \<open>
  C26. A simulation submits nothing: it opens with at most one request, which asks the participant to
  prepare the transaction, and after a rejection looks up at most the configured number of contracts.
  No other URL is called, and a run that ends in another outcome makes no lookup at all.
\<close>

theorem simulation_never_submits:
  assumes "simulate W L D S fid req log = Some (rp, log')"
  shows "\<exists>lookups opened. log' = lookups @ opened @ log \<and> length opened \<le> 1 \<and>
    length lookups \<le> sm_max_contract_lookups S \<and>
    (\<forall>rq \<in> set opened. rq_url rq = lc_base_url (sm_client S) @ ''/interactive-submission/prepare'') \<and>
    (\<forall>rq \<in> set lookups. rq_url rq = lc_base_url (sm_client S) @ ''/events/events-by-contract-id'') \<and>
    (rp_outcome rp \<noteq> WouldFail \<longrightarrow> lookups = [])"
proof -
  obtain lookups opened where log': "log' = lookups @ opened @ log" "length opened \<le> 1"
      "length lookups \<le> sm_max_contract_lookups S" "rp_outcome rp \<noteq> WouldFail \<Longrightarrow> lookups = []"
    and sent: "\<forall>rq \<in> set opened. sent_by W (sm_client S) PREPARE_PATH rq"
      "\<forall>rq \<in> set lookups. sent_by W (sm_client S) EVENTS_PATH rq"
    using simulate_asks [OF assms] by metis
  from sent have "\<forall>rq \<in> set opened. rq_url rq = lc_base_url (sm_client S) @ ''/interactive-submission/prepare''"
    "\<forall>rq \<in> set lookups. rq_url rq = lc_base_url (sm_client S) @ ''/events/events-by-contract-id''"
    by (simp_all add: sent_by_def PREPARE_PATH_def EVENTS_PATH_def)
  with log' show ?thesis by blast
qed

theorem simulation_never_submits_witness:
  "\<exists>rp log'. simulate bad_gateway empty_wire int_decimals sample_simulator ''id'' sample_request [] = Some (rp, log') \<and>
     length log' \<le> 6"
proof -
  obtain rp log' where run: "simulate bad_gateway empty_wire int_decimals sample_simulator ''id'' sample_request [] = Some (rp, log')"
    using bad_gateway_simulated by blast
  from simulation_never_submits [OF this] have "length log' \<le> 6"
    by (auto simp: sample_simulator_def new_simulator_def)
  with run show ?thesis by blast
qed

lemma outcome_of:
  assumes "simulate W L D S fid req log = Some (rp, log')"
  shows "(rp_outcome rp = WouldFail \<longleftrightarrow>
      (\<exists>status t. answered W S fid req log status t \<and> \<not> is_success status)) \<and>
    (rp_outcome rp = WouldSucceed \<longleftrightarrow>
      (\<exists>status t resp. answered W S fid req log status t \<and> is_success status \<and> prepared_by W S t resp)) \<and>
    (rp_diagnosis rp \<noteq> None \<longleftrightarrow> rp_outcome rp = WouldFail) \<and>
    (rp_effects rp \<noteq> None \<longrightarrow> rp_outcome rp = WouldSucceed)"
  using assms
proof (cases rule: simulate_cases)
  case (succeeds log1 status t resp)
  moreover have "rp_outcome rp = WouldSucceed \<and> rp_diagnosis rp = None"
    using succeeds(5) by (auto simp: on_prepared_def empty_report_def bind_eq_Some_conv)
  moreover have "\<nexists>status t. answered W S fid req log status t \<and> \<not> is_success status"
    using succeeds(2,3) answered_inject by blast
  ultimately show ?thesis by auto
next
  case (fails log1 status t)
  moreover have "rp_outcome rp = WouldFail \<and> rp_diagnosis rp \<noteq> None \<and> rp_effects rp = None"
    using fails(4) by (auto simp: on_rejected_def empty_report_def bind_eq_Some_conv)
  moreover have "\<nexists>status t resp. answered W S fid req log status t \<and> is_success status \<and> prepared_by W S t resp"
    using fails(2,3) answered_inject by blast
  ultimately show ?thesis by auto
next
  case (unknown log1 e)
  then have "rp_outcome rp = Inconclusive \<and> rp_diagnosis rp = None \<and> rp_effects rp = None"
    by (simp add: empty_report_def)
  with unknown(2) show ?thesis by auto
qed

lemmas outcome_succeeds = outcome_of [THEN conjunct2, THEN conjunct1]

text \<open>
  C27. The outcome of a simulation, exactly: it would fail when the answer to the prepare request has a
  status other than a success, whatever its text; it would succeed when the answer is a success whose
  text is a prepare response; and it is inconclusive otherwise. A diagnosis is reported with the first
  of them only, and effects with the second only. So the error page of a gateway, which says nothing
  about the command, is reported as a command that would fail, although the documentation of
  the outcomes reserves inconclusive for a participant that could not be reached or understood.
\<close>

theorem simulation_outcome_exact:
  assumes "simulate W L D S fid req log = Some (rp, log')"
  shows "(rp_outcome rp = WouldFail \<longleftrightarrow>
      (\<exists>status t. answered W S fid req log status t \<and> \<not> is_success status)) \<and>
    (rp_outcome rp = WouldSucceed \<longleftrightarrow>
      (\<exists>status t resp. answered W S fid req log status t \<and> is_success status \<and> prepared_by W S t resp)) \<and>
    (rp_diagnosis rp \<noteq> None \<longleftrightarrow> rp_outcome rp = WouldFail) \<and>
    (rp_effects rp \<noteq> None \<longrightarrow> rp_outcome rp = WouldSucceed)"
  by (rule outcome_of [OF assms])

theorem simulation_outcome_exact_witness:
  "\<exists>rp log'. simulate bad_gateway empty_wire int_decimals sample_simulator ''id'' sample_request [] = Some (rp, log') \<and>
     rp_outcome rp = WouldFail \<and> rp_diagnosis rp \<noteq> None"
proof -
  obtain rp log' where run: "simulate bad_gateway empty_wire int_decimals sample_simulator ''id'' sample_request [] = Some (rp, log')"
    using bad_gateway_simulated by blast
  have "answered bad_gateway sample_simulator ''id'' sample_request [] 502 ''bad-gateway''"
    unfolding bad_gateway_def by (rule sample_answered)
  moreover have "\<not> is_success 502" by (simp add: is_success_def)
  ultimately show ?thesis using run simulation_outcome_exact [OF run] by blast
qed

subsection \<open>Rejections\<close>

text \<open>A string of plain characters at both ends is not trimmed.\<close>

lemma trim_plain_ends:
  assumes "plain_char a" "plain_char b"
  shows "trim (a # s @ [b]) = a # s @ [b]"
  using strip_plain [OF assms(1)] strip_plain(2) [OF assms(2), of "rev s @ [a]"] by (simp add: trim_def)

definition split_cause :: string where
  "split_cause = CHR ''x'' # (replicate 238 (CHR ''x'') @ [CHR 0xC3, CHR 0xA9]) @ [CHR ''x'']"

lemma split_cause: "trim split_cause = split_cause" "splits_character split_cause"
proof -
  show t: "trim split_cause = split_cause"
    unfolding split_cause_def by (rule trim_plain_ends) (simp_all add: plain_char_def)
  have "CHR ''.'' \<notin> set split_cause" by (simp add: split_cause_def)
  then have "find_text ''. '' split_cause = None"
  proof (rule contrapos_np)
    assume "find_text ''. '' split_cause \<noteq> None"
    then obtain u v where "split_cause = u @ ''. '' @ v" using find_text_Some by blast
    then have "set split_cause = set (u @ ''. '' @ v)" by (rule arg_cong)
    then show "CHR ''.'' \<in> set split_cause" by auto
  qed
  then show "splits_character split_cause"
    by (simp add: splits_character_def) (simp add: split_cause_def nth_append nth_Cons' utf8_tail_def)
qed

text \<open>
  C28. A simulation can panic, although it is documented never to: the first sentence of a cause is cut
  at byte 240, so a rejection whose text quotes its cause panics when no sentence of the cause ends
  before that byte and a character of several bytes stands across it. So does the rejection of a
  contract id that is cut inside a character. The program returns nothing then, for every request.
\<close>

theorem rejection_panics:
  assumes "answered W S fid req log status t" "\<not> is_success status" "e = rejection W status t"
    and "quotes_cause (le_code e) \<and> splits_character (trim (le_cause e)) \<or>
      le_code e = ''CONTRACT_NOT_FOUND'' \<and>
        short_cid (case contract_ids_of (w_patterns W) e of cid # _ \<Rightarrow> cid | [] \<Rightarrow> []) = None"
  shows "simulate W L D S fid req log = None"
proof (rule ccontr)
  assume "simulate W L D S fid req log \<noteq> None"
  then obtain rp log' where "simulate W L D S fid req log = Some (rp, log')" by auto
  then show False
  proof (cases rule: simulate_cases)
    case (fails log1 status' t')
    have "x_contract_ids (extract_facts (w_patterns W) e) = contract_ids_of (w_patterns W) e"
      by (simp add: extract_facts_def case_prod_beta Let_def)
    with assms(4) have "diagnose (w_patterns W) (w_catalog W) e = None"
      by (simp add: diagnose_None specialise_None first_sentence_None)
    moreover have "rejection W status' t' = e" using answered_inject [OF assms(1) fails(2)] assms(3) by simp
    ultimately show False using fails(4) by (simp add: on_rejected_def)
  qed (use assms(1,2) answered_inject in blast)+
qed

theorem rejection_panics_witness:
  "simulate (plain_world (\<lambda>_. None) (Answer 400 split_cause)) empty_wire int_decimals sample_simulator ''id''
     sample_request [] = None"
proof -
  let ?W = "plain_world (\<lambda>_. None) (Answer 400 split_cause)"
  have "rejection ?W 400 split_cause =
      no_error\<lparr>le_http_status := Some 400, le_code := ''UNKNOWN'', le_cause := split_cause, le_raw := split_cause\<rparr>"
    by (simp add: rejection_def parse_error_def parse_inner_def plain_world_def split_cause(1)
        from_grpc_text_def no_patterns_def no_error_def split: option.splits)
  moreover have "quotes_cause ''UNKNOWN''" by (simp add: quotes_cause_def own_codes_def fixed_texts_def)
  ultimately show ?thesis
    by (intro rejection_panics [OF sample_answered _ refl])
      (simp_all add: split_cause is_success_def)
qed

text \<open>
  C29. How an error reaches the classifier does not matter: a JSON error with any text around it, as an
  HTTP client prints it, reads to the same error as the JSON alone and is given the same diagnosis, as
  long as the text before it has no opening and the text after it no closing brace.
\<close>

theorem wrapping_irrelevant:
  assumes "CHR ''{'' \<notin> set u" "CHR ''}'' \<notin> set v"
    and "from_text J (CHR ''{'' # b @ [CHR ''}'']) = Some val" "from_json J val = Some e"
  shows "error_from_text J P cat (u @ CHR ''{'' # b @ CHR ''}'' # v) =
      e\<lparr>le_http_status := extract_wrapped_status P (u @ CHR ''{'' # b @ CHR ''}'' # v),
        le_raw := u @ CHR ''{'' # b @ CHR ''}'' # v\<rparr> \<and>
    map_option (\<lambda>d. d\<lparr>dg_error := e\<rparr>) (diagnose P cat (error_from_text J P cat (u @ CHR ''{'' # b @ CHR ''}'' # v))) =
    map_option (\<lambda>d. d\<lparr>dg_error := e\<rparr>) (diagnose P cat e)"
proof -
  let ?t = "u @ CHR ''{'' # b @ CHR ''}'' # v"
  have "error_from_text J P cat ?t = e\<lparr>le_http_status := extract_wrapped_status P ?t, le_raw := ?t\<rparr>"
    using parse_inner_wrapped [OF assms(1,2)] assms(3,4) by (simp add: error_from_text_def parse_error_def)
  then show ?thesis by (simp only: diagnose_ignores simp_thms)
qed

definition sample_body :: json where
  "sample_body = JObject [(''cause'', JString ''gone''), (''code'', JString ''CONTRACT_NOT_FOUND''), (''definiteAnswer'', JBool True)]"

theorem wrapping_irrelevant_witness:
  "\<exists>e. error_from_text \<lparr>from_text = (\<lambda>t. if t = ''{code}'' then Some sample_body else None), to_text = (\<lambda>_. [])\<rparr>
      no_patterns bempty ''POST returned 404: {code} .'' = e \<and>
    le_code e = ''CONTRACT_NOT_FOUND'' \<and> le_cause e = ''gone'' \<and> le_definite_answer e = Some True"
proof -
  let ?J = "\<lparr>from_text = (\<lambda>t. if t = ''{code}'' then Some sample_body else None), to_text = (\<lambda>_. [])\<rparr>"
  have "trim ''CONTRACT_NOT_FOUND'' = ''CONTRACT_NOT_FOUND''" by (rule trim_plain) (simp add: plain_char_def)
  then obtain e where e: "from_json ?J sample_body = Some e"
    "le_code e = ''CONTRACT_NOT_FOUND''" "le_cause e = ''gone''" "le_definite_answer e = Some True"
    by (simp add: from_json_def sample_body_def json_get_def as_object_def as_bool_def as_str_def
        error_context_def text_or_empty_def or_else_def Let_def)
  show ?thesis
    using wrapping_irrelevant [of "''POST returned 404: ''" "'' .''" ?J "''code''" sample_body e no_patterns bempty] e
    by simp
qed

text \<open>
  A rejection for want of traffic credit, or by an overloaded sequencer, is said to have cost nothing and
  to have consumed traffic in the same diagnosis.
\<close>

lemma unsequenced_charged:
  assumes "le_code e \<in> {''SEQUENCER_NOT_ENOUGH_TRAFFIC_CREDIT'', ''SEQUENCER_BACKPRESSURE'', ''SEQUENCER_OVERLOADED''}"
  shows "\<exists>d. diagnose P cat e = Some d \<and> dg_summary d \<in> {SNoTraffic, SOverloaded} \<and> HTrafficConsumed \<in> set (dg_hints d)"
proof -
  have "phase_for (le_code e) = Sequencing"
  proof -
    have "phase_for ''SEQUENCER_NOT_ENOUGH_TRAFFIC_CREDIT'' = Sequencing" by code_simp
    moreover have "phase_for ''SEQUENCER_BACKPRESSURE'' = Sequencing" by code_simp
    moreover have "phase_for ''SEQUENCER_OVERLOADED'' = Sequencing" by code_simp
    ultimately show ?thesis using assms by auto
  qed
  with assms show ?thesis
    by (auto simp: diagnose_def specialise_def fixed_texts_def generic_hints_def Let_def split: option.splits)
qed

end
