(* ===== verification/Text_Properties.thy ===== *)
theory Text_Properties
  imports Simulation_Text Diagnosis_Properties
begin

text \<open>
  Which reports of a simulation have a text: a rejection always, a success unless its transaction
  carries a text that the rendering cuts inside a character.
\<close>

lemma state_hint_cid: "state_hint st = Some h \<Longrightarrow> cid_ok (state_cid st)"
  using text_cid_defined [of "Some (state_cid st)"]
  by (cases st) (auto simp: state_hint_def state_cid_def text_cid_def)

lemma look_up_all_cids:
  assumes "look_up_all W c parties cids (d, states) log = Some ((d', states'), log')"
    and "list_all (\<lambda>st. cid_ok (state_cid st)) states"
  shows "list_all (\<lambda>st. cid_ok (state_cid st)) states'"
  using assms
proof (induction cids arbitrary: d states log)
  case (Cons cid cids)
  from Cons.prems(1) obtain st log1 h where "state_hint st = Some h"
    and rest: "look_up_all W c parties cids (d\<lparr>dg_hints := h # dg_hints d\<rparr>, states @ [st]) log1 = Some ((d', states'), log')"
    by (auto simp: bind_eq_Some_conv)
  with Cons.prems(2) show ?case by (intro Cons.IH [OF rest]) (simp add: state_hint_cid)
qed auto

lemma rejected_report:
  assumes "on_rejected W D S req e (empty_report S req cid) log = Some (rp, log')"
  shows "rp_effects rp = None \<and> list_all (\<lambda>st. cid_ok (state_cid st)) (rp_contract_states rp)"
proof -
  from assms obtain d d' states log1 fee where
    looked: "look_up_all W (sm_client S) (rs_act_as req @ rs_read_as req) (ids_to_look_up S req d) (d, []) log =
       Some ((d', states), log1)"
    and rp: "rp = (empty_report S req cid)\<lparr>rp_outcome := WouldFail, rp_contract_states := states, rp_amulet_fee := fee,
       rp_diagnosis := Some d'\<rparr>"
    by (auto simp: on_rejected_def bind_eq_Some_conv empty_report_def)
  from look_up_all_cids [OF looked] rp show ?thesis by (simp add: empty_report_def)
qed

text \<open>What a run reports has a diagnosis or effects, not both; a run that does not succeed can be printed.\<close>

lemma successful_undiagnosed:
  assumes "simulate W L D S fid req log = Some (rp, log')" "rp_outcome rp = WouldSucceed"
  shows "rp_diagnosis rp = None"
  using assms(1)
proof (cases rule: simulate_cases)
  case (succeeds log1 status t resp)
  then show ?thesis by (auto simp: on_prepared_def empty_report_def bind_eq_Some_conv)
next
  case (fails log1 status t)
  then have "rp_outcome rp = WouldFail" by (auto simp: on_rejected_def empty_report_def bind_eq_Some_conv)
  with assms(2) show ?thesis by simp
next
  case (unknown log1 e)
  with assms(2) show ?thesis by (simp add: empty_report_def)
qed

lemma unsuccessful_printable:
  assumes "simulate W L D S fid req log = Some (rp, log')" "rp_outcome rp \<noteq> WouldSucceed"
  shows "printable J rp"
  using assms(1)
proof (cases rule: simulate_cases)
  case (succeeds log1 status t resp)
  with on_prepared_outcome [OF succeeds(5)] assms(2) show ?thesis by simp
next
  case (fails log1 status t)
  with rejected_report [OF fails(4)] show ?thesis by (simp add: printable_def)
next
  case (unknown log1 e)
  then show ?thesis by (simp add: printable_def empty_report_def)
qed

text \<open>
  C31. Of the reports that simulations return, exactly some successes cannot be printed as text: those with
  a template, a contract id, an argument or a result that is longer than its limit and whose cut falls
  inside a character. Printing then panics, on the command line and in the server, while the same report is
  answered as JSON. A rejection and an inconclusive run always have a text.
\<close>

theorem returned_report_text:
  assumes "simulate W L D S fid req log = Some (rp, log')"
  shows "report_to_text E rp = None \<longleftrightarrow> rp_outcome rp = WouldSucceed \<and>
    (\<exists>fx. rp_effects rp = Some fx \<and>
       ((\<exists>n \<in> set (fx_nodes fx). \<not> node_ok (te_json E) n) \<or> (\<exists>c \<in> set (fx_input_contracts fx). \<not> input_ok c)))"
proof (cases "rp_outcome rp = WouldSucceed")
  case True
  with successful_undiagnosed [OF assms] show ?thesis
    by (cases "rp_effects rp") (auto simp: report_text_defined printable_def list_all_iff)
next
  case False
  with unsuccessful_printable [OF assms, of "te_json E"] show ?thesis by (simp add: report_text_defined)
qed

subsection \<open>A success that cannot be printed\<close>

text \<open>A contract is created with a text of 198 letters and an e with an accent.\<close>

definition accented :: string where
  "accented = replicate 198 (CHR ''a'') @ [CHR 0xC3, CHR 0xA9]"

definition note_create :: create_node where
  "note_create = \<lparr>cr_contract_id = ''c'', cr_package_name = ''p'', cr_template_id = None,
     cr_argument = Some (VText accented), cr_signatories = [''alice''], cr_stakeholders = []\<rparr>"

definition note_transaction :: daml_transaction where
  "note_transaction = \<lparr>tx_version = ''2.1'', tx_roots = [''0''],
     tx_nodes = [\<lparr>tn_node_id = ''0'', tn_versioned_node = Some (Some (NCreate note_create))\<rparr>]\<rparr>"

definition note_wire :: ledger_wire where
  "note_wire = \<lparr>b64_decode = Some,
     proto_decode = (\<lambda>_. Some \<lparr>pt_transaction = Some note_transaction, pt_metadata = None\<rparr>),
     instant_text = (\<lambda>_. None), date_text = (\<lambda>_. None)\<rparr>"

definition prepared_answer :: world where
  "prepared_answer = plain_world
     (\<lambda>_. Some (JObject [(''preparedTransaction'', JString ''t''), (''preparedTransactionHash'', JString ''h'')]))
     (Answer 200 ''b'')"

definition quoting_env :: "int text_env" where
  "quoting_env = \<lparr>te_json = \<lparr>from_text = (\<lambda>_. None), to_text = (\<lambda>v. case v of JString s \<Rightarrow> dq @ s @ dq | _ \<Rightarrow> [])\<rparr>,
     te_normalized = show_int, te_reason = (\<lambda>_. []), te_elapsed = 0\<rparr>"

lemma accented_cut: "\<not> value_ok (te_json quoting_env) (JString accented)"
  by (simp add: value_ok_def cut_ok_def quoting_env_def accented_def char_boundary_def utf8_tail_def dq_def
      nth_Cons' nth_append)

lemma note_map: "node_map note_transaction = bof_list [(''0'', Some (NCreate note_create))]"
  by (simp add: node_map_def note_transaction_def map_filter_simps)

lemma note_walk:
  "\<exists>s. walk_transaction note_wire True note_transaction = Some s \<and> ws_out s = [effect_of note_wire True ''0'' 0 (NCreate note_create)]"
proof -
  have node: "bget (node_map note_transaction) ''0'' = Some (Some (NCreate note_create))"
    by (simp add: note_map bget_bof_list)
  then show ?thesis
    by (simp add: walk_transaction_def walk_all_Cons enter_def node node_children_def walk_start_def note_transaction_def Let_def)
qed

lemma note_effects:
  "\<exists>fx. effects_of note_wire \<lparr>pt_transaction = Some note_transaction, pt_metadata = None\<rparr> n h scheme True = Some (Inr fx) \<and>
     (\<exists>e \<in> set (fx_nodes fx). en_argument e = Some (JString accented)) \<and> fx_synchronizer_id fx = [] \<and> fx_max_record_time fx = None"
  using note_walk by (auto simp: effects_of_def default_metadata_def effect_of_def argument_json_def note_create_def Let_def)

lemma note_prepared:
  "\<exists>resp. prepare_call prepared_answer (sm_client sample_simulator)
     (build_prepare_body sample_simulator sample_request (command_id_of sample_request ''id'')) [] =
       Some (Ok resp, [prepare_request prepared_answer sample_simulator ''id'' sample_request None]) \<and>
     pr_cost resp = None"
proof -
  have plain: "trim ''t'' = ''t''" "trim ''h'' = ''h''" "trim ''b'' = ''b''"
    by (rule trim_plain, simp add: plain_char_def)+
  have "lc_token (sm_client sample_simulator) = NoToken" by (simp add: sample_simulator_def new_simulator_def)
  then show ?thesis
    by (simp add: prepare_call_unfold read_token_def prepared_answer_def plain_world_def is_success_def plain
        decode_body_def parse_prepare_response_def response_field_def json_get_def as_str_def some_text_def cost_of_def)
qed

lemma note_run:
  "\<exists>rp log'. simulate prepared_answer note_wire int_decimals sample_simulator ''id'' sample_request [] = Some (rp, log') \<and>
     rp_outcome rp = WouldSucceed \<and>
     (\<exists>fx. rp_effects rp = Some fx \<and> (\<exists>e \<in> set (fx_nodes fx). en_argument e = Some (JString accented)))"
proof -
  obtain resp where resp: "prepare_call prepared_answer (sm_client sample_simulator)
      (build_prepare_body sample_simulator sample_request (command_id_of sample_request ''id'')) [] =
        Some (Ok resp, [prepare_request prepared_answer sample_simulator ''id'' sample_request None])"
      "pr_cost resp = None"
    using note_prepared by blast
  let ?tx = "\<lparr>pt_transaction = Some note_transaction, pt_metadata = None\<rparr>"
  obtain n where "decode_prepared note_wire (pr_transaction resp) = Ok (?tx, n)"
    by (simp add: decode_prepared_def note_wire_def)
  moreover from note_effects obtain fx where
    "effects_of note_wire ?tx n (pr_hash resp) (pr_scheme resp) True = Some (Inr fx)"
    "fx_synchronizer_id fx = []" "fx_max_record_time fx = None"
    and fx: "\<exists>e \<in> set (fx_nodes fx). en_argument e = Some (JString accented)"
    by blast
  moreover have "text_or_empty (rs_synchronizer_id sample_request) = []" "rs_include_arguments sample_request"
    "amulet_fee_for int_decimals (rs_commands sample_request) s = Some None" for s
    by (simp_all add: sample_request_def text_or_empty_def amulet_fee_for_def)
  ultimately obtain rp where "on_prepared note_wire int_decimals sample_simulator sample_request resp
      (empty_report sample_simulator sample_request (command_id_of sample_request ''id'')) = Some rp"
    "rp_outcome rp = WouldSucceed" "rp_effects rp = Some fx"
    using resp(2) by (simp add: on_prepared_def prepared_effects_def)
  moreover from this(1) have "\<exists>log'. simulate prepared_answer note_wire int_decimals sample_simulator ''id'' sample_request [] = Some (rp, log')"
    unfolding simulate_def Let_def command_id_of_def [symmetric] resp(1) by simp
  ultimately show ?thesis using fx by blast
qed

theorem returned_report_text_witness:
  "\<exists>rp log'. simulate prepared_answer note_wire int_decimals sample_simulator ''id'' sample_request [] = Some (rp, log') \<and>
     report_to_text quoting_env rp = None"
proof -
  obtain rp log' fx e where run: "simulate prepared_answer note_wire int_decimals sample_simulator ''id'' sample_request [] = Some (rp, log')"
    and fx: "rp_outcome rp = WouldSucceed" "rp_effects rp = Some fx" "e \<in> set (fx_nodes fx)"
      "en_argument e = Some (JString accented)"
    using note_run by blast
  from accented_cut fx(4) have "\<not> node_ok (te_json quoting_env) e" by (simp add: node_ok_def)
  with returned_report_text [OF run, of quoting_env] run fx show ?thesis by blast
qed

end
