(* ===== verification/Front_Properties.thy ===== *)
theory Front_Properties
  imports Simulation_Front Text_Properties
begin

text \<open>
  Properties of the front ends of the simulator: whose token a request of the server carries, and
  what the exit code of the command line says.
\<close>

subsection \<open>The server\<close>

text \<open>What a token source reads to is all that a run sends.\<close>

lemma simulate_bearer:
  assumes "simulate W L D S fid req log = Some (rp, log')" "read_token W (lc_token (sm_client S)) = Ok tok"
  shows "\<exists>new. log' = new @ log \<and> length new \<le> 1 + sm_max_contract_lookups S \<and> (\<forall>rq \<in> set new. rq_bearer rq = tok)"
proof -
  obtain lookups opened where log': "log' = lookups @ opened @ log" "length opened \<le> 1"
      "length lookups \<le> sm_max_contract_lookups S"
    and sent: "\<forall>rq \<in> set opened. sent_by W (sm_client S) PREPARE_PATH rq"
      "\<forall>rq \<in> set lookups. sent_by W (sm_client S) EVENTS_PATH rq"
    using simulate_asks [OF assms(1)] by metis
  from sent assms(2) have "\<forall>rq \<in> set (lookups @ opened). rq_bearer rq = tok" by (auto simp: sent_by_def)
  with log' show ?thesis by (intro exI [of _ "lookups @ opened"]) simp
qed

lemma new_client_token: "new_client url src = Ok c \<Longrightarrow> lc_token c = src"
  by (auto simp: new_client_def Let_def split: if_splits)

lemma strip_prefix_append: "strip_prefix p (p @ t) = Some t"
  by (simp add: strip_prefix_def)

text \<open>
  C32. A caller who sends a bearer token acts under that token only: with forwarding on, every request the
  server makes to the participant for the call carries the caller's token, or none when the token is
  blank, and never a token of the server's own configuration. For a request without parties or
  without commands nothing is asked of the participant at all.
\<close>

theorem caller_token_only:
  assumes "serve_simulate W L D E St fid H req log = Some (ans, log')"
    and "cf_forward_auth (st_cfg St)" "hd_authorization H = Some (''Bearer '' @ t)"
  shows "\<exists>new. log' = new @ log \<and> length new \<le> 6 \<and> (\<forall>rq \<in> set new. rq_bearer rq = some_text t) \<and>
    (rs_act_as req = [] \<or> rs_commands req = [] \<longrightarrow> new = [])"
proof (cases "rs_act_as req = [] \<or> rs_commands req = []")
  case True
  then show ?thesis using assms(1) by (auto simp: serve_simulate_def)
next
  case False
  have tok: "token_for St H = StaticToken t"
    using assms(2,3) by (simp add: token_for_def strip_prefix_append del: append.simps)
  show ?thesis
  proof (cases "new_client (cf_ledger (st_cfg St)) (token_for St H)")
    case (Inl e)
    then show ?thesis using assms(1) False by (auto simp: serve_simulate_def)
  next
    case (Inr c)
    let ?S = "with_default_user_id (new_simulator c (st_schedule St)) (cf_user_id (st_cfg St))"
    obtain rp where run: "simulate W L D ?S fid req log = Some (rp, log')"
      using assms(1) False Inr by (auto simp: serve_simulate_def)
    have "read_token W (lc_token (sm_client ?S)) = Ok (some_text t)"
      using new_client_token [OF Inr] by (simp add: tok read_token_def with_default_user_id_def new_simulator_def)
    from simulate_bearer [OF run this] show ?thesis
      using False by (auto simp: with_default_user_id_def new_simulator_def)
  qed
qed

definition sample_state :: "int ServerState" where
  "sample_state =
     \<lparr>st_cfg = \<lparr>cf_listen = ''l'', cf_ledger = ''http://p'', cf_token = Some ''server-token'', cf_token_file = None,
        cf_user_id = None, cf_scan = None, cf_forward_auth = True, cf_cors_origins = []\<rparr>,
      st_schedule = free_schedule\<rparr>"

definition sample_headers :: headers where
  "sample_headers = \<lparr>hd_authorization = Some ''Bearer mine'', hd_accept = None\<rparr>"

text \<open>A network without an answer ends every run.\<close>

definition down :: world where "down = plain_world (\<lambda>_. None) (NoAnswer ''refused'')"

lemma simulate_down:
  assumes "\<forall>log rq. w_network W log rq = NoAnswer src" "lc_token (sm_client S) = StaticToken t"
  shows "simulate W L D S fid req log =
    Some ((empty_report S req (command_id_of req fid))\<lparr>rp_caveats :=
        [CouldNotRun (TransportFailure (lc_base_url (sm_client S) @ PREPARE_PATH) src)]\<rparr>,
      prepare_request W S fid req (some_text t) # log)"
proof -
  from assms have "prepare_call W (sm_client S) (build_prepare_body S req (command_id_of req fid)) log =
      Some (Err (TransportFailure (lc_base_url (sm_client S) @ PREPARE_PATH) src),
        prepare_request W S fid req (some_text t) # log)"
    by (simp add: prepare_call_unfold read_token_def)
  then show ?thesis
    by (simp add: simulate_def command_id_of_def [symmetric] empty_report_def)
qed

lemma no_answer: "w_network (plain_world parse (NoAnswer src)) log rq = NoAnswer src"
  by (simp add: plain_world_def)

theorem caller_token_only_witness:
  "\<exists>ans log'. serve_simulate down empty_wire int_decimals quoting_env sample_state ''id'' sample_headers
       (sample_request\<lparr>rs_commands := [JNull]\<rparr>) [] = Some (ans, log') \<and> log' \<noteq> [] \<and>
     (\<forall>rq \<in> set log'. rq_bearer rq = Some ''mine'')"
proof -
  let ?req = "sample_request\<lparr>rs_commands := [JNull]\<rparr>"
  have plain: "trim ''http://p'' = ''http://p''" "trim ''mine'' = ''mine''"
    by (rule trim_plain, simp add: plain_char_def)+
  have tok: "token_for sample_state sample_headers = StaticToken ''mine''"
    using strip_prefix_append [of "''Bearer ''" "''mine''"]
    by (simp add: token_for_def sample_state_def sample_headers_def)
  then obtain c where c: "new_client (cf_ledger (st_cfg sample_state)) (token_for sample_state sample_headers) = Ok c"
    by (simp add: new_client_def sample_state_def plain(1) trim_end_slash_def Let_def)
  let ?S = "with_default_user_id (new_simulator c (st_schedule sample_state)) (cf_user_id (st_cfg sample_state))"
  have "lc_token (sm_client ?S) = StaticToken ''mine''"
    using new_client_token [OF c] tok by (simp add: with_default_user_id_def new_simulator_def)
  from simulate_down [OF _ this, of down] obtain rp rq where
    "simulate down empty_wire int_decimals ?S ''id'' ?req [] = Some (rp, [rq])"
    unfolding down_def using no_answer by blast
  with c obtain ans where run: "serve_simulate down empty_wire int_decimals quoting_env sample_state ''id'' sample_headers ?req [] =
      Some (ans, [rq])"
    by (simp add: serve_simulate_def sample_request_def)
  have "hd_authorization sample_headers = Some (''Bearer '' @ ''mine'')" "cf_forward_auth (st_cfg sample_state)"
    by (simp_all add: sample_headers_def sample_state_def)
  from caller_token_only [OF run this(2,1)] have "\<forall>q \<in> set [rq]. rq_bearer q = Some ''mine''"
    by (simp add: some_text_def plain(2))
  with run show ?thesis by blast
qed

subsection \<open>The command line\<close>

text \<open>
  C33. With the flag that fails on a rejection, the exit code of a run says what the participant answered: 0
  exactly when it answered the prepare request with a prepared transaction and the report was
  printed, 2 exactly when it did not, and 101 exactly when the run panicked, in the simulation or, for
  a prepared transaction whose report has no text, before the exit code was chosen. So the flag also exits 2
  when the simulation is inconclusive, because the participant could not be reached, although its help
  text reserves that code for a command that would fail.
\<close>

theorem exit_zero_means_prepared:
  assumes "cli_setup W D K de A log = Some (Inr (S, req), log0)" "sa_fail_on_reject A"
  shows "exit_status (cli_simulate W L D E K de fid A log) =
    (case simulate W L D S fid req log0 of
       None \<Rightarrow> 101
     | Some (rp, log') \<Rightarrow>
         if \<nexists>status t resp. answered W S fid req log0 status t \<and> is_success status \<and> prepared_by W S t resp then 2
         else if sa_json A \<or> report_to_text E rp \<noteq> None then 0 else 101)"
proof (cases "simulate W L D S fid req log0")
  case None
  then show ?thesis using assms(1) by (simp add: cli_simulate_def exit_status_def)
next
  case (Some run)
  then obtain rp log' where run: "simulate W L D S fid req log0 = Some (rp, log')" by (cases run) simp
  have prepared: "(\<exists>status t resp. answered W S fid req log0 status t \<and> is_success status \<and> prepared_by W S t resp) \<longleftrightarrow>
      rp_outcome rp = WouldSucceed"
    using outcome_succeeds [OF run] by blast
  have "rp_outcome rp = WouldSucceed \<or> report_to_text E rp \<noteq> None"
    using unsuccessful_printable [OF run] by (auto simp: report_text_defined)
  then show ?thesis
    unfolding run option.case prod.case prepared
    using assms run by (auto simp: cli_simulate_def exit_status_def print_report_def)
qed

definition sample_console :: console where
  "sample_console = \<lparr>cs_stdin = Ok ''[]'', cs_exists = (\<lambda>_. False)\<rparr>"

text \<open>Decimals on which every literal of the defaults parses.\<close>

definition zero_decimals :: "int decimals" where
  "zero_decimals = int_decimals\<lparr>d_parse := (\<lambda>_. Some 0)\<rparr>"

definition sample_simulate :: "int SimulateArgs" where
  "sample_simulate =
     \<lparr>sa_ledger = \<lparr>la_ledger = ''http://p'', la_token = Some ''t'', la_token_file = None, la_user_id = None\<rparr>,
      sa_pricing = \<lparr>pa_scan = None, pa_traffic_usd_per_mb = None, pa_cc_usd = None\<rparr>,
      sa_act_as = [''alice''], sa_read_as = [], sa_synchronizer_id = None, sa_command_id = None,
      sa_commands = ''-'', sa_no_lookup = False, sa_no_arguments = False, sa_include_prepared = False,
      sa_json = False, sa_fail_on_reject = True\<rparr>"

definition down_with_input :: world where
  "down_with_input = plain_world (\<lambda>_. Some (JArray [])) (NoAnswer ''refused'')"

lemma sample_setup:
  "\<exists>S req. cli_setup down_with_input zero_decimals sample_console (\<lambda>_. None) sample_simulate [] = Some (Inr (S, req), []) \<and>
     lc_token (sm_client S) = StaticToken ''t''"
proof -
  have plain: "trim ''http://p'' = ''http://p''" by (rule trim_plain) (simp add: plain_char_def)
  obtain s where "splice_defaults zero_decimals = Some s"
    by (simp add: splice_defaults_def traffic_defaults_def amulet_defaults_def zero_decimals_def int_decimals_def)
  then obtain s' where "cli_schedule down_with_input zero_decimals (sa_pricing sample_simulate) [] = Some (Ok s', [])"
    by (simp add: cli_schedule_def sample_simulate_def Let_def)
  moreover have "cli_input down_with_input sample_console (sa_commands sample_simulate) = Ok ''[]''"
    by (simp add: cli_input_def sample_console_def sample_simulate_def)
  moreover have "parse_commands_input down_with_input (\<lambda>_. None) ''[]'' = Ok ([], None)"
    by (simp add: parse_commands_input_def down_with_input_def plain_world_def)
  moreover have "\<exists>c. cli_client (sa_ledger sample_simulate) = Ok c \<and> lc_token c = StaticToken ''t''"
    by (simp add: cli_client_def sample_simulate_def new_client_def plain token_source_def trim_end_slash_def Let_def)
  ultimately show ?thesis
    by (auto simp: cli_setup_def with_default_user_id_def new_simulator_def)
qed

theorem exit_zero_means_prepared_witness:
  "exit_status (cli_simulate down_with_input empty_wire zero_decimals quoting_env sample_console (\<lambda>_. None) ''id''
     sample_simulate []) = 2 \<and>
   (\<exists>S req rp log'. cli_setup down_with_input zero_decimals sample_console (\<lambda>_. None) sample_simulate [] = Some (Inr (S, req), []) \<and>
     simulate down_with_input empty_wire zero_decimals S ''id'' req [] = Some (rp, log') \<and> rp_outcome rp = Inconclusive)"
proof -
  let ?W = down_with_input
  obtain S req where ready: "cli_setup ?W zero_decimals sample_console (\<lambda>_. None) sample_simulate [] = Some (Inr (S, req), [])"
    and tok: "lc_token (sm_client S) = StaticToken ''t''"
    using sample_setup by blast
  have down: "\<forall>log rq. w_network ?W log rq = NoAnswer ''refused''"
    by (simp add: down_with_input_def no_answer)
  from simulate_down [OF this tok] obtain rp log' where
    run: "simulate ?W empty_wire zero_decimals S ''id'' req [] = Some (rp, log')" "rp_outcome rp = Inconclusive"
    by (simp add: empty_report_def)
  have "\<not> answered ?W S ''id'' req [] status t" for status t by (simp add: answered_def down)
  moreover have "sa_fail_on_reject sample_simulate" by (simp add: sample_simulate_def)
  ultimately have "exit_status (cli_simulate ?W empty_wire zero_decimals quoting_env sample_console (\<lambda>_. None) ''id''
      sample_simulate []) = 2"
    using exit_zero_means_prepared [OF ready] run(1) by simp
  with ready run show ?thesis by blast
qed

end
