(* ===== verification/Messages.thy ===== *)
theory Messages
  imports Pack Anchor Manifest_Diff
begin

text \<open>
  The texts of failures: \<open>Display\<close> of the failures of the library (\<open>verify.rs\<close>,
  \<open>pack.rs\<close>, \<open>anchor.rs\<close>, \<open>sign.rs\<close>) and the format strings behind the symbolic
  \<open>detail\<close>s. How a string is quoted by \<open>{:?}\<close> depends on tables of Unicode, so it is the
  argument \<open>dbg\<close>.
\<close>

definition section_sign :: string where "section_sign = [CHR 0xC2, CHR 0xA7]"

definition show_u64 :: "u64 \<Rightarrow> string" where "show_u64 w = show_nat (unat w)"

subsection \<open>The merkle crate and the signatures\<close>

definition merkle_text :: "(string \<Rightarrow> string) \<Rightarrow> merkle_error \<Rightarrow> string" where
  "merkle_text dbg e = (case e of
     MissingIntegerPart s \<Rightarrow> ''amount '' @ dbg s @ '' missing integer part''
   | BareDecimalPoint s \<Rightarrow> ''amount '' @ dbg s @ '' has a bare decimal point''
   | TooManyDecimals s \<Rightarrow> ''amount '' @ dbg s @ '' exceeds 18 decimal places''
   | NotADecimal s \<Rightarrow> ''amount '' @ dbg s @ '' is not a non-negative decimal''
   | ParseIntError \<Rightarrow> ''number too large to fit in target type''
   | AmountOverflows s \<Rightarrow> ''amount '' @ dbg s @ '' overflows''
   | DuplicateAsset a \<Rightarrow> ''duplicate asset '' @ dbg a @ '' in balance set''
   | UnsafeMapName m \<Rightarrow> ''unsafe map name '' @ dbg m
   | UnsafeAssetName a \<Rightarrow> ''unsafe asset name '' @ dbg a
   | SumOverflow a \<Rightarrow> ''sum overflow on asset '' @ dbg a
   | NoLeaves \<Rightarrow> ''cannot build a tree with no leaves''
   | LeafIndexOutOfRange i \<Rightarrow> ''leaf index '' @ show_nat i @ '' out of range'')"

definition signature_text :: "signature_error \<Rightarrow> string" where
  "signature_text e = (case e of
     MalformedPublicKey \<Rightarrow> ''public key is not 32 bytes of hex''
   | MalformedSignature \<Rightarrow> ''signature is not 64 bytes of hex''
   | BadSignatureUnderKey \<Rightarrow> ''signature does not verify under this key'')"

subsection \<open>Details\<close>

text \<open>The derived \<open>Debug\<close>: the name of the constructor.\<close>

definition leaf_kind_debug :: "leaf_kind \<Rightarrow> string" where
  "leaf_kind_debug k = (case k of
     Customer \<Rightarrow> ''Customer''
   | Entity \<Rightarrow> ''Entity''
   | RepoLeg \<Rightarrow> ''RepoLeg''
   | Shareholder \<Rightarrow> ''Shareholder''
   | SettledTrade \<Rightarrow> ''SettledTrade''
   | AttestedHolder \<Rightarrow> ''AttestedHolder''
   | CustodyPosition \<Rightarrow> ''CustodyPosition'')"

definition violation_text :: "violation \<Rightarrow> string" where
  "violation_text v = (case v of
     UncheckableAggregate other \<Rightarrow> ''registry names an aggregate the verifier cannot check: '' @ other
   | MissingAggregate aggregate \<Rightarrow>
       aggregate @ '' is required by this profile but the report carries none, so the statement would be vacuous''
   | NotCovering cover_map got owed_map required asset \<Rightarrow>
       cover_map @ '' of '' @ format_amount_18dp got @ '' does not cover '' @ owed_map @ '' of '' @
       format_amount_18dp required @ '' for '' @ asset
   | NotUnanimous key amount number rule expected \<Rightarrow>
       key @ '' totals '' @ format_amount_18dp amount @ '' across '' @ show_u64 number @
       '' leaves; the profile asserts every leaf satisfies '' @ rule @ '', which requires '' @
       format_amount_18dp expected)"

fun detail_text :: "(string \<Rightarrow> string) \<Rightarrow> detail \<Rightarrow> string" where
  "detail_text dbg (NotHex32 what) = what @ '' is not 32 bytes of hex''"
| "detail_text dbg (MerkleText e) = merkle_text dbg e"
| "detail_text dbg (SignatureText e) = signature_text e"
| "detail_text dbg (SumOverflowOn asset) = ''sum overflow on asset '' @ dbg asset"
| "detail_text dbg (UnsubstantiableField field) =
     ''assurance statement declares a level for '' @ dbg field @
     '', which this verifier has no way to substantiate''"
| "detail_text dbg (NotTimestamps s t) =
     ''a snapshot_time is not a '' @ section_sign @ ''18.1 timestamp: '' @ dbg s @ '' and '' @ dbg t"
| "detail_text dbg (NotInRegistry found) = ''profile '' @ dbg found @ '' is not in the registry''"
| "detail_text dbg (ProfileViolated name v) = ''profile '' @ name @ '': '' @ violation_text v"
| "detail_text dbg (WrongLeafKind name k wanted) =
     ''profile '' @ name @ '' commits to '' @ leaf_kind_debug k @ '' leaves; this proof is for '' @
     leaf_kind_debug wanted @ '' leaves''"
| "detail_text dbg (NotAV2Leaf name k) =
     ''profile '' @ name @ '' commits to '' @ leaf_kind_debug k @ '' leaves; this is a v2 leaf proof''"
| "detail_text dbg (LeafLacksMap name required subj) =
     ''profile '' @ name @ '' requires every leaf to carry a non-empty '' @ required @ '' map; '' @ subj @
     '' does not''"
| "detail_text dbg (ExpectedProfile wanted found) =
     ''expected a '' @ wanted @ '' report here, got '' @ dbg found"
| "detail_text dbg V1CarriesManifest =
     ''a v1 report cannot carry a manifest; the v1 digest does not cover it''"
| "detail_text dbg V2WithoutManifest = ''a v2 report must carry a disclosure manifest''"
| "detail_text dbg NotAFieldOfTheFormat = ''not a field this format defines''"
| "detail_text dbg PublishedWithoutData = ''declared published but the report carries no data for it''"
| "detail_text dbg (PublishesAnyway state) =
     ''declared '' @ disclosure_as_str state @ '' but the report publishes it anyway''"
| "detail_text dbg (DuplicateSourceId i) = ''two sources share the id '' @ dbg i"
| "detail_text dbg (OffLedgerWithoutBasis i) =
     ''off-ledger source '' @ dbg i @ '' declares no basis; nothing else here says how that figure arrives''"
| "detail_text dbg DerivedTwice = ''declared twice; a field has one derivation''"
| "detail_text dbg NamesNoSources =
     ''names no sources, so it says nothing about where the figure came from''"
| "detail_text dbg (UndeclaredSource i) = ''names source '' @ dbg i @ '', which the graph does not declare''"
| "detail_text dbg NoDerivation =
     ''declared ledger-derived, and the provenance graph does not say where it came from''"
| "detail_text dbg OnlyOffLedger =
     ''declared ledger-derived, but every source the graph names for it is off-ledger''"
| "detail_text dbg (Apart custody liabilities apart allowed) =
     ''custody is as of '' @ custody @ '' and liabilities as of '' @ liabilities @ '', '' @ show_nat apart @
     ''s apart, beyond the '' @ show_u64 allowed @ ''s the caller allows''"

subsection \<open>Failures\<close>

definition failure_text :: "(string \<Rightarrow> string) \<Rightarrow> verification_failure \<Rightarrow> string" where
  "failure_text dbg e = (case e of
     UnsupportedVersion field found \<Rightarrow> ''unsupported '' @ field @ '': '' @ dbg found
   | DigestMismatch \<Rightarrow> ''proof belongs to a different report''
   | UnknownSigner \<Rightarrow> ''report is not signed by the trusted key''
   | BadSignature \<Rightarrow> ''report signature does not verify''
   | RootHashMismatch \<Rightarrow> ''proof does not fold to the published root''
   | RootSumsMismatch asset \<Rightarrow> ''published total for '' @ asset @ '' disagrees with the committed leaves''
   | EntityRootMismatch \<Rightarrow> ''the group membership and the entity report describe different roots''
   | EntitySumsMismatch asset \<Rightarrow>
       ''the group membership and the entity report disagree on the '' @ asset @ '' total''
   | Profile what \<Rightarrow> detail_text dbg what
   | ManifestPresence what \<Rightarrow> detail_text dbg what
   | ManifestInconsistent path what \<Rightarrow>
       ''manifest disagrees with the report about '' @ path @ '': '' @ detail_text dbg what
   | OverClaimed field declared found \<Rightarrow>
       field @ '' is declared '' @ level_as_str declared @ '', but the evidence supplied supports '' @
       (if found = [] then ''nothing'' else join '', '' (map level_as_str found))
   | ProvenanceInconsistent field what \<Rightarrow>
       (if field = [] then ''provenance graph: '' @ detail_text dbg what
        else ''provenance graph, '' @ field @ '': '' @ detail_text dbg what)
   | TemporalMismatch what \<Rightarrow> detail_text dbg what
   | Malformed what \<Rightarrow> ''malformed document: '' @ detail_text dbg what)"

definition pack_failure_text :: "(string \<Rightarrow> string) \<Rightarrow> pack_failure \<Rightarrow> string" where
  "pack_failure_text dbg e = (case e of
     PackUnsupportedVersion found \<Rightarrow> ''unsupported pack format version '' @ dbg found
   | DuplicateEntry name \<Rightarrow> name @ '' appears twice in the pack''
   | UnsafeName name \<Rightarrow> dbg name @ '' is not a plain file name''
   | Missing name \<Rightarrow> ''the pack names '' @ name @ '', which is not present''
   | Altered name \<Rightarrow> name @ '' does not match the digest the pack pins''
   | Unlisted name \<Rightarrow> name @ '' is present but the pack does not name it''
   | PackReportMismatch \<Rightarrow> ''the pack is evidence for a different report''
   | PackUnknownSigner \<Rightarrow> ''the pack is not signed by the trusted key''
   | PackBadSignature \<Rightarrow> ''the pack signature does not verify'')"

definition chain_failure_text :: "(string \<Rightarrow> string) \<Rightarrow> chain_failure \<Rightarrow> string" where
  "chain_failure_text dbg e = (case e of
     NotGenesis \<Rightarrow> ''the first anchor names a predecessor, so this history is incomplete''
   | Broken index \<Rightarrow> ''anchor '' @ show_nat index @ '' does not name the one before it''
   | WentBackwards index field \<Rightarrow>
       ''anchor '' @ show_nat index @ '' moves '' @ field @ '' backwards, which restates history''
   | PublisherChanged index \<Rightarrow> ''anchor '' @ show_nat index @ '' is from a different publisher''
   | ChainVersion index found \<Rightarrow>
       ''anchor '' @ show_nat index @ '' uses unsupported version '' @ dbg found
   | ReportMismatch index \<Rightarrow>
       ''anchor '' @ show_nat index @ '' describes a different report than the one supplied'')"

end
