(* ===== verification/Render.thy ===== *)
theory Render
  imports Cli_Verbs Messages
begin

text \<open>
  What \<open>canton-solvency-verify\<close> prints: \<open>output.rs\<close> and the rendering in
  \<open>provenance.rs\<close> of \<open>solvency-cli/src\<close>, and \<open>main.rs\<close> with its output. A JSON rendering
  is the value that \<open>to_string_pretty\<close> prints. Theorems about both are in
  \<open>Output_Properties\<close>.
\<close>

definition json_usize :: "nat \<Rightarrow> json" where "json_usize n = JNumber (show_nat n)"

definition json_option :: "string option \<Rightarrow> json" where
  "json_option s = (case s of None \<Rightarrow> JNull | Some t \<Rightarrow> JString t)"

subsection \<open>Proofs\<close>

definition failed_line :: "(string \<Rightarrow> string) \<Rightarrow> ProofOutcome \<Rightarrow> string" where
  "failed_line dbg x = ''FAILED '' @ out_path x @ '' ('' @ subject x @ ''): '' @
     (case out_failure x of None \<Rightarrow> [] | Some e \<Rightarrow> failure_text dbg e) @ nl"

definition render_text :: "(string \<Rightarrow> string) \<Rightarrow> Summary \<Rightarrow> string" where
  "render_text dbg s =
     ''report digest : '' @ sum_report_digest s @ nl @
     (case sum_statement s of None \<Rightarrow> [] | Some t \<Rightarrow> ''asserts       : '' @ t @ nl) @
     (if outcomes s = [] then []
      else concat (map (failed_line dbg) (filter (\<lambda>x. out_failure x \<noteq> None) (outcomes s))) @
        show_nat (passed s) @ '' of '' @ show_nat (length (outcomes s)) @ '' proofs verified'' @
        (if all_passed s then [] else '' '' @ em_dash @ '' FAILED'') @ nl)"

definition json_outcome :: "(string \<Rightarrow> string) \<Rightarrow> ProofOutcome \<Rightarrow> json" where
  "json_outcome dbg x = json_object
     [(''path'', JString (out_path x)), (''subject'', JString (subject x)),
      (''ok'', JBool (out_failure x = None)), (''failure'', json_option (map_option (failure_text dbg) (out_failure x)))]"

definition render_json :: "(string \<Rightarrow> string) \<Rightarrow> Summary \<Rightarrow> json" where
  "render_json dbg s = json_object
     [(''ok'', JBool (all_passed s)), (''report_digest'', JString (sum_report_digest s)),
      (''statement'', json_option (sum_statement s)), (''checked'', json_usize (length (outcomes s))),
      (''passed'', json_usize (passed s)), (''proofs'', JArray (map (json_outcome dbg) (outcomes s)))]"

definition render_pack_text :: "(string \<Rightarrow> string) \<Rightarrow> PackSummary \<Rightarrow> string" where
  "render_pack_text dbg s =
     ''publisher     : '' @ ps_publisher s @ nl @ ''snapshot      : '' @ ps_snapshot_time s @ nl @
     ''report digest : '' @ ps_report_digest s @ nl @ ''pack members  : '' @ show_nat (ps_members s) @ nl @
     (case index_failure s of
        Some failure \<Rightarrow> ''DELIVERY      : '' @ pack_failure_text dbg failure @ nl @
          ''contents were not verified: the delivery is not the one signed'' @ nl
      | None \<Rightarrow> ''delivery      : complete and unaltered'' @ nl @
          (case contents s of None \<Rightarrow> [] | Some c \<Rightarrow> render_text dbg c))"

definition render_pack_json :: "(string \<Rightarrow> string) \<Rightarrow> PackSummary \<Rightarrow> json" where
  "render_pack_json dbg s = json_object
     [(''ok'', JBool (pack_all_passed s)), (''publisher'', JString (ps_publisher s)),
      (''snapshot_time'', JString (ps_snapshot_time s)), (''report_digest'', JString (ps_report_digest s)),
      (''members'', json_usize (ps_members s)),
      (''delivery_failure'', json_option (map_option (pack_failure_text dbg) (index_failure s))),
      (''contents'', case contents s of None \<Rightarrow> JNull | Some c \<Rightarrow> render_json dbg c)]"

subsection \<open>Manifest changes\<close>

definition describe :: "ManifestChange \<Rightarrow> string" where
  "describe ch = (case ch of
     Added path state \<Rightarrow> ''+ '' @ path @ '': now '' @ disclosure_as_str state
   | Removed path was \<Rightarrow> ''- '' @ path @ '': was '' @ disclosure_as_str was @ '', no longer declared''
   | Changed path from to \<Rightarrow> ''~ '' @ path @ '': '' @ disclosure_as_str from @ '' -> '' @ disclosure_as_str to)"

definition render_diff_text :: "ManifestChange list \<Rightarrow> string" where
  "render_diff_text changes =
     (if changes = [] then ''no change to the disclosure manifest'' @ nl
      else concat (map (\<lambda>ch. (if is_reduction ch then ''  REDUCED '' else ''          '') @ describe ch @ nl) changes) @
        show_nat (length changes) @ '' change(s), '' @ show_nat (length (reductions changes)) @
        '' reducing disclosure'' @ nl)"

definition render_diff_json :: "ManifestChange list \<Rightarrow> json" where
  "render_diff_json changes = json_object
     [(''ok'', JBool (\<not> has_reductions changes)),
      (''changes'', JArray (map (\<lambda>ch. json_object
         [(''path'', JString (change_path ch)), (''description'', JString (describe ch)),
          (''reduction'', JBool (is_reduction ch))]) changes)),
      (''reductions'', json_usize (length (reductions changes)))]"

subsection \<open>Coverage\<close>

definition short_line :: "AssetCoverage \<Rightarrow> string" where
  "short_line a = ''SHORT '' @ cov_asset a @ '': holds '' @ format_amount_18dp (held a) @ '' against '' @
     format_amount_18dp (owed a) @ '' owed, '' @ format_amount_18dp (shortfall a) @ '' missing'' @ nl"

definition custody_note :: string where
  "custody_note =
     ''custody figures: claimed-only '' @ em_dash @ '' signed by the publisher, and nothing here'' @ nl @
     ''establishes that the assets exist. Use `assurance` with an attestation or'' @ nl @
     ''an anchor to establish more (SPEC '' @ section_sign @ ''16).'' @ nl"

definition render_coverage_text :: "(string \<Rightarrow> string) \<Rightarrow> CoverageRun \<Rightarrow> string" where
  "render_coverage_text dbg r = (case cov_outcome r of
     None \<Rightarrow> ''REFUSED: '' @ (case cov_failure r of Some e \<Rightarrow> failure_text dbg e
       | None \<Rightarrow> ''the coverage check refused this pairing'') @ nl
   | Some out \<Rightarrow>
       concat (map short_line (shortfalls out)) @
       show_nat (length (assets out) - length (shortfalls out)) @ '' of '' @ show_nat (length (assets out)) @
       '' assets covered'' @ (if fully_covered out then [] else '' '' @ em_dash @ '' NOT COVERED'') @ nl @
       custody_note)"

definition render_coverage_json :: "(string \<Rightarrow> string) \<Rightarrow> CoverageRun \<Rightarrow> json" where
  "render_coverage_json dbg r = (case cov_outcome r of
     None \<Rightarrow> json_object [(''ok'', JBool False), (''failure'', json_option (map_option (failure_text dbg) (cov_failure r)))]
   | Some out \<Rightarrow> json_object
       [(''ok'', JBool (fully_covered out)),
        (''assets'', JArray (map (\<lambda>a. json_object
           [(''asset'', JString (cov_asset a)), (''held'', JString (format_amount_18dp (held a))),
            (''owed'', JString (format_amount_18dp (owed a))), (''covered'', JBool (asset_covered a)),
            (''shortfall'', JString (format_amount_18dp (shortfall a)))]) (assets out)))])"

subsection \<open>Recomputation and histories\<close>

definition render_recompute_text :: "RecomputeOutcome \<Rightarrow> string" where
  "render_recompute_text out =
     ''leaves rebuilt: '' @ show_nat (rc_leaves out) @ nl @ ''published root: '' @ published_root out @ nl @
     ''recomputed    : '' @ recomputed_root out @ nl @
     concat (map (\<lambda>asset. ''DISAGREES     : '' @ asset @ nl) (disagreeing_assets out)) @
     (if recompute_matches out then ''the dump reproduces the published commitment''
      else ''the dump does NOT reproduce the published commitment'') @ nl"

definition render_recompute_json :: "RecomputeOutcome \<Rightarrow> json" where
  "render_recompute_json out = json_object
     [(''ok'', JBool (recompute_matches out)), (''leaves'', json_usize (rc_leaves out)),
      (''published_root'', JString (published_root out)), (''recomputed_root'', JString (recomputed_root out)),
      (''disagreeing_assets'', JArray (map JString (disagreeing_assets out)))]"

definition render_chain_text :: "(string \<Rightarrow> string) \<Rightarrow> ChainSummary \<Rightarrow> string" where
  "render_chain_text dbg s =
     ''publisher     : '' @ chain_publisher s @ nl @ ''history       : '' @ show_nat (chain_anchors s) @
     '' anchors, '' @ chain_first s @ '' to '' @ chain_last s @ nl @
     (case chain_broken s of
        Some failure \<Rightarrow> ''BROKEN        : '' @ chain_failure_text dbg failure @ nl
      | None \<Rightarrow> ''history intact'' @ nl)"

definition render_chain_json :: "(string \<Rightarrow> string) \<Rightarrow> ChainSummary \<Rightarrow> json" where
  "render_chain_json dbg s = json_object
     [(''ok'', JBool (intact s)), (''publisher'', JString (chain_publisher s)),
      (''anchors'', json_usize (chain_anchors s)), (''first'', JString (chain_first s)),
      (''last'', JString (chain_last s)),
      (''failure'', json_option (map_option (chain_failure_text dbg) (chain_broken s)))]"

subsection \<open>Assurance levels\<close>

definition assurance_line :: "AssuranceOutcome \<Rightarrow> string \<times> assurance_level list \<Rightarrow> string" where
  "assurance_line out = (\<lambda>(field, ls). ''  '' @ pad_to 38 field @ '' '' @
     (case strongest ls of Some l \<Rightarrow> level_as_str l | None \<Rightarrow> ''nothing'') @
     (case bget (accepted out) field of Some l \<Rightarrow> '' (declared '' @ level_as_str l @ '')'' | None \<Rightarrow> []) @ nl)"

definition render_assurance_text :: "(string \<Rightarrow> string) \<Rightarrow> AssuranceOutcome \<Rightarrow> string" where
  "render_assurance_text dbg out =
     concat (map (assurance_line out) (entries (established out))) @
     (case ao_failure out of
        Some reason \<Rightarrow> ''OVER-CLAIMED: '' @ failure_text dbg reason @ nl
      | None \<Rightarrow>
          if bis_empty (accepted out)
          then ''no levels declared '' @ em_dash @ '' every figure above rests on what is shown, and nothing more'' @ nl
          else ''every declared level is supported by the evidence supplied'' @ nl)"

definition render_assurance_json :: "(string \<Rightarrow> string) \<Rightarrow> AssuranceOutcome \<Rightarrow> json" where
  "render_assurance_json dbg out = json_object
     [(''ok'', JBool (ao_failure out = None)),
      (''established'', json_object (map (\<lambda>(field, ls). (field, JArray (map (\<lambda>l. JString (level_as_str l)) ls)))
         (entries (established out)))),
      (''accepted'', json_object (map (\<lambda>(f, l). (f, JString (level_as_str l))) (entries (accepted out)))),
      (''failure'', json_option (map_option (failure_text dbg) (ao_failure out)))]"

subsection \<open>Provenance\<close>

text \<open>The characters a tree is drawn with.\<close>

definition corner :: string where "corner = [CHR 0xE2, CHR 0x94, CHR 0x94, CHR 0xE2, CHR 0x94, CHR 0x80]"
definition tee :: string where "tee = [CHR 0xE2, CHR 0x94, CHR 0x9C, CHR 0xE2, CHR 0x94, CHR 0x80]"
definition bar :: string where "bar = [CHR 0xE2, CHR 0x94, CHR 0x82]"

definition sources_by_id :: "Provenance \<Rightarrow> Source bmap" where
  "sources_by_id p = bof_list (map (\<lambda>s. (source_id s, s)) (sources p))"

definition declared_line :: "bool \<Rightarrow> Source \<Rightarrow> string" where
  "declared_line final src =
     ''  '' @ (if final then corner else tee) @ '' ['' @
     (if on_ledger (kind src) then ''on-ledger '' else ''OFF-LEDGER'') @ ''] '' @
     pad_to 14 (source_kind_str (kind src)) @ '' '' @ source_name src @ nl @
     (case basis src of
        Some b \<Rightarrow> (if final then ''     '' else ''  '' @ bar @ ''  '') @ ''    '' @ b @ nl
      | None \<Rightarrow> [])"

definition source_line :: "Source bmap \<Rightarrow> bool \<Rightarrow> string \<Rightarrow> string" where
  "source_line by_id final i = (case bget by_id i of
     Some src \<Rightarrow> declared_line final src
   | None \<Rightarrow> ''  '' @ (if final then corner else tee) @ '' [UNDECLARED] '' @ i @ nl)"

definition derivation_block :: "Source bmap \<Rightarrow> Derivation \<Rightarrow> string" where
  "derivation_block by_id d =
     derived_field d @ nl @ ''  method: '' @ derivation_method d @ nl @
     concat (map (\<lambda>(i, src). source_line by_id (i = length (derived_from d) - 1) src)
       (List.enumerate 0 (derived_from d))) @ nl"

definition unnamed_fields :: "Provenance \<Rightarrow> string list" where
  "unnamed_fields p = filter (\<lambda>f. \<not> list_ex (\<lambda>d. derived_field d = f) (derivations p)) REPORT_RESIDENT_FIELDS"

definition render_provenance_text :: "(string \<Rightarrow> string) \<Rightarrow> ProvenanceOutcome \<Rightarrow> string" where
  "render_provenance_text dbg out =
     (let p = provenance (graph out) in
      concat (map (derivation_block (sources_by_id p)) (derivations p)) @
      (if unnamed_fields p = [] then [] else ''no provenance declared for: '' @ join '', '' (unnamed_fields p) @ nl) @
      (case po_failure out of
         Some reason \<Rightarrow> ''REFUSED: '' @ failure_text dbg reason @ nl
       | None \<Rightarrow>
           if checked_against_levels out
           then ''graph verified, and consistent with the declared assurance levels'' @ nl
           else ''graph verified '' @ em_dash @ '' supply --assurance to check it against declared levels ('' @
             section_sign @ ''17.4)'' @ nl))"

definition json_source :: "Source \<Rightarrow> json" where
  "json_source s = json_object
     [(''id'', JString (source_id s)), (''kind'', JString (source_kind_str (kind s))),
      (''on_ledger'', JBool (on_ledger (kind s))), (''name'', JString (source_name s)),
      (''basis'', json_option (basis s))]"

text \<open>The derived serialiser.\<close>

definition json_derivation :: "Derivation \<Rightarrow> json" where
  "json_derivation d = json_object
     [(''field'', JString (derived_field d)), (''sources'', JArray (map JString (derived_from d))),
      (''method'', JString (derivation_method d))]"

definition render_provenance_json :: "(string \<Rightarrow> string) \<Rightarrow> ProvenanceOutcome \<Rightarrow> json" where
  "render_provenance_json dbg out =
     (let p = provenance (graph out) in json_object
       [(''ok'', JBool (po_failure out = None)), (''report_digest'', JString (prov_report_digest p)),
        (''sources'', JArray (map json_source (sources p))),
        (''derivations'', JArray (map json_derivation (derivations p))),
        (''checked_against_levels'', JBool (checked_against_levels out)),
        (''failure'', json_option (map_option (failure_text dbg) (po_failure out)))])"

subsection \<open>\<open>main\<close>\<close>

text \<open>What a run prints: usage, the version, an outcome as text or as JSON with a line feed, or an error
  on the other stream.\<close>

datatype printed =
    PrintsUsage
  | PrintsVersion
  | PrintsText string
  | PrintsJson json
  | PrintsUsageError usage_error
  | PrintsRunError run_error

definition verb_output :: "bool \<Rightarrow> ('a \<Rightarrow> json) \<Rightarrow> ('a \<Rightarrow> string) \<Rightarrow> run_error + 'a \<Rightarrow> printed" where
  "verb_output as_json to_json as_text r = (case r of
     Inr out \<Rightarrow> if as_json then PrintsJson (to_json out) else PrintsText (as_text out)
   | Inl e \<Rightarrow> PrintsRunError e)"

definition wants_json :: "Command \<Rightarrow> bool" where
  "wants_json cmd = (case cmd of
     CmdVerify _ _ _ j \<Rightarrow> j | CmdVerifyGroup _ _ _ j \<Rightarrow> j | CmdVerifyChain _ _ _ _ _ _ j \<Rightarrow> j | _ \<Rightarrow> False)"

definition command_output :: "crates \<Rightarrow> decoders \<Rightarrow> filesystem \<Rightarrow> (string \<Rightarrow> string) \<Rightarrow> Command \<Rightarrow> printed" where
  "command_output C D F dbg cmd = (case cmd of
     CmdHelp \<Rightarrow> PrintsUsage
   | CmdVersion \<Rightarrow> PrintsVersion
   | CmdProvenance r p a k j \<Rightarrow>
       verb_output j (render_provenance_json dbg) (render_provenance_text dbg) (run_provenance C D F r p a k)
   | CmdAssurance r s p a t g attestors k j \<Rightarrow>
       verb_output j (render_assurance_json dbg) (render_assurance_text dbg)
         (run_assurance C D F r s p a t g attestors k)
   | CmdRecompute l r j \<Rightarrow> verb_output j render_recompute_json render_recompute_text (run_recompute C D F l r)
   | CmdVerifyPack d k j \<Rightarrow> verb_output j (render_pack_json dbg) (render_pack_text dbg) (run_pack C D F d k)
   | CmdAnchors c j \<Rightarrow> verb_output j (render_chain_json dbg) (render_chain_text dbg) (run_anchors C D F c)
   | CmdCoverage c l s k ck tol j \<Rightarrow>
       verb_output j (render_coverage_json dbg) (render_coverage_text dbg) (run_coverage C D F c l s k ck tol)
   | CmdManifestDiff p c j \<Rightarrow> verb_output j render_diff_json render_diff_text (run_diff D F p c)
   | _ \<Rightarrow> verb_output (wants_json cmd) (render_json dbg) (render_text dbg) (run C D F cmd))"

definition main_output :: "crates \<Rightarrow> decoders \<Rightarrow> filesystem \<Rightarrow> (string \<Rightarrow> string) \<Rightarrow> string list \<Rightarrow> printed" where
  "main_output C D F dbg argv = (case parse_args argv of
     Inl e \<Rightarrow> PrintsUsageError e
   | Inr cmd \<Rightarrow> command_output C D F dbg cmd)"

end
