(* ===== verification/Output_Properties.thy ===== *)
theory Output_Properties
  imports Render Cli_Properties
begin

text \<open>
  What the output of \<open>canton-solvency-verify\<close> says agrees with its exit code, for every verb; and
  what a verified provenance graph is printed as.
\<close>

subsection \<open>The verdict\<close>

lemma ok_first [simp]: "json_get ''ok'' (json_object ((''ok'', v) # kvs)) = Some v"
  if "''ok'' \<notin> fst ` set kvs"
proof -
  have "bget (fold (\<lambda>(k, v) m. binsert k v m) kvs m) ''ok'' = bget m ''ok''" for m
    using that by (induction kvs arbitrary: m) (auto simp: bget_binsert)
  then show ?thesis by (simp add: json_get_object bof_list_def bget_binsert)
qed

text \<open>A refused pairing has no outcome, so the verdict of the JSON is the one of the exit code.\<close>

lemma coverage_shapes:
  assumes "run_coverage C D F c l s k ck tol = Ok out"
  obtains out' where "out = \<lparr>cov_outcome = Some out', cov_failure = None\<rparr>"
  | e where "out = \<lparr>cov_outcome = None, cov_failure = Some e\<rparr>"
proof -
  obtain cr lr st where "(case verify_coverage C cr lr st ck k tol of
      Inr out \<Rightarrow> Ok \<lparr>cov_outcome = Some out, cov_failure = None\<rparr>
    | Inl e \<Rightarrow> Ok \<lparr>cov_outcome = None, cov_failure = Some e\<rparr>) = (Ok out :: run_error + CoverageRun)"
    using assms unfolding run_coverage_def and_then_eq_Ok by blast
  then show thesis using that by (cases "verify_coverage C cr lr st ck k tol") auto
qed

lemma coverage_json_ok:
  "run_coverage C D F c l s k ck tol = Ok out \<Longrightarrow>
     json_get ''ok'' (render_coverage_json dbg out) = Some (JBool (coverage_ok out))"
  using coverage_shapes by (fastforce simp: render_coverage_json_def coverage_ok_def)

text \<open>What a printed form says about an exit code.\<close>

definition says :: "printed \<Rightarrow> nat \<Rightarrow> bool" where
  "says p n \<longleftrightarrow> (case p of
     PrintsJson v \<Rightarrow> n \<noteq> 2 \<and> json_get ''ok'' v = Some (JBool (n = 0))
   | PrintsText _ \<Rightarrow> n \<noteq> 2
   | PrintsUsage \<Rightarrow> n = 0
   | PrintsVersion \<Rightarrow> n = 0
   | PrintsUsageError _ \<Rightarrow> n = 2
   | PrintsRunError _ \<Rightarrow> n = 2)"

lemma verb_says:
  assumes "\<And>out. r = Ok out \<Longrightarrow> json_get ''ok'' (to_json out) = Some (JBool (good out))"
  shows "says (verb_output j to_json as_text r) (verb_exit good r)"
  using assms by (cases r) (auto simp: says_def verb_output_def verb_exit_def exit_defs)

lemma run_says: "says (verb_output j (render_json dbg) (render_text dbg) r) (exit_code r)"
  unfolding exit_code_verb by (rule verb_says) (simp add: render_json_def)

lemma command_says: "says (command_output C D F dbg cmd) (command_exit C D F cmd)"
proof (cases cmd)
  case (CmdRecompute l r j)
  show ?thesis unfolding CmdRecompute command_output_def command_exit_def Command.case
    by (rule verb_says) (simp add: render_recompute_json_def)
next
  case (CmdVerifyPack d k j)
  show ?thesis unfolding CmdVerifyPack command_output_def command_exit_def Command.case
    by (rule verb_says) (simp add: render_pack_json_def)
next
  case (CmdAnchors c j)
  show ?thesis unfolding CmdAnchors command_output_def command_exit_def Command.case
    by (rule verb_says) (simp add: render_chain_json_def)
next
  case (CmdCoverage c l s k ck tol j)
  show ?thesis unfolding CmdCoverage command_output_def command_exit_def Command.case
    by (rule verb_says) (rule coverage_json_ok)
next
  case (CmdAssurance r s p a t g attestors k j)
  show ?thesis unfolding CmdAssurance command_output_def command_exit_def Command.case
    by (rule verb_says) (simp add: render_assurance_json_def)
next
  case (CmdProvenance r p a k j)
  show ?thesis unfolding CmdProvenance command_output_def command_exit_def Command.case
    by (rule verb_says) (simp add: render_provenance_json_def Let_def)
next
  case (CmdManifestDiff p c j)
  show ?thesis unfolding CmdManifestDiff command_output_def command_exit_def Command.case
    by (rule verb_says) (simp add: render_diff_json_def)
qed (simp_all only: command_output_def command_exit_def Command.case run_says, simp_all add: says_def exit_defs)

text \<open>
  C30. What a run prints and its exit code agree, for every verb and every command line: a JSON document has
  \<open>ok\<close> true exactly when the code is 0 and false when it is 1, an outcome in text never goes with
  the code 2, the usage and the version go with 0, and errors of the command line or of a run, which print
  no outcome, are exactly the code 2.
\<close>

theorem output_agrees_with_exit:
  "(case main_output C D F dbg argv of
      PrintsJson v \<Rightarrow> main_exit C D F argv \<noteq> 2 \<and> json_get ''ok'' v = Some (JBool (main_exit C D F argv = 0))
    | PrintsText _ \<Rightarrow> main_exit C D F argv \<noteq> 2
    | PrintsUsage \<Rightarrow> main_exit C D F argv = 0
    | PrintsVersion \<Rightarrow> main_exit C D F argv = 0
    | PrintsUsageError _ \<Rightarrow> main_exit C D F argv = 2
    | PrintsRunError _ \<Rightarrow> main_exit C D F argv = 2)"
proof -
  have "says (main_output C D F dbg argv) (main_exit C D F argv)"
    by (cases "parse_args argv") (simp_all add: main_output_def main_exit_def command_says, simp add: says_def exit_defs)
  then show ?thesis by (simp add: says_def)
qed

subsection \<open>Printed graphs\<close>

text \<open>
  A graph that is printed as verified names every source it prints: each source of each derivation
  is declared exactly once, is marked by its own kind, and an off-ledger source is followed by its
  basis; the line for an undeclared source is only for refused graphs.
\<close>

theorem verified_graph_prints_declared:
  assumes "run_provenance C D F rep prov stmt key = Ok out" "po_failure out = None"
    and "d \<in> set (derivations (provenance (graph out)))" "i \<in> set (derived_from d)"
  shows "\<exists>src \<in> set (sources (provenance (graph out))). source_id src = i \<and>
    (\<forall>other \<in> set (sources (provenance (graph out))). source_id other = i \<longrightarrow> other = src) \<and>
    (kind src = OffLedger \<longrightarrow> (\<exists>b. basis src = Some b \<and> trim b \<noteq> [])) \<and>
    (\<forall>final. source_line (sources_by_id (provenance (graph out))) final i = declared_line final src)"
proof -
  let ?p = "provenance (graph out)"
  obtain sr where "verify_provenance C sr (graph out) key = Ok ()"
    using assms(1,2) by (auto simp: run_provenance_def Let_def is_ok_iff split: if_splits)
  then have ok: "graph_ok ?p" by (simp add: verify_provenance_Ok_iff)
  with assms(3,4) obtain src where src: "src \<in> set (sources ?p)" "source_id src = i"
    by (fastforce simp: graph_ok_def)
  then have got: "bget (sources_by_id ?p) i = Some src"
    by (simp add: sources_by_id_def bget_by_id [OF ok])
  have only: "other = src" if "other \<in> set (sources ?p)" "source_id other = i" for other
    using that got bget_by_id [OF ok, of i other] by (simp add: sources_by_id_def)
  have "source_explained src" using ok src(1) by (simp add: graph_ok_def)
  then have basis: "kind src = OffLedger \<Longrightarrow> \<exists>b. basis src = Some b \<and> trim b \<noteq> []"
    by (simp add: source_explained_def)
  have "\<forall>final. source_line (sources_by_id ?p) final i = declared_line final src"
    by (simp add: source_line_def got)
  with src only basis show ?thesis by blast
qed

end
