(* ===== verification/Service_Text.thy ===== *)
theory Service_Text
  imports Service Messages
begin

text \<open>
  The status of an answer of the service (\<open>solvency-service/src/main.rs\<close>): it is chosen by
  searching the text of the error, so the texts of \<open>keystore.rs\<close> and \<open>api.rs\<close> and of the library
  errors behind them are rendered here. What the operating system, serde and hex add to a text
  is the record \<open>reasons\<close>.
\<close>

record reasons =
  rn_keystore :: "keystore_error \<Rightarrow> string"
  rn_json :: string
  rn_debug :: "string \<Rightarrow> string"

subsection \<open>Texts\<close>

text \<open>\<open>{:#}\<close> of a context over its cause.\<close>

definition because :: "string \<Rightarrow> string \<Rightarrow> string" where "because context_text cause = context_text @ '': '' @ cause"

definition keystore_text :: "reasons \<Rightarrow> keystore_error \<Rightarrow> string" where
  "keystore_text R e = (case e of
     KekNotHex \<Rightarrow> because ''SERVICE_KEK is not hex'' (rn_keystore R e)
   | KekLength n \<Rightarrow> ''SERVICE_KEK must be 32 bytes (64 hex characters), got '' @ show_nat n
   | NotWritable dir \<Rightarrow> because (''keystore directory '' @ dir @
       '' is not writable by this process; chown it to the user the service runs as (the image's `canton` user)'')
       (rn_keystore R e)
   | BadOrgId \<Rightarrow> ''org_id must be non-empty and [A-Za-z0-9_-]''
   | SealFailed \<Rightarrow> ''sealing the seed failed''
   | WriteFailed path \<Rightarrow> because (''writing '' @ path) (rn_keystore R e)
   | RenameFailed path \<Rightarrow> because (''renaming into '' @ path) (rn_keystore R e)
   | ReadFailed path \<Rightarrow> because (''reading '' @ path) (rn_keystore R e)
   | TooShort path \<Rightarrow> path @ '' is too short to be a sealed key''
   | CannotUnseal path \<Rightarrow> ''could not unseal '' @ path @ '': wrong SERVICE_KEK, or the file was altered''
   | SeedLength \<Rightarrow> ''unsealed seed has the wrong length'')"

definition publish_error_text :: "(string \<Rightarrow> string) \<Rightarrow> publish_error \<Rightarrow> string" where
  "publish_error_text dbg e = (case e of
     NoLeavesToPublish \<Rightarrow> ''cannot publish a report with no leaves''
   | NoEntitiesToPublish \<Rightarrow> ''cannot publish a group with no entities''
   | PublishMerkle m \<Rightarrow> merkle_text dbg m
   | NoAudience \<Rightarrow> ''publishing for no audience is not a packaging''
   | DuplicateAudience \<Rightarrow>
       ''two packagings name the same audience, so one would silently replace the other'')"

definition attest_error_text :: "reasons \<Rightarrow> attest_error \<Rightarrow> string" where
  "attest_error_text R e = (case e of
     NotJson \<Rightarrow> because ''parsing the participant's response'' (rn_json R)
   | NoOffset \<Rightarrow> ''ledger-end response has no offset''
   | NoParties \<Rightarrow> ''no custody parties declared: an empty party set reads an empty book''
   | PackageIdQualified t \<Rightarrow> ''template id '' @ rn_debug R t @
       '' is package-id qualified; a v2 request needs the package name, as in #package-name:Module:Template. '' @
       ''Responses come back package-id qualified, so the two forms are not interchangeable''
   | Unpinned \<Rightarrow> ''no ledger offset: an unpinned read cannot be paired with a liabilities snapshot''
   | NotAnArray \<Rightarrow> ''a v2 active-contracts response is a JSON array''
   | NoCreatedEvent \<Rightarrow> ''entry has no contractEntry.JsActiveContract.createdEvent''
   | NoContractId \<Rightarrow> ''createdEvent has no contractId''
   | ContractTwice cid \<Rightarrow> ''contract '' @ cid @ '' appears twice in one snapshot''
   | NoCreateArgument cid \<Rightarrow> ''contract '' @ cid @ '' has no createArgument''
   | NoAssetField cid field \<Rightarrow> ''contract '' @ cid @ '' has no '' @ field
   | NoAmountField cid field \<Rightarrow> ''contract '' @ cid @ '' has no '' @ field @ '', or it is not a string''
   | BadAmount cid m \<Rightarrow> because (''amount for contract '' @ cid) (merkle_text (rn_debug R) m)
   | TotalOverflows asset \<Rightarrow> ''custody total for '' @ asset @ '' overflows''
   | TransportFailed path \<Rightarrow> because ''querying the participant'' (rn_json R)
   | NoPositions \<Rightarrow> ''no custody positions: an empty book is not a coverage claim''
   | OtherOffset mine theirs \<Rightarrow> ''custody read is pinned to offset '' @ mine @ '' but the liabilities snapshot is at '' @
       theirs @ ''; a coverage claim across two instants compares different days''
   | NotCustody profile_id \<Rightarrow> ''a custody report must declare coverage.custody, got '' @ rn_debug R profile_id
   | CustodyPublish p \<Rightarrow> publish_error_text (rn_debug R) p)"

text \<open>The derived \<open>Debug\<close> of a pack failure.\<close>

definition named_debug :: "(string \<Rightarrow> string) \<Rightarrow> string \<Rightarrow> string \<Rightarrow> string \<Rightarrow> string" where
  "named_debug dbg variant field v = variant @ '' { '' @ field @ '': '' @ dbg v @ '' }''"

definition pack_failure_debug :: "(string \<Rightarrow> string) \<Rightarrow> pack_failure \<Rightarrow> string" where
  "pack_failure_debug dbg e = (case e of
     PackUnsupportedVersion v \<Rightarrow> named_debug dbg ''UnsupportedVersion'' ''found'' v
   | DuplicateEntry n \<Rightarrow> named_debug dbg ''DuplicateEntry'' ''name'' n
   | UnsafeName n \<Rightarrow> named_debug dbg ''UnsafeName'' ''name'' n
   | Missing n \<Rightarrow> named_debug dbg ''Missing'' ''name'' n
   | Altered n \<Rightarrow> named_debug dbg ''Altered'' ''name'' n
   | Unlisted n \<Rightarrow> named_debug dbg ''Unlisted'' ''name'' n
   | PackReportMismatch \<Rightarrow> ''ReportMismatch''
   | PackUnknownSigner \<Rightarrow> ''UnknownSigner''
   | PackBadSignature \<Rightarrow> ''BadSignature'')"

definition service_error_text :: "reasons \<Rightarrow> service_error \<Rightarrow> string" where
  "service_error_text R e = (case e of
     NoLeavesGiven \<Rightarrow> ''cannot publish a report with no leaves''
   | OtherProfile p \<Rightarrow> ''this route publishes '' @ LIABILITIES_PROFILE @ ''; got '' @ rn_debug R p
   | AmountField what k v m \<Rightarrow> because (what @ '': '' @ k @ '' = '' @ rn_debug R v) (merkle_text (rn_debug R) m)
   | EmptyUser i \<Rightarrow> ''leaf '' @ show_nat i @ '': empty user_id''
   | DuplicateUser i u \<Rightarrow> ''leaf '' @ show_nat i @ '': duplicate user_id '' @ rn_debug R u
   | EmptyAsset u \<Rightarrow> ''leaf '' @ rn_debug R u @ '': empty asset name''
   | LeafAmount u asset v m \<Rightarrow>
       because (''leaf '' @ rn_debug R u @ '': '' @ asset @ '' = '' @ rn_debug R v) (merkle_text (rn_debug R) m)
   | BadDebtOverflows \<Rightarrow> ''bad debt total overflows u128''
   | ServicePublish p \<Rightarrow> publish_error_text (rn_debug R) p
   | PackRefused p \<Rightarrow> ''building the evidence pack: '' @ pack_failure_debug (rn_debug R) p
   | EmptySnapshot \<Rightarrow> ''the snapshot holds no positions''
   | ServiceAttest a \<Rightarrow> attest_error_text R a)"

subsection \<open>The status\<close>

definition error_status :: "string \<Rightarrow> nat" where
  "error_status t = (if contains_text t ''SERVICE_KEK'' \<or> contains_text t ''keystore'' then 500 else 400)"

definition service_status :: "reasons \<Rightarrow> service_answer \<Rightarrow> nat" where
  "service_status R ans = (case ans of
     Unauthorized \<Rightarrow> 401
   | KeystoreFailed e \<Rightarrow> error_status (keystore_text R e)
   | CallFailed e \<Rightarrow> error_status (service_error_text R e)
   | _ \<Rightarrow> 200)"

subsection \<open>Whose fault a status says it is\<close>

text \<open>
  The name a caller gives to an asset is part of the text, so a mistake of the caller is answered as
  a fault of the service when the name says keystore; and two faults of the service, whose texts
  name neither the key nor a path, are answered as mistakes of the caller.
\<close>

lemma named_asset_status:
  assumes "contains_text k ''keystore''"
  shows "service_status R (CallFailed (AmountField what k v m)) = 500"
proof -
  have "service_error_text R (AmountField what k v m) =
      (what @ '': '') @ k @ ('' = '' @ rn_debug R v @ '': '' @ merkle_text (rn_debug R) m)"
    by (simp add: service_error_text_def because_def)
  then have "contains_text (service_error_text R (AmountField what k v m)) ''keystore''"
    using contains_text_part [OF assms] by metis
  then show ?thesis by (simp add: service_status_def error_status_def)
qed

lemma own_faults_status:
  "service_status R (KeystoreFailed SealFailed) = 400" "service_status R (KeystoreFailed SeedLength) = 400"
  by (simp_all add: service_status_def error_status_def keystore_text_def contains_text_def starts_with_def)

theorem caller_named_status:
  assumes "require_token app header"
    and "signer_for A (app_keystore app) \<lparr>req_org = pr_org req, req_seed = draw_seed d, req_nonce = draw_nonce d\<rparr> S = (Ok signer, S')"
    and "pr_leaves req \<noteq> []" "pr_profile req = LIABILITIES_PROFILE"
    and "entries (din_bad_debt (pr_disclosures req)) = [(k, v)]" "parse_amount_18dp v = Err m"
    and "contains_text k ''keystore''"
  shows "service_status R (fst (handle C J E A app header (CallPublish req) d S)) = 500"
proof -
  have "do_publish C E req signer slt = Err (AmountField ''disclosures.bad_debt'' k v m)" for slt
    using assms(3-6) by (simp add: do_publish_def publish_documents_def amounts_of_def)
  then have "fst (handle C J E A app header (CallPublish req) d S) =
      CallFailed (AmountField ''disclosures.bad_debt'' k v m)"
    using assms(1,2) by (simp add: handle_def)
  with named_asset_status [OF assms(7)] show ?thesis by simp
qed

end
