(* ===== verification/Simulation_Cli_Text.thy ===== *)
theory Simulation_Cli_Text
  imports Simulation_Front
begin

text \<open>
  What the commands of \<open>sim-cli/src/main.rs\<close> but \<open>simulate\<close>, which is in \<open>Simulation_Front\<close>, print as text.
  With \<open>--json\<close> they print what serde derives for the same values. A text that panics is \<open>None\<close>.
\<close>

definition line :: "string \<Rightarrow> string" where "line s = s @ nl"

subsection \<open>\<open>contract\<close>\<close>

definition event_offset :: "json_text \<Rightarrow> json option \<Rightarrow> string \<Rightarrow> string" where
  "event_offset J v key =
     (case Option.bind (Option.bind v (json_get key)) (json_get ''offset'') of
        Some n \<Rightarrow> to_text J n | None \<Rightarrow> ''?'')"

definition contract_text :: "json_text \<Rightarrow> string \<Rightarrow> string list \<Rightarrow> ContractEvents \<Rightarrow> string" where
  "contract_text J cid parties ev = line (case (ev_created ev, ev_archived ev) of
     (_, Some _) \<Rightarrow> cid @ '' ARCHIVED (created at offset '' @ event_offset J (ev_created ev) ''createdEvent'' @
       '', archived at offset '' @ event_offset J (ev_archived ev) ''archivedEvent'' @ '')''
   | (Some c, None) \<Rightarrow> cid @ '' ACTIVE (template '' @
       (case Option.bind (Option.bind (json_get ''createdEvent'' c) (json_get ''templateId'')) as_str of
          Some t \<Rightarrow> t | None \<Rightarrow> ''?'') @
       '', created at offset '' @ event_offset J (ev_created ev) ''createdEvent'' @ '')''
   | (None, None) \<Rightarrow> cid @ '' UNKNOWN to this participant for parties '' @ join '', '' parties)"

subsection \<open>\<open>explain\<close>\<close>

definition fact_line :: "string \<Rightarrow> string option \<Rightarrow> string" where
  "fact_line label v = (case v of Some t \<Rightarrow> line (label @ t) | None \<Rightarrow> [])"

definition list_line :: "string \<Rightarrow> string list \<Rightarrow> string" where
  "list_line label vs = (if vs = [] then [] else line (label @ join '', '' vs))"

definition explain_text :: "Diagnosis \<Rightarrow> string" where
  "explain_text d =
     (let x = dg_extracted d in
      line (dg_code d @ '' '' @ em_dash @ '' '' @ title_text (dg_title d)) @
      line (''phase: '' @ phase_label (dg_phase d) @ ''   category: '' @
        (case dg_category d of Some c \<Rightarrow> c | None \<Rightarrow> ''?'') @ ''   retryable: '' @
        (if dg_retryable d then ''yes'' else ''no'')) @
      nl @ line (summary_text (dg_summary d)) @
      fact_line ''template: '' (x_template_id x) @ fact_line ''choice: '' (x_choice x) @
      list_line ''contracts: '' (x_contract_ids x) @
      list_line ''missing authorizers: '' (x_missing_authorizers x) @
      fact_line ''message: '' (x_message x) @
      (case dg_explanation d of Some e \<Rightarrow> nl @ line (''Canton: '' @ e) | None \<Rightarrow> []) @
      fact_line ''Canton resolution: '' (dg_resolution d) @
      (if dg_hints d = [] then []
       else nl @ line ''Next steps:'' @ concat (map (\<lambda>h. line (''  - '' @ hint_text h)) (dg_hints d))) @
      (case dg_catalog_source d of Some src \<Rightarrow> nl @ line (''catalog source: '' @ src) | None \<Rightarrow> []))"

subsection \<open>\<open>effects\<close>\<close>

definition offline_report :: "effects \<Rightarrow> 'd SimulationReport" where
  "offline_report fx =
     \<lparr>rp_outcome = WouldSucceed, rp_base_url = ''(offline)'', rp_request = new_request (fx_act_as fx) [],
      rp_command_id = fx_command_id fx, rp_effects = Some fx, rp_traffic = None, rp_amulet_fee = None,
      rp_diagnosis = None, rp_contract_states = [], rp_caveats = [], rp_prepared_transaction = None,
      rp_prepared_hash = None\<rparr>"

definition offline_text :: "'d text_env \<Rightarrow> effects \<Rightarrow> string option" where
  "offline_text E fx = report_to_text (E\<lparr>te_elapsed := 0\<rparr>) (offline_report fx)"

subsection \<open>\<open>fee\<close> and \<open>catalog\<close>\<close>

definition fee_text :: "('d \<Rightarrow> string) \<Rightarrow> 'd standalone_fee_quote \<Rightarrow> string" where
  "fee_text dec q =
     (let pricing = fs_traffic (sq_schedule q) in
      line (''pricing: '' @ dec (tp_extra_traffic_price_usd_per_mb pricing) @ '' USD/MB extra traffic, '' @
        dec (tp_amulet_price_usd pricing) @ '' USD per CC   ['' @ tp_source pricing @ '']'') @
      (case sq_traffic q of
         Some t \<Rightarrow> line (''traffic: '' @ show_nat (unat (tc_total (tq_cost t))) @ '' bytes '' @ almost @ '' '' @
           dec (tq_usd t) @ '' USD '' @ almost @ '' '' @ dec (tq_cc t) @ '' CC'')
       | None \<Rightarrow> []) @
      (case sq_amulet_fee q of
         Some f \<Rightarrow> line (''amulet transfer: fee '' @ dec (aq_transfer_fee_usd f) @ '' USD + create '' @
           dec (aq_create_fee_usd f) @ '' USD = '' @ dec (aq_total_usd f) @ '' USD '' @ almost @ '' '' @
           dec (aq_total_cc f) @ '' CC ('' @ show_nat (aq_outputs f) @ '' outputs incl. change)'')
       | None \<Rightarrow> []))"

definition catalog_text :: "(string \<times> CatalogEntry) list \<Rightarrow> string" where
  "catalog_text es = concat (map (\<lambda>(c, e). line (pad_to 55 c @ '' '' @ ce_category e)) es)"

subsection \<open>What is printed\<close>

lemma offline_text_defined:
  "offline_text E fx = None \<longleftrightarrow>
     (\<exists>n \<in> set (fx_nodes fx). \<not> node_ok (te_json E) n) \<or> (\<exists>c \<in> set (fx_input_contracts fx). \<not> input_ok c)"
  by (auto simp: offline_text_def report_text_defined printable_def offline_report_def list_all_iff)

text \<open>The three states of a contract are told apart as in a report: archived before active.\<close>

lemma contract_text_state:
  "\<exists>rest. contract_text J cid parties ev = cid @
     (case contract_state cid (Ok ev) of
        IsArchived _ _ _ _ \<Rightarrow> '' ARCHIVED (created at offset ''
      | IsActive _ _ _ \<Rightarrow> '' ACTIVE (template ''
      | _ \<Rightarrow> '' UNKNOWN to this participant for parties '') @ rest"
  by (cases "ev_created ev"; cases "ev_archived ev") (simp_all add: contract_text_def contract_state_def line_def)

end
