(* ===== verification/Spec2Isabelle.thy ===== *)
theory Spec2Isabelle
  imports Merkle_Properties Report_Properties Group_Properties Evidence_Properties Service_Properties
    Publisher_Properties Simulation_Properties Fee_Properties Front_Properties Output_Properties
    Text_Properties Service_Text Simulation_Cli_Text
begin

text \<open>
  A verification library for the Canton Assurance Layer, the Rust code under \<open>src/rust\<close>. The
  program has two halves. The assurance layer lets a venue publish what it owes: a signed report
  commits the balances of all customers in a Merkle sum tree, each customer gets a proof, and
  further documents (anchors, coverage, provenance, assurance levels, packs, compatibility
  statements) are bound to the report by digest and signature. A command line verifies all of it; a
  service and a binary publish. The simulator prepares a ledger command on a participant without
  submitting it and reports the effects, the fees or the diagnosis of the rejection; a command line
  and a server are its front ends.

  \<^bold>\<open>The parts and their theories.\<close> Every definition is a translation of the function of the same
  name unless its theory says otherwise.

  \<^item> Foundations: \<open>Prelude\<close> (strings as bytes, checked \<open>u64\<close> and \<open>u128\<close> arithmetic on words, results as
    sums with the \<open>?\<close> operator \<open>and_then\<close>, decimal text, UTF-8, trimming), \<open>Ordered_Map\<close>
    (\<open>BTreeMap<String, _>\<close> as the type \<open>bmap\<close> of sorted association lists), \<open>Json_Value\<close>
    (\<open>serde_json::Value\<close>), \<open>Crates\<close> (third-party functions).
  \<^item> The core crate, \<open>solvency-merkle/src/lib.rs\<close>: \<open>Amount\<close> (fixed point with 18 decimals),
    \<open>Encoding\<close> (length prefixes), \<open>Leaf\<close> (both leaf formats), \<open>Sum_Tree\<close> (\<open>combine\<close>, \<open>build\<close>,
    \<open>prove\<close>, \<open>verify_proof\<close>), \<open>Sum_Tree_Correct\<close> (its correctness).
  \<^item> Reports, \<open>solvency-report/src\<close>: \<open>Failure\<close> and \<open>Document\<close> (\<open>document.rs\<close>, the failures of
    \<open>verify.rs\<close>), \<open>Digest\<close>, \<open>Sign\<close>, \<open>Manifest_Diff\<close> (\<open>manifest.rs\<close>), \<open>Profile_Rules\<close>
    (\<open>profile.rs\<close>), \<open>Verify\<close>, \<open>Produce\<close>, \<open>Group\<close>, and \<open>Verifier_Limits\<close>, which holds no code but what an
    accepted proof fails to establish.
  \<^item> Evidence, \<open>solvency-report/src\<close>: \<open>Instant\<close>, \<open>Anchor\<close>, \<open>Coverage_Check\<close>, \<open>Provenance\<close>,
    \<open>Assurance\<close>, \<open>Pack\<close>, \<open>Compat\<close>.
  \<^item> The verifier's command line, \<open>solvency-cli/src\<close>: \<open>Cli_Args\<close> (\<open>args.rs\<close>), \<open>Cli_Run\<close>
    (\<open>run.rs\<close>, \<open>pack.rs\<close>), \<open>Cli_Verbs\<close> (the other verbs and the exit codes of \<open>main.rs\<close>), \<open>Messages\<close>
    (\<open>Display\<close> of every failure of the library), \<open>Render\<close> (\<open>output.rs\<close>, the rendering of
    \<open>provenance.rs\<close> and what \<open>main.rs\<close> prints).
  \<^item> The producing side: \<open>Custody\<close> (\<open>reserve-attest/src\<close>: a participant's holdings become a custody
    report), \<open>Keystore\<close> and \<open>Service\<close> (\<open>solvency-service/src\<close>: sealed keys, publishing, and
    \<open>respond\<close>, which answers every route), \<open>Service_Text\<close> (the texts and statuses of its errors), \<open>Publisher\<close> (\<open>solvency-report/src/bin/publish.rs\<close>), \<open>Delivery\<close> (what both
    write, as a directory a verifier reads).
  \<^item> The simulator: \<open>Effects\<close> and \<open>Effects_Correct\<close> (\<open>sim-core/src/prepared.rs\<close> with the messages of
    \<open>sim-proto\<close>), \<open>Fees\<close> and \<open>Fees_Correct\<close> (\<open>sim-fee/src/lib.rs\<close>), \<open>Rejection\<close>
    (\<open>sim-diagnose/src/ledger_error.rs\<close>, \<open>catalog.rs\<close>), \<open>Diagnosis_Model\<close> (\<open>classify.rs\<close>),
    \<open>Ledger_Client\<close>, \<open>Simulate\<close> and \<open>Simulate_Correct\<close> (\<open>ledger.rs\<close>, \<open>simulate.rs\<close>, \<open>model.rs\<close> of
    \<open>sim-core\<close>), \<open>Diagnosis_Text\<close> (the texts of titles, summaries, hints and caveats), \<open>Simulation_Text\<close>
    (\<open>render.rs\<close>), \<open>Simulation_Front\<close> (\<open>scan.rs\<close>, \<open>sim-server\<close>, \<open>sim-cli\<close>: \<open>serve_simulate\<close> and
    \<open>cli_simulate\<close> run the simulator and then render its report) and \<open>Simulation_Cli_Text\<close> (what the other
    commands of \<open>sim-cli\<close> print).
  \<^item> Examples: \<open>Sample_Crates\<close>, \<open>Samples\<close>, \<open>Evidence_Samples\<close>. Properties: \<open>Merkle_Properties\<close>,
    \<open>Report_Properties\<close>, \<open>Group_Properties\<close>, \<open>Evidence_Properties\<close>, \<open>Cli_Properties\<close>,
    \<open>Output_Properties\<close>, \<open>Service_Properties\<close>, \<open>Publisher_Properties\<close>, \<open>Simulation_Properties\<close>,
    \<open>Fee_Properties\<close>, \<open>Diagnosis_Properties\<close>, \<open>Front_Properties\<close>, \<open>Text_Properties\<close> and this theory.

  \<^bold>\<open>State and errors.\<close> The library is purely functional: documents are records, a verifier is a
  function from documents to \<open>failure + unit\<close>, and every early return and \<open>?\<close> of the source is a
  branch, in the order of the source. Messages are symbolic, each format string a constructor with
  the values it interpolates, and rendered by functions of their own. The stateful parts pass their
  state: a run of the command line reads a \<open>filesystem\<close>; the keystore works on a \<open>store\<close> of files,
  both as a function (\<open>signer_for\<close>) and as a step relation (\<open>serves\<close>) in which concurrent requests
  interleave file operation by file operation; the simulator threads the list of requests it has
  made, of which the network's answer is a function. A result \<open>None\<close> around a result of the
  simulator is a panic: a slice inside a character, or an overflow of \<open>rust_decimal\<close>. It ends a run of
  the command line with 101 (\<open>exit_status\<close>), also when the report of a finished simulation is rendered; in
  the server it ends the connection (\<open>NoReply\<close> when the rendering panics).

  \<^bold>\<open>Parameters.\<close> Code that is not in the repository is an argument. \<open>crates\<close> holds SHA-256, HMAC,
  hexadecimal and Ed25519; \<open>hex_spec\<close>, \<open>hex_lower\<close> and \<open>ed25519_spec\<close> say that decoding returns
  what was encoded, that digits are written in lower case and that a key verifies its own
  signatures. \<open>decoders\<close>, \<open>encoders\<close> and \<open>json_text\<close> hold what serde generates, \<open>aead\<close> the cipher
  of the keystore (\<open>aead_spec\<close>: opening what was sealed), \<open>transport\<close> and the process argument of
  \<open>curl_run\<close> the network. For the simulator: \<open>decimals\<close> is \<open>rust_decimal\<close> (\<open>decimal_spec\<close>: its
  operations are those of a rational where they do not overflow), \<open>ledger_wire\<close> base64, prost and
  chrono, \<open>patterns\<close> the regular expressions, \<open>world\<close> these with the catalog, the files and the
  network, \<open>text_env\<close> and \<open>dbg\<close> what renders decimals and quotes strings. Random draws are
  arguments. No hash is assumed injective: where the program relies on collision resistance, a
  theorem ends in \<open>\<or> collides C x y\<close> with the two preimages.

  \<^bold>\<open>Interfaces.\<close> \<open>keyed_map\<close> (what is used of a map; interpreted by \<open>bmap\<close>), \<open>prefix_code\<close> (an encoding
  that can be cut off the front of any preimage; \<open>lp\<close>, \<open>lpmap\<close> and each repeated part of a document),
  \<open>digest_of\<close> (a preimage determines what it covers; the seven hashed documents), \<open>node_rule\<close> and
  \<open>committing_rule\<close> (folding a proof path; the core crate's node rule and the verifier's copy).

  \<^bold>\<open>What is shown.\<close> Amounts are parsed exactly and round trip. A tree totals its leaves and proves
  each of them in at most \<open>\<lceil>log2 n\<rceil>\<close> steps; its root binds the leaves up to a collision. What is
  published honestly verifies, for every kind of document, through to the exit code of the command
  line on a delivery the service or the binary made, and what a run prints agrees with its exit
  code. What an accepted document establishes is characterised exactly (\<open>..._Ok_iff\<close>), and
  \<open>Assurance\<close> refines the declarative \<open>substantiates\<close>. Histories move forward and are determined by
  their last anchor; packs pin files; a key on disk is the key of every later request under any
  interleaving. The walk over a transaction ends on every message, lists each node once and is the
  preorder of a forest; fees are exact up to one rounding; a simulation submits nothing, asks a
  bounded number of questions with the caller's token, and its outcome and the exit code of its command
  are functions of the participant's answer and of whether the report can be printed. What the service
  publishes verifies under the key it announced. Several theorems state limits: a proof does not bound the totals
  (\<open>understated_totals_verify\<close>), unanimity is checked on totals, an unsigned provenance graph is
  believed, a sweep over no proofs passes, concurrent first use splits a key, a rejection or a report
  whose text is cut inside a character panics, rolled back archives are reported, an unreachable
  participant gives the exit code of a failing command, a caller's asset name decides a status code.

  \<^bold>\<open>Bounds and recursion.\<close> Every definition is total. Recursion is structural, except for \<open>grow_levels\<close>
  (each level is shorter), \<open>strip_leading\<close>, \<open>valid_utf8\<close>, \<open>utf8_chars\<close> and \<open>split_seps\<close> (the rest of the
  string), each with its termination proof, and for the walk \<open>walk_all\<close> over nodes that name each
  other, an option-valued \<open>partial_function\<close> that theorem \<open>effects_always_returned\<close> shows to return
  always; no fuel is used. Amounts are 128-bit and counts 64-bit words, added with the checked,
  saturating or wrapping operation the source uses. The predicates \<open>fits\<close> and \<open>fits_...\<close> bound
  lengths below \<open>2 ^ 63\<close>, which no allocation in Rust exceeds; only the binding theorems need them.

  \<^bold>\<open>Not modelled.\<close> The fixture and corpus generators (\<open>golden.rs\<close>, \<open>corpus_gen.rs\<close>), which are test data
  built by functions that are modelled; the sample programs; the code generated from protobuf; the
  parsers \<open>clap\<close> and serde derive, the router \<open>axum\<close>, tokio and the timing of the
  token comparison; the usage text and the text of errors on standard error. Contracts in Daml and the web tier are other languages.
\<close>

text \<open>
  C40. The documents of the format are hashed under separate domains: no report, anchor,
  attestation, provenance graph, pack, corpus or group entity has the preimage of another kind of
  document, so a signature made over one kind is a signature over another only through a
  collision of SHA-256.
\<close>

theorem document_preimages_apart:
  "sorted_wrt (\<lambda>A B. A \<inter> B = {})
     [range report_preimage, range anchor_preimage, range attestation_preimage, range provenance_preimage,
      range pack_preimage, range corpus_preimage, range entity_preimage]"
  by (auto simp: REPORT_DIGEST_DOMAIN_def REPORT_DIGEST_DOMAIN_V2_def ANCHOR_DIGEST_DOMAIN_def
      ATTESTATION_DIGEST_DOMAIN_def PROVENANCE_DIGEST_DOMAIN_def PACK_DIGEST_DOMAIN_def CORPUS_DIGEST_DOMAIN_def
      ENTITY_DOMAIN_def anchor_preimage_def attestation_preimage_def provenance_preimage_def pack_preimage_def
      corpus_preimage_def entity_preimage_def report_preimage_def split: if_splits)

end
